(* ===== verification/Prelude.thy ===== *)
theory Prelude
  imports Main "HOL-Library.Word"
begin

text \<open>
  Shared vocabulary of the MeneOS development: machine types, little-endian byte codecs, the
  slice operations of Rust arrays, saturating arithmetic, the ordered map
  \<^verbatim>\<open>BTreeMap\<close> with the locale that states its contract, tables of optional slots (the shape
  both service registries have) and the first-match array update that models a
  \<^verbatim>\<open>for entry in entries.iter_mut() { if .. { ..; return } }\<close> loop.
  All builds of MeneOS are release builds for 64-bit targets, so \<^verbatim>\<open>usize\<close> is a 64-bit word and
  unchecked arithmetic wraps around.
\<close>

unbundle bit_operations_syntax

named_theorems codec_simps \<open>round trips and lengths of the little-endian byte codecs\<close>
named_theorems slice_simps \<open>slices and in-place copies of byte arrays\<close>
named_theorems btree_simps \<open>lookup equations of the ordered map\<close>
named_theorems slot_simps \<open>lookup equations of slot tables\<close>

section \<open>Machine types\<close>

type_synonym u8 = "8 word"
type_synonym u16 = "16 word"
type_synonym u32 = "32 word"
type_synonym u64 = "64 word"
type_synonym usize = "64 word"
type_synonym bytes = "u8 list"

text \<open>A byte-string literal \<^verbatim>\<open>b"..."\<close>, and the bytes of an ASCII \<^verbatim>\<open>&str\<close> literal.\<close>

definition lit :: "string \<Rightarrow> bytes" where
  "lit s = map of_char s"

lemma length_lit [simp]: "length (lit s) = length s"
  by (simp add: lit_def)

lemma lit_Nil [simp]: "lit [] = []"
  by (simp add: lit_def)

lemma lit_Cons [simp]: "lit (c # s) = of_char c # lit s"
  by (simp add: lit_def)

text \<open>\<^verbatim>\<open>usize::MAX\<close>, written \<^verbatim>\<open>!0\<close> in the source.\<close>

abbreviation all_ones :: usize where
  "all_ones \<equiv> - 1"

subsection \<open>Saturating and checked arithmetic\<close>

definition sat_add :: "'a::len word \<Rightarrow> 'a word \<Rightarrow> 'a word" where
  "sat_add a b = (if unat a + unat b < 2 ^ LENGTH('a) then a + b else - 1)"

definition sat_mul :: "'a::len word \<Rightarrow> 'a word \<Rightarrow> 'a word" where
  "sat_mul a b = (if unat a * unat b < 2 ^ LENGTH('a) then a * b else - 1)"

lemma unat_all_ones: "unat (- 1 :: 'a::len word) = 2 ^ LENGTH('a) - 1"
  by (simp add: unsigned_minus_1_eq_mask mask_eq_exp_minus_1)

lemma unat_sat_add: "unat (sat_add a b) = min (unat a + unat b) (2 ^ LENGTH('a) - 1)"
  for a b :: "'a::len word"
  by (auto simp: sat_add_def unat_all_ones unat_word_ariths min_def)

lemma unat_sat_mul: "unat (sat_mul a b) = min (unat a * unat b) (2 ^ LENGTH('a) - 1)"
  for a b :: "'a::len word"
proof (cases "unat a * unat b < 2 ^ LENGTH('a)")
  case True
  then show ?thesis by (simp add: sat_mul_def unat_word_ariths)
next
  case False
  then show ?thesis by (simp add: sat_mul_def unat_all_ones del: mult_eq_0_iff)
qed

lemma sat_add_0 [simp]: "sat_add a 0 = a"
  using unsigned_less [of a, where ?'a = nat] by (simp add: sat_add_def)

text \<open>Signed reading of a word: \<^verbatim>\<open>x as isize\<close>.\<close>

lemma sint_nonneg_unat:
  fixes x :: "'a::len word"
  assumes "0 \<le> sint x"
  shows "sint x = int (unat x)"
proof -
  have "sint x < 2 ^ (LENGTH('a) - 1)" by (rule sint_lt)
  also have "\<dots> \<le> 2 ^ LENGTH('a)" by (rule power_increasing) simp_all
  finally have "uint x = sint x" unfolding uint_sint using assms by (rule take_bit_int_eq_self [rotated])
  then show ?thesis by simp
qed

subsection \<open>Masking\<close>

lemma unat_and_not_mask: "unat (x AND NOT (mask k)) = 2 ^ k * (unat x div 2 ^ k)" for x :: "'a::len word"
proof -
  have "x AND NOT (mask k) = push_bit k (drop_bit k x)"
    by (rule bit_eqI) (auto simp: bit_simps)
  then have "unat (x AND NOT (mask k)) = take_bit LENGTH('a) (push_bit k (drop_bit k (unat x)))"
    by (simp add: unsigned_push_bit_eq unsigned_drop_bit_eq take_bit_nat_eq_self)
  moreover have "push_bit k (drop_bit k (unat x)) = 2 ^ k * (unat x div 2 ^ k)"
    by (simp add: push_bit_eq_mult drop_bit_eq_div)
  moreover have "2 ^ k * (unat x div 2 ^ k) < 2 ^ LENGTH('a)"
    by (rule le_less_trans [OF times_div_less_eq_dividend unsigned_less])
  ultimately show ?thesis by (simp add: take_bit_nat_eq_self)
qed

text \<open>Base and offset of an address in its page of 4096 bytes.\<close>

lemma page_mask: "(0xFFF :: usize) = mask 12"
  by (simp add: mask_eq_exp_minus_1)

lemma unat_page_off: "unat (x AND 0xFFF) = unat x mod 4096" for x :: usize
  by (simp only: page_mask take_bit_eq_mask [symmetric]) (simp add: take_bit_eq_mod unat_mod)

lemma page_split: "(x AND NOT 0xFFF) + (x AND 0xFFF) = x" for x :: usize
  by (subst disjunctive_add) (auto simp: bit_simps intro!: bit_eqI)

lemma unat_page_base: "unat (x AND NOT 0xFFF) = 4096 * (unat x div 4096)" for x :: usize
  using unat_and_not_mask [of x 12] by (simp add: mask_eq_exp_minus_1)

lemma page_within:
  fixes b :: usize
  assumes "b AND 0xFFF = 0" and "j < 4096"
  shows "(b + of_nat j) AND NOT 0xFFF = b" and "(b + of_nat j) AND 0xFFF = of_nat j"
proof -
  have "unat b mod 4096 = 0" using assms(1) unat_page_off [of b] by simp
  then obtain q where q: "unat b = 4096 * q" by (auto simp: mod_eq_0_iff_dvd)
  moreover have "unat b < 2 ^ 64" using unsigned_less [of b, where ?'a = nat] by simp
  ultimately have "q < 2 ^ 52" by simp
  then have "unat b + j < 2 ^ 64" using q assms(2) by simp
  then have "unat (b + of_nat j) = 4096 * q + j" using q assms(2) by (simp add: unat_word_ariths unat_of_nat)
  moreover have "unat (of_nat j :: usize) = j" using assms(2) by (simp add: unat_of_nat)
  moreover have "(4096 * q + j) mod 4096 = j" "4096 * ((4096 * q + j) div 4096) = 4096 * q" using assms(2) by simp_all
  ultimately show "(b + of_nat j) AND NOT 0xFFF = b" and "(b + of_nat j) AND 0xFFF = of_nat j"
    using q by (simp_all only: word_unat_eq_iff unat_page_base unat_page_off)
qed

section \<open>Little-endian codecs\<close>

text \<open>
  \<^verbatim>\<open>x.to_le_bytes()\<close> of an \<open>n\<close>-byte integer and \<^verbatim>\<open>from_le_bytes\<close>, through the value of the digits
  in base 256.
\<close>

fun le_digits :: "nat \<Rightarrow> nat \<Rightarrow> bytes" where
  "le_digits 0 v = []"
| "le_digits (Suc n) v = of_nat (v mod 256) # le_digits n (v div 256)"

fun le_val :: "bytes \<Rightarrow> nat" where
  "le_val [] = 0"
| "le_val (b # bs) = unat b + 256 * le_val bs"

definition to_le :: "nat \<Rightarrow> 'a::len word \<Rightarrow> bytes" where
  "to_le n x = le_digits n (unat x)"

definition from_le :: "bytes \<Rightarrow> 'a::len word" where
  "from_le bs = of_nat (le_val bs)"

lemma length_le_digits [simp]: "length (le_digits n v) = n"
  by (induction n arbitrary: v) auto

lemma length_to_le [simp, codec_simps]: "length (to_le n x) = n"
  by (simp add: to_le_def)

lemma unat_byte: "unat (of_nat v :: u8) = v mod 256"
  by (simp add: unat_of_nat)

lemma le_val_digits: "le_val (le_digits n v) = v mod 256 ^ n"
proof (induction n arbitrary: v)
  case 0
  then show ?case by simp
next
  case (Suc n)
  have "v mod (256 * 256 ^ n) = 256 * (v div 256 mod 256 ^ n) + v mod 256"
    by (rule mod_mult2_eq)
  then show ?case by (simp add: Suc unat_byte)
qed

lemma le_val_bound: "le_val bs < 256 ^ length bs"
proof (induction bs)
  case Nil
  then show ?case by simp
next
  case (Cons b bs)
  have "unat b < 256" using unsigned_less [of b, where ?'a = nat] by simp
  moreover have "Suc (le_val bs) * 256 \<le> 256 ^ length bs * 256"
    using Cons by (intro mult_le_mono1) simp
  ultimately show ?case by simp
qed

lemma le_digits_val: "le_digits (length bs) (le_val bs) = bs"
proof (induction bs)
  case Nil
  then show ?case by simp
next
  case (Cons b bs)
  have "unat b < 256" using unsigned_less [of b, where ?'a = nat] by simp
  then show ?case using Cons by simp
qed

lemma pow256: "(256::nat) ^ n = 2 ^ (8 * n)"
  by (simp add: power_mult)

lemma from_to_le [codec_simps]:
  "LENGTH('a) = 8 * n \<Longrightarrow> from_le (to_le n x) = x" for x :: "'a::len word"
  using unsigned_less [of x, where ?'a = nat] by (simp add: from_le_def to_le_def le_val_digits pow256)

lemma to_from_le [codec_simps]:
  assumes "LENGTH('a::len) = 8 * length bs"
  shows "to_le (length bs) (from_le bs :: 'a word) = bs"
proof -
  have "le_val bs < 2 ^ LENGTH('a)"
    using le_val_bound [of bs] assms by (simp add: pow256)
  then have "unat (from_le bs :: 'a word) = le_val bs"
    by (simp add: from_le_def unat_of_nat)
  then show ?thesis by (simp add: to_le_def le_digits_val)
qed

lemma from_le_u16 [simp]: "from_le (to_le 2 (x :: u16)) = x"
  by (simp add: codec_simps)

lemma from_le_u32 [simp]: "from_le (to_le 4 (x :: u32)) = x"
  by (simp add: codec_simps)

lemma from_le_u64 [simp]: "from_le (to_le 8 (x :: u64)) = x"
  by (simp add: codec_simps)

section \<open>Slices and arrays\<close>

text \<open>
  \<open>slice a b xs\<close> is \<^verbatim>\<open>&xs[a..b]\<close> and \<open>blit xs off ys\<close> is
  \<^verbatim>\<open>xs[off..off + ys.len()].copy_from_slice(ys)\<close>; Rust panics out of range, so every use is
  guarded, either by the source's own checks or by a \<open>slice_ok\<close>/\<open>blit_ok\<close> branch of the model.
\<close>

definition slice :: "nat \<Rightarrow> nat \<Rightarrow> 'a list \<Rightarrow> 'a list" where
  "slice a b xs = take (b - a) (drop a xs)"

definition slice_ok :: "nat \<Rightarrow> nat \<Rightarrow> 'a list \<Rightarrow> bool" where
  "slice_ok a b xs \<longleftrightarrow> a \<le> b \<and> b \<le> length xs"

definition blit :: "'a list \<Rightarrow> nat \<Rightarrow> 'a list \<Rightarrow> 'a list" where
  "blit xs off ys = take off xs @ ys @ drop (off + length ys) xs"

definition blit_ok :: "'a list \<Rightarrow> nat \<Rightarrow> 'a list \<Rightarrow> bool" where
  "blit_ok xs off ys \<longleftrightarrow> off + length ys \<le> length xs"

lemma length_slice [slice_simps]: "b \<le> length xs \<Longrightarrow> length (slice a b xs) = b - a"
  by (simp add: slice_def)

lemma length_blit [slice_simps]:
  "off + length ys \<le> length xs \<Longrightarrow> length (blit xs off ys) = length xs"
  by (simp add: blit_def)

lemma slice_full [slice_simps]: "slice 0 (length xs) xs = xs"
  by (simp add: slice_def)

lemma slice_blit_same [slice_simps]:
  "off + length ys \<le> length xs \<Longrightarrow> slice off (off + length ys) (blit xs off ys) = ys"
  by (simp add: slice_def blit_def)

lemma take_blit_0 [slice_simps]: "n = length ys \<Longrightarrow> take n (blit xs 0 ys) = ys"
  by (simp add: blit_def)

lemma slice_append_skip [slice_simps]:
  "length xs \<le> a \<Longrightarrow> slice a b (xs @ ys) = slice (a - length xs) (b - length xs) ys"
  by (simp add: slice_def)

lemma slice_append_front [slice_simps]:
  "b \<le> length xs \<Longrightarrow> slice a b (xs @ ys) = slice a b xs"
  by (cases "a \<le> b") (auto simp: slice_def)

lemma slice_slice: "off + m \<le> b - a \<Longrightarrow> slice off (off + m) (slice a b xs) = slice (a + off) (a + off + m) xs"
  by (simp add: slice_def drop_take add.commute)

lemma slice_join: "a \<le> b \<Longrightarrow> b \<le> c \<Longrightarrow> slice a b xs @ slice b c xs = slice a c xs"
  using take_add [of "b - a" "c - b" "drop a xs"] by (simp add: slice_def)

lemma slice_drop: "x \<le> y \<Longrightarrow> slice x y xs @ drop y xs = drop x xs"
  using append_take_drop_id [of "y - x" "drop x xs"] by (simp add: slice_def)

lemma take_as_slice: "take n (drop a xs) = slice a (a + n) xs"
  by (simp add: slice_def)

lemma blit_blit: "p + length u \<le> length xs \<Longrightarrow> blit (blit xs p u) (p + length u) v = blit xs p (u @ v)"
  by (simp add: blit_def add_ac)

lemma take_blit_front:
  assumes "length old = b" and "off + length ys \<le> b"
  shows "take b (blit (blit xs 0 old) off ys) = blit old off ys"
proof -
  have "blit (blit xs 0 old) off ys = blit old off ys @ drop b xs" using assms by (simp add: blit_def)
  moreover have "length (blit old off ys) = b" using assms by (simp add: length_blit)
  ultimately show ?thesis by simp
qed

lemma blit_slice:
  assumes "a + k \<le> length xs" and "off + length ys \<le> k"
  shows "blit xs a (blit (slice a (a + k) xs) off ys) = blit xs (a + off) ys"
proof -
  have "take off (slice a (a + k) xs) = slice a (a + off) xs" using assms by (simp add: slice_def min_def)
  moreover have "drop (off + length ys) (slice a (a + k) xs) = slice (a + off + length ys) (a + k) xs"
    using assms by (simp add: slice_def drop_take add_ac)
  moreover have "length (blit (slice a (a + k) xs) off ys) = k" using assms by (simp add: length_blit length_slice)
  moreover have "take a xs @ slice a (a + off) xs = take (a + off) xs" by (simp add: slice_def take_add)
  moreover have "slice (a + off + length ys) (a + k) xs @ drop (a + k) xs = drop (a + off + length ys) xs"
    using assms by (intro slice_drop) simp
  ultimately show ?thesis by (simp add: blit_def)
qed

section \<open>Loops that update the first matching element\<close>

text \<open>The loop returns early after the update; \<open>None\<close> means it ran to the end without a match.\<close>

fun upd_first :: "('a \<Rightarrow> bool) \<Rightarrow> ('a \<Rightarrow> 'a) \<Rightarrow> 'a list \<Rightarrow> 'a list option" where
  "upd_first P f [] = None"
| "upd_first P f (x # xs) =
     (if P x then Some (f x # xs) else map_option ((#) x) (upd_first P f xs))"

lemma upd_first_None: "upd_first P f xs = None \<longleftrightarrow> (\<forall>x \<in> set xs. \<not> P x)"
  by (induction xs) auto

lemma upd_first_length: "upd_first P f xs = Some ys \<Longrightarrow> length ys = length xs"
  by (induction xs arbitrary: ys) (auto split: if_splits)

lemma upd_first_list_all:
  "upd_first P f xs = Some ys \<Longrightarrow> list_all Q xs \<Longrightarrow> (\<And>x. P x \<Longrightarrow> Q x \<Longrightarrow> Q (f x)) \<Longrightarrow> list_all Q ys"
  by (induction xs arbitrary: ys) (auto split: if_splits)

lemma upd_first_map:
  assumes "\<And>x. x \<in> set xs \<Longrightarrow> P x = P' (v x)"
    and "\<And>x. x \<in> set xs \<Longrightarrow> P x \<Longrightarrow> v (f x) = f' (v x)"
  shows "map_option (map v) (upd_first P f xs) = upd_first P' f' (map v xs)"
  using assms
proof (induction xs)
  case Nil
  then show ?case by simp
next
  case (Cons x xs)
  then have IH: "map_option (map v) (upd_first P f xs) = upd_first P' f' (map v xs)"
    by simp
  then show ?case using Cons.prems
    by (auto simp: option.map_comp comp_def simp flip: IH)
qed

section \<open>The ordered map of the Rust standard library\<close>

text \<open>
  A \<^verbatim>\<open>BTreeMap\<close> as its sequence of entries in ascending key order, which is what
  \<^verbatim>\<open>iter()\<close> yields. \<open>bt_insert\<close> replaces the value of an existing key; \<open>bt_modify\<close> is an update
  through \<^verbatim>\<open>get_mut\<close>, a no-op on an absent key.
\<close>

type_synonym ('k, 'v) btree = "('k \<times> 'v) list"

definition bt_get :: "('k, 'v) btree \<Rightarrow> 'k \<Rightarrow> 'v option" where
  "bt_get m k = map_of m k"

fun bt_insert :: "'k::linorder \<Rightarrow> 'v \<Rightarrow> ('k, 'v) btree \<Rightarrow> ('k, 'v) btree" where
  "bt_insert k v [] = [(k, v)]"
| "bt_insert k v ((k', v') # m) =
     (if k < k' then (k, v) # (k', v') # m
      else if k = k' then (k, v) # m
      else (k', v') # bt_insert k v m)"

definition bt_remove :: "'k \<Rightarrow> ('k, 'v) btree \<Rightarrow> ('k, 'v) btree" where
  "bt_remove k m = filter (\<lambda>e. fst e \<noteq> k) m"

definition bt_modify :: "'k \<Rightarrow> ('v \<Rightarrow> 'v) \<Rightarrow> ('k, 'v) btree \<Rightarrow> ('k, 'v) btree" where
  "bt_modify k f m = map (\<lambda>e. if fst e = k then (fst e, f (snd e)) else e) m"

definition bt_sorted :: "('k::linorder, 'v) btree \<Rightarrow> bool" where
  "bt_sorted m \<longleftrightarrow> sorted_wrt (<) (map fst m)"

lemma bt_get_empty [simp, btree_simps]: "bt_get [] = Map.empty"
  by (simp add: fun_eq_iff bt_get_def)

lemma bt_get_single [simp, btree_simps]: "bt_get [(k, v)] = [k \<mapsto> v]"
  by (simp add: fun_eq_iff bt_get_def)

lemma bt_get_insert [simp, btree_simps]: "bt_get (bt_insert k v m) = (bt_get m)(k \<mapsto> v)"
  by (induction m) (auto simp: bt_get_def fun_eq_iff)

lemma bt_get_remove [simp, btree_simps]: "bt_get (bt_remove k m) = (bt_get m)(k := None)"
  by (induction m) (auto simp: bt_get_def bt_remove_def fun_eq_iff)

lemma bt_get_modify [simp, btree_simps]:
  "bt_get (bt_modify k f m) = (bt_get m)(k := map_option f (bt_get m k))"
  by (induction m) (auto simp: bt_get_def bt_modify_def fun_eq_iff)

lemma set_bt_insert: "set (bt_insert k v m) \<subseteq> insert (k, v) (set m)"
  by (induction m) (auto split: if_splits)

lemma bt_sorted_empty [simp]: "bt_sorted []"
  by (simp add: bt_sorted_def)

lemma bt_sorted_insert [simp]: "bt_sorted m \<Longrightarrow> bt_sorted (bt_insert k v m)"
proof (induction m)
  case Nil
  then show ?case by (simp add: bt_sorted_def)
next
  case (Cons e m)
  obtain k' v' where e: "e = (k', v')" by (cases e)
  from Cons.prems have tail: "bt_sorted m" and low: "\<forall>x \<in> set m. k' < fst x"
    by (auto simp: bt_sorted_def e)
  have "\<forall>x \<in> set (bt_insert k v m). k' < fst x" if "k' < k"
    using set_bt_insert [of k v m] low that by auto
  then show ?case
    using Cons.IH [OF tail] Cons.prems low
    by (fastforce simp: bt_sorted_def e)
qed

lemma bt_sorted_remove [simp]: "bt_sorted m \<Longrightarrow> bt_sorted (bt_remove k m)"
  by (induction m) (auto simp: bt_sorted_def bt_remove_def)

lemma bt_sorted_modify [simp]: "bt_sorted m \<Longrightarrow> bt_sorted (bt_modify k f m)"
proof -
  have "map fst (bt_modify k f m) = map fst m"
    by (simp add: bt_modify_def comp_def)
  then show "bt_sorted m \<Longrightarrow> bt_sorted (bt_modify k f m)"
    by (simp add: bt_sorted_def)
qed

lemma bt_get_Some_iff: "bt_sorted m \<Longrightarrow> bt_get m k = Some v \<longleftrightarrow> (k, v) \<in> set m"
proof -
  assume "bt_sorted m"
  then have "distinct (map fst m)"
    by (simp add: bt_sorted_def strict_sorted_iff)
  then show ?thesis by (simp add: bt_get_def map_of_eq_Some_iff)
qed

text \<open>The contract of the map, as its clients (process table, endpoint table, ELF cache) rely on it.\<close>

locale key_map =
  fixes empty_map :: "'m"
    and get :: "'m \<Rightarrow> 'k \<Rightarrow> 'v option"
    and insert_key :: "'k \<Rightarrow> 'v \<Rightarrow> 'm \<Rightarrow> 'm"
    and remove_key :: "'k \<Rightarrow> 'm \<Rightarrow> 'm"
    and modify_key :: "'k \<Rightarrow> ('v \<Rightarrow> 'v) \<Rightarrow> 'm \<Rightarrow> 'm"
    and iter :: "'m \<Rightarrow> ('k \<times> 'v) list"
    and invar :: "'m \<Rightarrow> bool"
  assumes get_empty: "get empty_map = Map.empty"
    and get_insert: "invar m \<Longrightarrow> get (insert_key k v m) = (get m)(k \<mapsto> v)"
    and get_remove: "invar m \<Longrightarrow> get (remove_key k m) = (get m)(k := None)"
    and get_modify: "invar m \<Longrightarrow> get (modify_key k f m) = (get m)(k := map_option f (get m k))"
    and iter_get: "invar m \<Longrightarrow> (k, v) \<in> set (iter m) \<longleftrightarrow> get m k = Some v"
    and invar_empty: "invar empty_map"
    and invar_insert: "invar m \<Longrightarrow> invar (insert_key k v m)"
    and invar_remove: "invar m \<Longrightarrow> invar (remove_key k m)"
    and invar_modify: "invar m \<Longrightarrow> invar (modify_key k f m)"
begin

lemma dom_insert: "invar m \<Longrightarrow> dom (get (insert_key k v m)) = insert k (dom (get m))"
  by (simp add: get_insert)

lemma dom_remove: "invar m \<Longrightarrow> dom (get (remove_key k m)) = dom (get m) - {k}"
  by (auto simp: get_remove)

lemma dom_modify: "invar m \<Longrightarrow> dom (get (modify_key k f m)) = dom (get m)"
  by (auto simp: get_modify dom_def split: if_splits)

lemma find_value_None:
  "invar m \<Longrightarrow> find (\<lambda>e. P (snd e)) (iter m) = None \<longleftrightarrow> (\<forall>k v. get m k = Some v \<longrightarrow> \<not> P v)"
  by (auto simp: find_None_iff iter_get [symmetric])

lemma find_value_Some:
  assumes "invar m" and "find (\<lambda>e. P (snd e)) (iter m) = Some e"
  shows "get m (fst e) = Some (snd e) \<and> P (snd e)"
proof -
  from assms(2) have "e \<in> set (iter m)" and "P (snd e)"
    by (auto simp: find_Some_iff)
  then show ?thesis
    using iter_get [OF assms(1), of "fst e" "snd e"] by simp
qed

end

interpretation bt: key_map "[]" bt_get bt_insert bt_remove bt_modify "\<lambda>m. m" bt_sorted
  by unfold_locales (auto simp: bt_get_Some_iff)

end
