(* ===== verification/Abi.thy ===== *)
theory Abi
  imports Prelude
begin

text \<open>
  The binary interface between kernel and user space (\<^verbatim>\<open>kernel/mene-abi/src/lib.rs\<close>): the
  constants of the block, file-system and control protocols, the native system-call numbers and
  the endpoint handles.
\<close>

section \<open>Protocol constants\<close>

definition BLK_REQ_PING :: u16 where [simp]: "BLK_REQ_PING = 1"
definition BLK_REQ_GET_INFO :: u16 where [simp]: "BLK_REQ_GET_INFO = 2"
definition BLK_REQ_READ :: u16 where [simp]: "BLK_REQ_READ = 3"
definition BLK_REQ_WRITE :: u16 where [simp]: "BLK_REQ_WRITE = 4"
definition BLK_REQ_FLUSH :: u16 where [simp]: "BLK_REQ_FLUSH = 5"
definition RW_HDR_LEN :: nat where [simp]: "RW_HDR_LEN = 14"
definition TAG_LEN :: nat where [simp]: "TAG_LEN = 4"
definition TAGGED_HDR_LEN :: nat where [simp]: "TAGGED_HDR_LEN = 2 + TAG_LEN"
definition RW_TAGGED_HDR_LEN :: nat where [simp]: "RW_TAGGED_HDR_LEN = TAGGED_HDR_LEN + 8 + 4"
definition MAX_IO_BYTES :: nat where [simp]: "MAX_IO_BYTES = 4096"

definition FLAG_REQID :: u16 where [simp]: "FLAG_REQID = 0x8000"
definition FS_REQ_PING :: u16 where [simp]: "FS_REQ_PING = 0"
definition FS_REQ_WRITE :: u16 where [simp]: "FS_REQ_WRITE = 1"
definition FS_REQ_READ :: u16 where [simp]: "FS_REQ_READ = 2"
definition FS_REQ_DELETE :: u16 where [simp]: "FS_REQ_DELETE = 3"
definition FS_REQ_EXEC :: u16 where [simp]: "FS_REQ_EXEC = 4"
definition MAX_PATH :: nat where [simp]: "MAX_PATH = 128"
definition MAX_DATA :: nat where [simp]: "MAX_DATA = 512"
definition WRITE_HDR_LEN :: nat where [simp]: "WRITE_HDR_LEN = 8"
definition PATH_HDR_LEN :: nat where [simp]: "PATH_HDR_LEN = 4"
definition WRITE_HDR_LEN_V2 :: nat where [simp]: "WRITE_HDR_LEN_V2 = 12"
definition PATH_HDR_LEN_V2 :: nat where [simp]: "PATH_HDR_LEN_V2 = 8"
definition RESP_REQID_LEN :: nat where [simp]: "RESP_REQID_LEN = 4"

definition REQ_REGISTER_SERVICE :: u16 where [simp]: "REQ_REGISTER_SERVICE = 1"
definition REQ_LOOKUP_SERVICE :: u16 where [simp]: "REQ_LOOKUP_SERVICE = 2"
definition REQ_DEVICE_QUERY :: u16 where [simp]: "REQ_DEVICE_QUERY = 3"
definition MAX_SERVICE_NAME :: nat where [simp]: "MAX_SERVICE_NAME = 32"
definition CTL_HDR_LEN :: nat where [simp]: "CTL_HDR_LEN = 4"

section \<open>Native system calls\<close>

datatype MeneSysno =
    Spawn | IpcSend | IpcRecv | ReadFile | MapDevice | VmmMapPageTo | DmaAlloc | PciCfgRead
  | DmaDealloc | VirtToPhys | SleepMs | SystemOff | GetBootCfg | SpawnElf | MmapAnon
  | IpcRecvTimeout | UptimeMs

text \<open>The discriminants: \<^verbatim>\<open>MeneSysno::X as usize\<close>.\<close>

primrec sysno_val :: "MeneSysno \<Rightarrow> usize" where
  "sysno_val Spawn = 500"
| "sysno_val IpcSend = 501"
| "sysno_val IpcRecv = 502"
| "sysno_val ReadFile = 503"
| "sysno_val MapDevice = 504"
| "sysno_val VmmMapPageTo = 505"
| "sysno_val DmaAlloc = 506"
| "sysno_val PciCfgRead = 507"
| "sysno_val DmaDealloc = 508"
| "sysno_val VirtToPhys = 509"
| "sysno_val SleepMs = 510"
| "sysno_val SystemOff = 511"
| "sysno_val GetBootCfg = 512"
| "sysno_val SpawnElf = 513"
| "sysno_val MmapAnon = 514"
| "sysno_val IpcRecvTimeout = 515"
| "sysno_val UptimeMs = 516"

definition sysno_try_from :: "usize \<Rightarrow> MeneSysno option" where
  "sysno_try_from val =
     (if val = 500 then Some Spawn
      else if val = 501 then Some IpcSend
      else if val = 502 then Some IpcRecv
      else if val = 503 then Some ReadFile
      else if val = 504 then Some MapDevice
      else if val = 505 then Some VmmMapPageTo
      else if val = 506 then Some DmaAlloc
      else if val = 507 then Some PciCfgRead
      else if val = 508 then Some DmaDealloc
      else if val = 509 then Some VirtToPhys
      else if val = 510 then Some SleepMs
      else if val = 511 then Some SystemOff
      else if val = 512 then Some GetBootCfg
      else if val = 513 then Some SpawnElf
      else if val = 514 then Some MmapAnon
      else if val = 515 then Some IpcRecvTimeout
      else if val = 516 then Some UptimeMs
      else None)"

lemma sysno_try_from_val [simp]: "sysno_try_from (sysno_val s) = Some s"
  by (cases s) (simp_all add: sysno_try_from_def)

lemma sysno_try_from_Some: "sysno_try_from v = Some s \<Longrightarrow> v = sysno_val s"
  by (auto simp: sysno_try_from_def split: if_splits)

section \<open>Endpoint handles\<close>

datatype Handle =
    LocalEndpoint | SerialEndpoint | VmmEndpoint | VirtioBlkEndpoint | FsEndpoint | InitEndpoint
  | Dynamic usize

definition LOCAL_ENDPOINT :: usize where [simp]: "LOCAL_ENDPOINT = 1"
definition SERIAL_ENDPOINT :: usize where [simp]: "SERIAL_ENDPOINT = 2"
definition VMM_ENDPOINT :: usize where [simp]: "VMM_ENDPOINT = 3"
definition VIRTIO_BLK_ENDPOINT :: usize where [simp]: "VIRTIO_BLK_ENDPOINT = 4"
definition FS_ENDPOINT :: usize where [simp]: "FS_ENDPOINT = 5"
definition INIT_ENDPOINT :: usize where [simp]: "INIT_ENDPOINT = 6"

primrec to_usize :: "Handle \<Rightarrow> usize" where
  "to_usize LocalEndpoint = LOCAL_ENDPOINT"
| "to_usize SerialEndpoint = SERIAL_ENDPOINT"
| "to_usize VmmEndpoint = VMM_ENDPOINT"
| "to_usize VirtioBlkEndpoint = VIRTIO_BLK_ENDPOINT"
| "to_usize FsEndpoint = FS_ENDPOINT"
| "to_usize InitEndpoint = INIT_ENDPOINT"
| "to_usize (Dynamic v) = v"

definition from_usize :: "usize \<Rightarrow> Handle" where
  "from_usize val =
     (if val = LOCAL_ENDPOINT then LocalEndpoint
      else if val = SERIAL_ENDPOINT then SerialEndpoint
      else if val = VMM_ENDPOINT then VmmEndpoint
      else if val = VIRTIO_BLK_ENDPOINT then VirtioBlkEndpoint
      else if val = FS_ENDPOINT then FsEndpoint
      else if val = INIT_ENDPOINT then InitEndpoint
      else Dynamic val)"

text \<open>A handle is canonical when it is not a dynamic alias of a well-known endpoint.\<close>

definition canonical :: "Handle \<Rightarrow> bool" where
  "canonical h \<longleftrightarrow> (case h of Dynamic v \<Rightarrow> v \<notin> {1, 2, 3, 4, 5, 6} | _ \<Rightarrow> True)"

lemma to_from_usize [simp]: "to_usize (from_usize v) = v"
  by (simp add: from_usize_def)

lemma from_to_usize: "from_usize (to_usize h) = h \<longleftrightarrow> canonical h"
  by (cases h) (auto simp: from_usize_def canonical_def)

section \<open>Properties\<close>

text \<open>
  The system-call numbers decode without ambiguity: a number is accepted exactly when it is
  the discriminant of the call it decodes to, and every call is reached by its own number.
\<close>

theorem sysno_codec:
  "sysno_try_from v = Some s \<longleftrightarrow> v = sysno_val s"
  using sysno_try_from_Some by auto

text \<open>
  Handle encoding: decoding then encoding is the identity on every machine word; encoding
  then decoding returns the handle itself exactly for the canonical handles, so a
  \<^verbatim>\<open>Dynamic\<close> handle with a value from 1 to 6 is turned into the well-known endpoint.
\<close>

theorem handle_codec:
  "to_usize (from_usize v) = v \<and> (from_usize (to_usize h) = h \<longleftrightarrow> canonical h)"
  by (simp add: from_to_usize)

end
