(* ===== verification/Scheduler.thy ===== *)
theory Scheduler
  imports Prelude
begin

text \<open>
  The dependency graph of the kernel's service scheduler
  (\<^verbatim>\<open>kernel/mene-kernel/src/service/scheduler.rs\<close>): nodes with dependencies and a state, the query
  for services whose dependencies all run, and the state marks. The use the kernel intends (start
  only services the query returned, then mark them running or failed) is the step relation
  \<open>sched_step\<close>; order, progress, deadlock and termination of a boot are proved over it.
\<close>

section \<open>Nodes and graphs\<close>

datatype ServiceState = Pending | Starting | Running | Failed

record ServiceNode =
  node_id :: nat
  node_name :: bytes
  node_name_len :: nat
  deps :: "nat list"
  node_state :: ServiceState

definition node_new :: "nat \<Rightarrow> bytes \<Rightarrow> ServiceNode" where
  "node_new i n =
     (let len = min (length n) 32
      in \<lparr>node_id = i, node_name = blit (replicate 32 0) 0 (take len n), node_name_len = len,
          deps = [], node_state = Pending\<rparr>)"

definition node_name_bytes :: "ServiceNode \<Rightarrow> bytes" where
  "node_name_bytes nd = take (node_name_len nd) (node_name nd)"

record DependencyGraph =
  nodes :: "ServiceNode list"

definition graph_new :: DependencyGraph where
  "graph_new = \<lparr>nodes = []\<rparr>"

definition add_service :: "bytes \<Rightarrow> DependencyGraph \<Rightarrow> nat \<times> DependencyGraph" where
  "add_service n g = (let i = length (nodes g) in (i, g\<lparr>nodes := nodes g @ [node_new i n]\<rparr>))"

definition add_dependency :: "nat \<Rightarrow> nat \<Rightarrow> DependencyGraph \<Rightarrow> DependencyGraph" where
  "add_dependency service_id dep_id g =
     (if service_id < length (nodes g) \<and> dep_id < length (nodes g)
      then g\<lparr>nodes := (nodes g)[service_id :=
             (nodes g ! service_id)\<lparr>deps := deps (nodes g ! service_id) @ [dep_id]\<rparr>]\<rparr>
      else g)"

definition dep_running :: "DependencyGraph \<Rightarrow> nat \<Rightarrow> bool" where
  "dep_running g d \<longleftrightarrow> (if d < length (nodes g) then node_state (nodes g ! d) = Running else False)"

definition get_ready_services :: "DependencyGraph \<Rightarrow> nat list" where
  "get_ready_services g =
     map node_id (filter (\<lambda>nd. node_state nd = Pending \<and> list_all (dep_running g) (deps nd)) (nodes g))"

definition set_state :: "ServiceState \<Rightarrow> nat \<Rightarrow> DependencyGraph \<Rightarrow> DependencyGraph" where
  "set_state st i g =
     (if i < length (nodes g) then g\<lparr>nodes := (nodes g)[i := (nodes g ! i)\<lparr>node_state := st\<rparr>]\<rparr> else g)"

definition mark_starting :: "nat \<Rightarrow> DependencyGraph \<Rightarrow> DependencyGraph" where
  "mark_starting = set_state Starting"

definition mark_running :: "nat \<Rightarrow> DependencyGraph \<Rightarrow> DependencyGraph" where
  "mark_running = set_state Running"

definition mark_failed :: "nat \<Rightarrow> DependencyGraph \<Rightarrow> DependencyGraph" where
  "mark_failed = set_state Failed"

definition all_completed :: "DependencyGraph \<Rightarrow> bool" where
  "all_completed g \<longleftrightarrow> list_all (\<lambda>nd. node_state nd = Running \<or> node_state nd = Failed) (nodes g)"

lemmas mark_defs = mark_starting_def mark_running_def mark_failed_def

section \<open>Well-formed graphs\<close>

abbreviation size_g :: "DependencyGraph \<Rightarrow> nat" where
  "size_g g \<equiv> length (nodes g)"

abbreviation st :: "DependencyGraph \<Rightarrow> nat \<Rightarrow> ServiceState" where
  "st g i \<equiv> node_state (nodes g ! i)"

abbreviation dp :: "DependencyGraph \<Rightarrow> nat \<Rightarrow> nat set" where
  "dp g i \<equiv> set (deps (nodes g ! i))"

definition node_ok :: "nat \<Rightarrow> nat \<Rightarrow> ServiceNode \<Rightarrow> bool" where
  "node_ok n i nd \<longleftrightarrow> node_id nd = i \<and> (\<forall>d \<in> set (deps nd). d < n)
     \<and> length (node_name nd) = 32 \<and> node_name_len nd \<le> 32"

definition graph_ok :: "DependencyGraph \<Rightarrow> bool" where
  "graph_ok g \<longleftrightarrow> (\<forall>i < size_g g. node_ok (size_g g) i (nodes g ! i))"

text \<open>Graphs the interface can produce, in any order of calls.\<close>

inductive graph_reachable :: "DependencyGraph \<Rightarrow> bool" where
  graph_reach_new: "graph_reachable graph_new"
| graph_reach_service: "graph_reachable g \<Longrightarrow> graph_reachable (snd (add_service n g))"
| graph_reach_dependency: "graph_reachable g \<Longrightarrow> graph_reachable (add_dependency i d g)"
| graph_reach_mark: "graph_reachable g \<Longrightarrow> graph_reachable (set_state s i g)"

lemma graph_ok_new: "graph_ok graph_new"
  by (simp add: graph_ok_def graph_new_def)

lemma graph_ok_add_service: "graph_ok g \<Longrightarrow> graph_ok (snd (add_service n g))"
proof -
  assume "graph_ok g"
  moreover have "node_ok (Suc (size_g g)) (size_g g) (node_new (size_g g) n)"
    by (simp add: node_ok_def node_new_def slice_simps Let_def)
  ultimately show ?thesis
    by (auto simp: graph_ok_def add_service_def Let_def nth_append node_ok_def less_Suc_eq)
qed

lemma graph_ok_add_dependency: "graph_ok g \<Longrightarrow> graph_ok (add_dependency i d g)"
  by (auto simp: graph_ok_def add_dependency_def node_ok_def nth_list_update)

lemma graph_ok_set_state: "graph_ok g \<Longrightarrow> graph_ok (set_state s i g)"
  by (auto simp: graph_ok_def set_state_def node_ok_def nth_list_update)

lemma graph_reachable_ok: "graph_reachable g \<Longrightarrow> graph_ok g"
  by (induction rule: graph_reachable.induct)
     (simp_all add: graph_ok_new graph_ok_add_service graph_ok_add_dependency graph_ok_set_state)

text \<open>Frame facts of the marks.\<close>

lemma size_set_state [simp]: "size_g (set_state s i g) = size_g g"
  by (simp add: set_state_def)

lemma st_set_state [simp]:
  "j < size_g g \<Longrightarrow> st (set_state s i g) j = (if i = j then s else st g j)"
  by (auto simp: set_state_def nth_list_update)

lemma dp_set_state [simp]: "j < size_g g \<Longrightarrow> dp (set_state s i g) j = dp g j"
  by (auto simp: set_state_def nth_list_update)

lemma ready_as_filter:
  assumes "graph_ok g"
  shows "get_ready_services g =
    filter (\<lambda>i. st g i = Pending \<and> (\<forall>d \<in> dp g i. st g d = Running)) [0..<size_g g]"
proof -
  have running: "list_all (dep_running g) (deps (nodes g ! i)) \<longleftrightarrow> (\<forall>d \<in> dp g i. st g d = Running)"
    if "i < size_g g" for i
    using assms that by (auto simp: graph_ok_def node_ok_def dep_running_def list_all_iff)
  let ?P = "\<lambda>nd. node_state nd = Pending \<and> list_all (dep_running g) (deps nd)"
  have "filter ?P (nodes g) = map ((!) (nodes g)) (filter (?P \<circ> (!) (nodes g)) [0..<size_g g])"
    by (metis filter_map map_nth)
  then have "get_ready_services g = map (\<lambda>i. node_id (nodes g ! i)) (filter (?P \<circ> (!) (nodes g)) [0..<size_g g])"
    by (simp add: get_ready_services_def)
  also have "\<dots> = map (\<lambda>i. i) (filter (?P \<circ> (!) (nodes g)) [0..<size_g g])"
    using assms by (intro map_cong) (auto simp: graph_ok_def node_ok_def)
  also have "\<dots> = filter (\<lambda>i. st g i = Pending \<and> (\<forall>d \<in> dp g i. st g d = Running)) [0..<size_g g]"
    by (auto intro!: filter_cong simp: running)
  finally show ?thesis .
qed

lemma ready_iff:
  "graph_ok g \<Longrightarrow> i \<in> set (get_ready_services g) \<longleftrightarrow>
     i < size_g g \<and> st g i = Pending \<and> (\<forall>d \<in> dp g i. st g d = Running)"
  by (auto simp: ready_as_filter)

section \<open>Booting over the graph\<close>

inductive sched_step :: "DependencyGraph \<Rightarrow> DependencyGraph \<Rightarrow> bool" where
  step_start: "i \<in> set (get_ready_services g) \<Longrightarrow> sched_step g (mark_starting i g)"
| step_up: "i < size_g g \<Longrightarrow> st g i = Starting \<Longrightarrow> sched_step g (mark_running i g)"
| step_down: "i < size_g g \<Longrightarrow> st g i = Starting \<Longrightarrow> sched_step g (mark_failed i g)"

inductive_cases sched_stepE: "sched_step g g'"

definition all_pending :: "DependencyGraph \<Rightarrow> bool" where
  "all_pending g \<longleftrightarrow> (\<forall>i < size_g g. st g i = Pending)"

definition in_order :: "DependencyGraph \<Rightarrow> bool" where
  "in_order g \<longleftrightarrow> (\<forall>i < size_g g. st g i \<noteq> Pending \<longrightarrow> (\<forall>d \<in> dp g i. st g d = Running))"

definition acyclic_g :: "DependencyGraph \<Rightarrow> bool" where
  "acyclic_g g \<longleftrightarrow> (\<exists>rank :: nat \<Rightarrow> nat. \<forall>i < size_g g. \<forall>d \<in> dp g i. rank d < rank i)"

lemma graph_ok_dep: "graph_ok g \<Longrightarrow> i < size_g g \<Longrightarrow> d \<in> dp g i \<Longrightarrow> d < size_g g"
  by (auto simp: graph_ok_def node_ok_def)

lemma sched_step_frame:
  assumes "sched_step g g'" and "graph_ok g"
  shows "graph_ok g' \<and> size_g g' = size_g g \<and> (\<forall>j < size_g g. dp g' j = dp g j)"
  using assms by (auto elim!: sched_stepE simp: mark_defs graph_ok_set_state)

lemma in_order_set_state:
  assumes ok: "graph_ok g" "in_order g" and own: "\<forall>d \<in> dp g i. st g d = Running"
    and users: "s = Running \<or> st g i \<noteq> Running"
  shows "in_order (set_state s i g)"
  unfolding in_order_def
proof (intro allI impI ballI)
  fix j d
  assume j: "j < size_g (set_state s i g)" and np: "st (set_state s i g) j \<noteq> Pending"
    and d: "d \<in> dp (set_state s i g) j"
  from j have j': "j < size_g g" by simp
  from d j' have d': "d \<in> dp g j" by simp
  have dn: "d < size_g g" by (rule graph_ok_dep [OF ok(1) j' d'])
  have run: "st g d = Running"
  proof (cases "i = j")
    case True
    with own d' show ?thesis by blast
  next
    case False
    with np j' have "st g j \<noteq> Pending" by simp
    with ok(2) j' d' show ?thesis by (auto simp: in_order_def)
  qed
  with users dn show "st (set_state s i g) d = Running" by auto
qed

lemma sched_step_order:
  assumes "sched_step g g'" and "graph_ok g" and "in_order g"
  shows "in_order g'"
  using assms(1)
proof cases
  case (step_start i)
  then show ?thesis using assms(2,3)
    by (simp add: ready_iff mark_defs in_order_set_state)
next
  case (step_up i)
  then have "\<forall>d \<in> dp g i. st g d = Running" using assms(3) by (simp add: in_order_def)
  with step_up assms(2,3) show ?thesis by (simp add: mark_defs in_order_set_state)
next
  case (step_down i)
  then have "\<forall>d \<in> dp g i. st g d = Running" using assms(3) by (simp add: in_order_def)
  with step_down assms(2,3) show ?thesis by (simp add: mark_defs in_order_set_state)
qed

lemma boot_invariant:
  assumes "sched_step\<^sup>*\<^sup>* g g'" and "graph_ok g" and "in_order g"
  shows "graph_ok g' \<and> in_order g' \<and> size_g g' = size_g g \<and> (\<forall>j < size_g g. dp g' j = dp g j)"
  using assms
proof (induction rule: rtranclp_induct)
  case base
  then show ?case by simp
next
  case (step g1 g2)
  then show ?case using sched_step_frame [of g1 g2] sched_step_order [of g1 g2] by auto
qed

lemma all_pending_in_order: "all_pending g \<Longrightarrow> in_order g"
  by (simp add: all_pending_def in_order_def)

subsection \<open>Termination: every service changes state at most twice\<close>

definition work :: "ServiceNode \<Rightarrow> nat" where
  "work nd = (case node_state nd of Pending \<Rightarrow> 2 | Starting \<Rightarrow> 1 | _ \<Rightarrow> 0)"

definition work_g :: "DependencyGraph \<Rightarrow> nat" where
  "work_g g = sum_list (map work (nodes g))"

lemma work_set_state:
  "i < size_g g \<Longrightarrow> work_g (set_state s i g) + work (nodes g ! i) = work_g g + work ((nodes g ! i)\<lparr>node_state := s\<rparr>)"
proof -
  assume i: "i < size_g g"
  have "sum_list (map work (nodes g)) = work (nodes g ! i) + sum_list (map work (take i (nodes g) @ drop (Suc i) (nodes g)))"
    by (subst id_take_nth_drop [OF i]) simp
  moreover have "sum_list (map work ((nodes g)[i := (nodes g ! i)\<lparr>node_state := s\<rparr>]))
      = work ((nodes g ! i)\<lparr>node_state := s\<rparr>) + sum_list (map work (take i (nodes g) @ drop (Suc i) (nodes g)))"
    by (simp add: upd_conv_take_nth_drop [OF i])
  ultimately show ?thesis using i by (simp add: work_g_def set_state_def)
qed

lemma sched_step_work: "sched_step g g' \<Longrightarrow> graph_ok g \<Longrightarrow> work_g g' < work_g g"
proof (erule sched_stepE)
  fix i assume "graph_ok g" "g' = mark_starting i g" "i \<in> set (get_ready_services g)"
  then show "work_g g' < work_g g"
    using work_set_state [of i g Starting] by (simp add: ready_iff mark_defs work_def)
next
  fix i assume "g' = mark_running i g" "i < size_g g" "st g i = Starting"
  then show "work_g g' < work_g g"
    using work_set_state [of i g Running] by (simp add: mark_defs work_def)
next
  fix i assume "g' = mark_failed i g" "i < size_g g" "st g i = Starting"
  then show "work_g g' < work_g g"
    using work_set_state [of i g Failed] by (simp add: mark_defs work_def)
qed

lemma work_g_bound: "work_g g \<le> 2 * size_g g"
proof -
  have "sum_list (map work ns) \<le> 2 * length ns" for ns
    by (induction ns) (auto simp: work_def split: ServiceState.split)
  then show ?thesis by (simp add: work_g_def)
qed

lemma boot_length: "(sched_step ^^ k) g g' \<Longrightarrow> graph_ok g \<Longrightarrow> k + work_g g' \<le> work_g g \<and> graph_ok g'"
proof (induction k arbitrary: g')
  case 0
  then show ?case by simp
next
  case (Suc k)
  then obtain g1 where "(sched_step ^^ k) g g1" and s: "sched_step g1 g'" by auto
  with Suc have "k + work_g g1 \<le> work_g g" and "graph_ok g1" by blast+
  with sched_step_work [OF s] sched_step_frame [OF s] show ?case by auto
qed

subsection \<open>Progress: a stuck boot is blamed on a failed service\<close>

inductive blocked_by_failure :: "DependencyGraph \<Rightarrow> nat \<Rightarrow> bool" for g where
  direct: "d \<in> dp g i \<Longrightarrow> st g d = Failed \<Longrightarrow> blocked_by_failure g i"
| indirect: "d \<in> dp g i \<Longrightarrow> blocked_by_failure g d \<Longrightarrow> blocked_by_failure g i"

lemma stuck_pending_blocked:
  assumes "graph_ok g" and "acyclic_g g" and stuck: "\<And>g'. \<not> sched_step g g'"
    and "i < size_g g" and "st g i = Pending"
  shows "blocked_by_failure g i"
proof -
  from assms(2) obtain rank :: "nat \<Rightarrow> nat" where rank: "\<And>i d. i < size_g g \<Longrightarrow> d \<in> dp g i \<Longrightarrow> rank d < rank i"
    by (auto simp: acyclic_g_def)
  from assms(4,5) show ?thesis
  proof (induction "rank i" arbitrary: i rule: less_induct)
    case less
    from stuck have "i \<notin> set (get_ready_services g)" by (blast intro: step_start)
    with less.prems obtain d where d: "d \<in> dp g i" "st g d \<noteq> Running"
      by (auto simp: ready_iff [OF assms(1)])
    then have dn: "d < size_g g" using assms(1) less.prems(1) by (blast intro: graph_ok_dep)
    with stuck have "st g d \<noteq> Starting" by (blast intro: step_up)
    with d(2) have "st g d = Failed \<or> st g d = Pending" by (cases "st g d") auto
    then show ?case
    proof
      assume "st g d = Failed"
      with d(1) show ?thesis by (rule direct)
    next
      assume "st g d = Pending"
      with less.hyps [OF rank [OF less.prems(1) d(1)] dn] have "blocked_by_failure g d" by blast
      with d(1) show ?thesis by (rule indirect)
    qed
  qed
qed

lemma stuck_states:
  assumes "graph_ok g" and stuck: "\<And>g'. \<not> sched_step g g'" and "i < size_g g"
  shows "st g i \<noteq> Starting"
  using assms by (blast intro: step_up)

lemma acyclic_boot:
  "\<forall>j < size_g g. dp g' j = dp g j \<Longrightarrow> size_g g' = size_g g \<Longrightarrow> acyclic_g g \<Longrightarrow> acyclic_g g'"
  by (simp add: acyclic_g_def)

lemma blocked_has_failure:
  "blocked_by_failure g i \<Longrightarrow> graph_ok g \<Longrightarrow> i < size_g g \<Longrightarrow> \<exists>d < size_g g. st g d = Failed"
  by (induction rule: blocked_by_failure.induct) (auto dest: graph_ok_dep)

subsection \<open>Deadlock: a dependency cycle never starts\<close>

lemma cycle_stays_pending:
  assumes "sched_step\<^sup>*\<^sup>* g g'" and "graph_ok g" and "C \<subseteq> {..<size_g g}"
    and "\<And>i. i \<in> C \<Longrightarrow> st g i = Pending \<and> (\<exists>d \<in> dp g i. d \<in> C)"
  shows "\<forall>i \<in> C. st g' i = Pending"
proof -
  have "graph_ok g' \<and> size_g g' = size_g g \<and> (\<forall>j < size_g g. dp g' j = dp g j) \<and> (\<forall>i \<in> C. st g' i = Pending)"
    using assms(1)
  proof (induction rule: rtranclp_induct)
    case base
    then show ?case using assms(2,4) by simp
  next
    case (step g1 g2)
    then have inv: "graph_ok g1" "size_g g1 = size_g g" "\<forall>j < size_g g. dp g1 j = dp g j"
      "\<forall>i \<in> C. st g1 i = Pending" by blast+
    have low: "i < size_g g" if "i \<in> C" for i using assms(3) that by auto
    have "i \<notin> set (get_ready_services g1)" if i: "i \<in> C" for i
    proof -
      from assms(4) [OF i] obtain d where "d \<in> dp g i" "d \<in> C" by blast
      then have "d \<in> dp g1 i" "st g1 d \<noteq> Running" using inv(3,4) low [OF i] by auto
      then show ?thesis by (auto simp: ready_iff [OF inv(1)])
    qed
    moreover have "st g1 i \<noteq> Starting" if "i \<in> C" for i using inv(4) that by simp
    ultimately have "\<forall>i \<in> C. st g2 i = Pending"
      using step.hyps(2) inv low by (elim sched_stepE) (auto simp: mark_defs)
    then show ?case using inv sched_step_frame [OF step.hyps(2) inv(1)] by simp
  qed
  then show ?thesis by blast
qed

section \<open>Properties\<close>

text \<open>
  C19. The ready query is exact: on every graph the interface can build it returns, in ascending order and
  without repetition, precisely the identifiers of the pending services all of whose dependencies are running.
\<close>

theorem ready_exact:
  assumes "graph_reachable g"
  shows "get_ready_services g =
    filter (\<lambda>i. st g i = Pending \<and> (\<forall>d \<in> dp g i. st g d = Running)) [0..<size_g g]"
  by (rule ready_as_filter [OF graph_reachable_ok [OF assms]])

definition demo_graph :: DependencyGraph where
  "demo_graph = add_dependency 1 0 (snd (add_service (lit ''fs'') (snd (add_service (lit ''serial'') graph_new))))"

lemma demo_graph_reachable: "graph_reachable demo_graph"
  unfolding demo_graph_def by (intro graph_reachable.intros)

lemma demo_graph_nodes:
  "size_g demo_graph = 2" "st demo_graph 0 = Pending" "st demo_graph 1 = Pending"
  "dp demo_graph 0 = {}" "dp demo_graph 1 = {0}"
  "st demo_graph (Suc 0) = Pending" "dp demo_graph (Suc 0) = {0}"
  by (simp_all add: demo_graph_def add_dependency_def add_service_def graph_new_def node_new_def Let_def)

theorem ready_exact_witness: "get_ready_services demo_graph = [0]"
  using ready_exact [OF demo_graph_reachable]
  by (simp add: demo_graph_nodes upt_rec numeral_2_eq_2 [symmetric])

text \<open>
  C6. Safety of a boot: however starts, successes and failures interleave, a service that has been started
  (whatever became of it) has all its dependencies running.
\<close>

theorem boot_in_order:
  assumes "graph_reachable g" and "all_pending g" and "sched_step\<^sup>*\<^sup>* g g'"
    and "i < size_g g'" and "st g' i \<noteq> Pending" and "d \<in> dp g' i"
  shows "st g' d = Running"
  using boot_invariant [OF assms(3) graph_reachable_ok [OF assms(1)] all_pending_in_order [OF assms(2)]]
    assms(4-6)
  by (auto simp: in_order_def)

definition demo_booted :: DependencyGraph where
  "demo_booted = mark_starting 1 (mark_running 0 (mark_starting 0 demo_graph))"

lemma demo_boot_run: "sched_step\<^sup>*\<^sup>* demo_graph demo_booted"
proof -
  have ok: "graph_ok demo_graph" by (rule graph_reachable_ok [OF demo_graph_reachable])
  let ?g1 = "mark_starting 0 demo_graph" and ?g2 = "mark_running 0 (mark_starting 0 demo_graph)"
  have "sched_step demo_graph ?g1"
    by (rule step_start) (simp add: ready_iff [OF ok] demo_graph_nodes)
  moreover have "sched_step ?g1 ?g2"
    by (rule step_up) (simp_all add: mark_defs demo_graph_nodes)
  moreover have "sched_step ?g2 demo_booted"
    unfolding demo_booted_def
    by (rule step_start) (simp add: ready_iff mark_defs graph_ok_set_state ok demo_graph_nodes)
  ultimately show ?thesis by (meson converse_rtranclp_into_rtranclp rtranclp.rtrancl_refl)
qed

theorem boot_in_order_witness: "st demo_booted 0 = Running"
proof -
  have "all_pending demo_graph"
    by (auto simp: all_pending_def demo_graph_nodes less_Suc_eq numeral_2_eq_2)
  from boot_in_order [OF demo_graph_reachable this demo_boot_run, of 1 0] show ?thesis
    by (simp add: demo_booted_def mark_defs demo_graph_nodes)
qed

text \<open>
  C20. Progress of a boot: on an acyclic graph a boot that can take no further step has completed, except for
  pending services that depend, directly or through other services, on a service that failed. In
  particular, if nothing failed then every service is running.
\<close>

theorem boot_progress:
  assumes "graph_reachable g" and "all_pending g" and "acyclic_g g"
    and "sched_step\<^sup>*\<^sup>* g g'" and "\<And>g''. \<not> sched_step g' g''" and "i < size_g g'"
  shows "(st g' i = Running \<or> st g' i = Failed \<or> (st g' i = Pending \<and> blocked_by_failure g' i))
    \<and> ((\<forall>j < size_g g'. st g' j \<noteq> Failed) \<longrightarrow> st g' i = Running)"
proof -
  from boot_invariant [OF assms(4) graph_reachable_ok [OF assms(1)] all_pending_in_order [OF assms(2)]]
  have ok: "graph_ok g'" and acyc: "acyclic_g g'"
    using acyclic_boot [of g g'] assms(3) by blast+
  have "st g' i \<noteq> Starting" by (rule stuck_states [OF ok assms(5,6)])
  then have *: "st g' i = Running \<or> st g' i = Failed \<or> (st g' i = Pending \<and> blocked_by_failure g' i)"
    using stuck_pending_blocked [OF ok acyc assms(5,6)] by (cases "st g' i") auto
  then show ?thesis
    using blocked_has_failure [OF _ ok assms(6)] assms(6) by blast
qed

theorem boot_progress_witness: "st (mark_running 1 demo_booted) 1 = Running"
proof -
  have ok: "graph_ok demo_graph" by (rule graph_reachable_ok [OF demo_graph_reachable])
  let ?g = "mark_running 1 demo_booted"
  have pend: "all_pending demo_graph"
    by (auto simp: all_pending_def demo_graph_nodes less_Suc_eq numeral_2_eq_2)
  have acyc: "acyclic_g demo_graph"
    unfolding acyclic_g_def
    by (rule exI [of _ "\<lambda>i. i"]) (auto simp: demo_graph_nodes less_Suc_eq numeral_2_eq_2)
  have "sched_step demo_booted ?g"
    by (rule step_up) (simp_all add: demo_booted_def mark_defs demo_graph_nodes)
  with demo_boot_run have run: "sched_step\<^sup>*\<^sup>* demo_graph ?g" by (rule rtranclp.rtrancl_into_rtrancl)
  have sts: "size_g ?g = 2" "st ?g 0 = Running" "st ?g 1 = Running" "graph_ok ?g"
    by (simp_all add: demo_booted_def mark_defs demo_graph_nodes graph_ok_set_state ok)
  have stuck: "\<not> sched_step ?g g''" for g''
    using sts by (auto elim!: sched_stepE simp: ready_iff less_Suc_eq numeral_2_eq_2)
  from boot_progress [OF demo_graph_reachable pend acyc run stuck, of 1] sts show ?thesis by auto
qed

text \<open>
  C21. Termination of a boot: no run over a graph with \<open>n\<close> services has more than \<open>2 * n\<close> steps.
\<close>

theorem boot_terminates:
  assumes "graph_reachable g" and "(sched_step ^^ k) g g'"
  shows "k \<le> 2 * size_g g"
  using boot_length [OF assms(2) graph_reachable_ok [OF assms(1)]] work_g_bound [of g] by linarith

theorem boot_terminates_witness: "(1::nat) \<le> 2 * size_g demo_graph"
proof -
  have "sched_step demo_graph (mark_starting 0 demo_graph)"
    by (rule step_start) (simp add: ready_iff [OF graph_reachable_ok [OF demo_graph_reachable]] demo_graph_nodes)
  then have "(sched_step ^^ 1) demo_graph (mark_starting 0 demo_graph)" by (simp only: relpowp_1)
  from boot_terminates [OF demo_graph_reachable this] show ?thesis .
qed

text \<open>
  C39. A dependency cycle deadlocks silently: services each of which depends on another one of the same group
  stay pending in every continuation of the boot, so the boot never completes.
\<close>

theorem cyclic_boot_never_completes:
  assumes "graph_reachable g" and "C \<noteq> {}" and "C \<subseteq> {..<size_g g}"
    and "\<And>i. i \<in> C \<Longrightarrow> st g i = Pending \<and> (\<exists>d \<in> dp g i. d \<in> C)"
    and "sched_step\<^sup>*\<^sup>* g g'"
  shows "(\<forall>i \<in> C. st g' i = Pending) \<and> \<not> all_completed g'"
proof -
  have ok: "graph_ok g" by (rule graph_reachable_ok [OF assms(1)])
  have pend: "\<forall>i \<in> C. st g' i = Pending"
    by (rule cycle_stays_pending [OF assms(5) ok assms(3,4)])
  have "size_g g' = size_g g" using assms(5)
    by (induction rule: rtranclp_induct) (auto elim!: sched_stepE simp: mark_defs)
  moreover obtain i where "i \<in> C" using assms(2) by blast
  ultimately have "i < size_g g'" "st g' i = Pending" using assms(3) pend by auto
  then have "\<not> all_completed g'"
    unfolding all_completed_def list_all_length by auto
  with pend show ?thesis by blast
qed

theorem cyclic_boot_never_completes_witness:
  "\<not> all_completed (add_dependency 0 1 demo_graph)"
proof -
  let ?g = "add_dependency 0 1 demo_graph"
  have r: "graph_reachable ?g" by (intro graph_reachable.intros demo_graph_reachable)
  have "size_g ?g = 2" "st ?g 0 = Pending" "st ?g 1 = Pending" "dp ?g 0 = {1}" "dp ?g 1 = {0}"
    by (simp_all add: add_dependency_def demo_graph_def add_service_def graph_new_def node_new_def Let_def)
  then have "(\<forall>i \<in> {0, 1}. st ?g i = Pending) \<and> \<not> all_completed ?g"
    by (intro cyclic_boot_never_completes [OF r]) auto
  then show ?thesis by blast
qed

end
