(* ===== verification/Config.thy ===== *)
theory Config
  imports Prelude
begin

text \<open>
  The architecture configurations of \<^verbatim>\<open>kernel/mene-config/src\<close>: the address-space layout constants of the four
  supported targets, selected by the target architecture.
\<close>

record arch_config =
  KERNEL_STACK_SIZE :: usize
  USER_SPACE_BASE :: usize
  USER_SPACE_SIZE :: usize
  USER_STACK_TOP :: usize
  USER_STACK_SIZE :: usize
  USER_HEAP_BASE :: usize
  USER_HEAP_SIZE :: usize
  USER_HEAP_SIZE_MAX :: usize
  USER_INTERP_BASE :: usize
  SIGNAL_TRAMPOLINE :: usize

definition riscv64 :: arch_config where
  "riscv64 = \<lparr>KERNEL_STACK_SIZE = 0x40000, USER_SPACE_BASE = 0x1000, USER_SPACE_SIZE = 0x3ffffff000,
     USER_STACK_TOP = 0x400000000, USER_STACK_SIZE = 0x80000, USER_HEAP_BASE = 0x40000000,
     USER_HEAP_SIZE = 0x10000, USER_HEAP_SIZE_MAX = 0x20000000, USER_INTERP_BASE = 0x4000000,
     SIGNAL_TRAMPOLINE = 0x60001000\<rparr>"

definition loongarch64 :: arch_config where
  "loongarch64 = \<lparr>KERNEL_STACK_SIZE = 0x40000, USER_SPACE_BASE = 0x1000, USER_SPACE_SIZE = 0x3ffffff000,
     USER_STACK_TOP = 0x400000000, USER_STACK_SIZE = 0x80000, USER_HEAP_BASE = 0x40000000,
     USER_HEAP_SIZE = 0x10000, USER_HEAP_SIZE_MAX = 0x20000000, USER_INTERP_BASE = 0x4000000,
     SIGNAL_TRAMPOLINE = 0x60001000\<rparr>"

definition x86_64 :: arch_config where
  "x86_64 = \<lparr>KERNEL_STACK_SIZE = 0x40000, USER_SPACE_BASE = 0x1000, USER_SPACE_SIZE = 0x7ffffffff000,
     USER_STACK_TOP = 0x7fff00000000, USER_STACK_SIZE = 0x80000, USER_HEAP_BASE = 0x40000000,
     USER_HEAP_SIZE = 0x10000, USER_HEAP_SIZE_MAX = 0x20000000, USER_INTERP_BASE = 0x4000000,
     SIGNAL_TRAMPOLINE = 0x60001000\<rparr>"

definition aarch64 :: arch_config where
  "aarch64 = \<lparr>KERNEL_STACK_SIZE = 0x40000, USER_SPACE_BASE = 0x1000, USER_SPACE_SIZE = 0x7ffffffff000,
     USER_STACK_TOP = 0x7fff00000000, USER_STACK_SIZE = 0x80000, USER_HEAP_BASE = 0x40000000,
     USER_HEAP_SIZE = 0x10000, USER_HEAP_SIZE_MAX = 0x20000000, USER_INTERP_BASE = 0x4000000,
     SIGNAL_TRAMPOLINE = 0x60001000\<rparr>"

datatype target_arch = Riscv64 | Loongarch64 | X86_64 | Aarch64

primrec config_of :: "target_arch \<Rightarrow> arch_config" where
  "config_of Riscv64 = riscv64"
| "config_of Loongarch64 = loongarch64"
| "config_of X86_64 = x86_64"
| "config_of Aarch64 = aarch64"

lemmas config_defs = riscv64_def loongarch64_def x86_64_def aarch64_def

text \<open>
  The layout the memory code relies on: the regions of user space are ordered and disjoint, the user range does
  not wrap, and every bound is page aligned.
\<close>

definition layout_ok :: "arch_config \<Rightarrow> bool" where
  "layout_ok c \<longleftrightarrow>
     USER_SPACE_BASE c < USER_INTERP_BASE c \<and> USER_INTERP_BASE c < USER_HEAP_BASE c
     \<and> USER_HEAP_SIZE c \<le> USER_HEAP_SIZE_MAX c
     \<and> unat (USER_HEAP_BASE c) + unat (USER_HEAP_SIZE_MAX c) \<le> unat (SIGNAL_TRAMPOLINE c)
     \<and> SIGNAL_TRAMPOLINE c < USER_STACK_TOP c - USER_STACK_SIZE c
     \<and> USER_STACK_SIZE c < USER_STACK_TOP c
     \<and> unat (USER_STACK_TOP c) \<le> unat (USER_SPACE_BASE c) + unat (USER_SPACE_SIZE c)
     \<and> unat (USER_SPACE_BASE c) + unat (USER_SPACE_SIZE c) < 2 ^ 64
     \<and> list_all (\<lambda>w. unat w mod 4096 = 0)
         [USER_SPACE_BASE c, USER_SPACE_SIZE c, USER_STACK_TOP c, USER_STACK_SIZE c, USER_HEAP_BASE c,
          USER_HEAP_SIZE c, USER_HEAP_SIZE_MAX c, USER_INTERP_BASE c, SIGNAL_TRAMPOLINE c]"

lemma layout_ok_config: "layout_ok (config_of a)"
  by (cases a) (simp_all add: layout_ok_def config_defs)

section \<open>Properties\<close>

text \<open>
  On every supported architecture the user address space is laid out consistently: interpreter, heap up to its
  maximal size, signal trampoline and stack follow each other without overlap inside the user range, which does
  not wrap around, and all bounds are multiples of the page size.
\<close>

theorem layout_consistent: "layout_ok (config_of a)"
  by (rule layout_ok_config)

end
