(* ===== verification/Directory.thy ===== *)
theory Directory
  imports Prelude
begin

text \<open>
  Name directories. The kernel (\<^verbatim>\<open>mene-kernel/src/service/registry.rs\<close>) and the init process
  (\<^verbatim>\<open>apps/init/src/main.rs\<close>) both keep a fixed array of slots that maps service names to handles.
  This theory holds what they share: tables of optional slots with their lookup equations, and
  the locale \<open>name_directory\<close> with the contract a registry promises its clients. The two
  registries refine slot tables and interpret the locale in their own theories.
\<close>

section \<open>Slot tables\<close>

type_synonym ('k, 'v) slots = "('k \<times> 'v) option list"

definition slot_is :: "'k \<Rightarrow> ('k \<times> 'v) option \<Rightarrow> bool" where
  "slot_is k s \<longleftrightarrow> (case s of None \<Rightarrow> False | Some (k', _) \<Rightarrow> k' = k)"

fun slot_lookup :: "('k, 'v) slots \<Rightarrow> 'k \<Rightarrow> 'v option" where
  "slot_lookup [] k = None"
| "slot_lookup (None # xs) k = slot_lookup xs k"
| "slot_lookup (Some (k', v) # xs) k = (if k' = k then Some v else slot_lookup xs k)"

definition slot_put :: "'k \<Rightarrow> 'v \<Rightarrow> ('k, 'v) slots \<Rightarrow> ('k, 'v) slots option" where
  "slot_put k v xs =
     (case upd_first (slot_is k) (\<lambda>_. Some (k, v)) xs of
        Some ys \<Rightarrow> Some ys
      | None \<Rightarrow> upd_first (\<lambda>s. s = None) (\<lambda>_. Some (k, v)) xs)"

definition slot_del :: "'k \<Rightarrow> ('k, 'v) slots \<Rightarrow> ('k, 'v) slots option" where
  "slot_del k xs = upd_first (slot_is k) (\<lambda>_. None) xs"

fun slot_keys :: "('k, 'v) slots \<Rightarrow> 'k list" where
  "slot_keys [] = []"
| "slot_keys (None # xs) = slot_keys xs"
| "slot_keys (Some (k, v) # xs) = k # slot_keys xs"

lemma slot_is_simps [simp]: "\<not> slot_is k None" "slot_is k (Some (k', v)) \<longleftrightarrow> k' = k"
  by (simp_all add: slot_is_def)

lemma dom_slot_lookup [slot_simps]: "dom (slot_lookup xs) = set (slot_keys xs)"
proof (induction xs rule: slot_keys.induct)
  case (3 k v xs)
  have "dom (slot_lookup (Some (k, v) # xs)) = insert k (dom (slot_lookup xs))"
    by (auto simp: dom_def)
  with 3 show ?case by (metis list.simps(15) slot_keys.simps(3))
qed (auto simp: dom_def)

lemma upd_match_lookup:
  "upd_first (slot_is k) (\<lambda>_. Some (k, v)) xs = Some ys \<Longrightarrow>
     slot_lookup ys = (slot_lookup xs)(k \<mapsto> v) \<and> slot_keys ys = slot_keys xs"
proof (induction xs arbitrary: ys rule: slot_keys.induct)
  case (3 k' v' xs)
  then show ?case by (cases "k' = k") (auto simp: fun_eq_iff)
qed (auto simp: fun_eq_iff)

lemma no_match_iff: "(\<forall>s \<in> set xs. \<not> slot_is k s) \<longleftrightarrow> k \<notin> set (slot_keys xs)"
  by (induction xs rule: slot_keys.induct) auto

lemma upd_free_lookup:
  "upd_first (\<lambda>s. s = None) (\<lambda>_. Some (k, v)) xs = Some ys \<Longrightarrow> k \<notin> set (slot_keys xs) \<Longrightarrow>
     slot_lookup ys = (slot_lookup xs)(k \<mapsto> v)
     \<and> set (slot_keys ys) = insert k (set (slot_keys xs))
     \<and> (distinct (slot_keys xs) \<longrightarrow> distinct (slot_keys ys))"
proof (induction xs arbitrary: ys rule: slot_keys.induct)
  case (3 k' v' xs)
  then show ?case by (fastforce simp: fun_eq_iff)
qed (auto simp: fun_eq_iff)

lemma slot_lookup_None: "slot_lookup xs k = None \<longleftrightarrow> k \<notin> set (slot_keys xs)"
  by (metis dom_slot_lookup domIff)

lemma upd_del_lookup:
  "upd_first (slot_is k) (\<lambda>_. None) xs = Some ys \<Longrightarrow> distinct (slot_keys xs) \<Longrightarrow>
     slot_lookup ys = (slot_lookup xs)(k := None)
     \<and> set (slot_keys ys) = set (slot_keys xs) - {k} \<and> distinct (slot_keys ys)"
proof (induction xs arbitrary: ys rule: slot_keys.induct)
  case (3 k' v' xs)
  show ?case
  proof (cases "k' = k")
    case True
    with 3 show ?thesis by (auto simp: fun_eq_iff slot_lookup_None)
  next
    case False
    with 3 show ?thesis by (auto simp: fun_eq_iff)
  qed
qed (auto simp: fun_eq_iff)

lemma slot_keys_length: "length (slot_keys xs) = length (filter (\<lambda>s. s \<noteq> None) xs)"
  by (induction xs rule: slot_keys.induct) auto

lemma slot_keys_full: "length (slot_keys xs) = length xs \<longleftrightarrow> None \<notin> set xs"
proof -
  have "length (slot_keys xs) = length xs \<longleftrightarrow> filter (\<lambda>s. s \<noteq> None) xs = xs"
    unfolding slot_keys_length by (metis filter_id_conv length_filter_less nless_le)
  then show ?thesis unfolding filter_id_conv by metis
qed

subsection \<open>What a slot table promises\<close>

lemma slot_put_Some:
  assumes "slot_put k v xs = Some ys"
  shows "slot_lookup ys = (slot_lookup xs)(k \<mapsto> v)" and "length ys = length xs"
    and "distinct (slot_keys xs) \<Longrightarrow> distinct (slot_keys ys)"
    and "set (slot_keys ys) = insert k (set (slot_keys xs))"
proof -
  consider (old) "upd_first (slot_is k) (\<lambda>_. Some (k, v)) xs = Some ys"
    | (new) "upd_first (slot_is k) (\<lambda>_. Some (k, v)) xs = None"
        "upd_first (\<lambda>s. s = None) (\<lambda>_. Some (k, v)) xs = Some ys"
    using assms by (auto simp: slot_put_def split: option.splits)
  then have "slot_lookup ys = (slot_lookup xs)(k \<mapsto> v) \<and> length ys = length xs
    \<and> (distinct (slot_keys xs) \<longrightarrow> distinct (slot_keys ys))
    \<and> set (slot_keys ys) = insert k (set (slot_keys xs))"
  proof cases
    case old
    then have "k \<in> set (slot_keys xs)"
      using upd_first_None [of "slot_is k" "\<lambda>_. Some (k, v)" xs] no_match_iff [of xs k] by auto
    with old show ?thesis by (auto dest: upd_match_lookup upd_first_length)
  next
    case new
    then have "k \<notin> set (slot_keys xs)"
      by (simp add: upd_first_None no_match_iff)
    with new show ?thesis by (auto dest: upd_free_lookup upd_first_length)
  qed
  then show "slot_lookup ys = (slot_lookup xs)(k \<mapsto> v)" "length ys = length xs"
    "distinct (slot_keys xs) \<Longrightarrow> distinct (slot_keys ys)"
    "set (slot_keys ys) = insert k (set (slot_keys xs))" by auto
qed

lemma slot_put_None:
  "slot_put k v xs = None \<longleftrightarrow> slot_lookup xs k = None \<and> None \<notin> set xs"
proof -
  have "slot_put k v xs = None \<longleftrightarrow>
      upd_first (slot_is k) (\<lambda>_. Some (k, v)) xs = None
      \<and> upd_first (\<lambda>s. s = None) (\<lambda>_. Some (k, v)) xs = None"
    by (simp add: slot_put_def split: option.split)
  then show ?thesis unfolding upd_first_None no_match_iff slot_lookup_None by metis
qed

lemma slot_del_Some:
  assumes "slot_del k xs = Some ys" and "distinct (slot_keys xs)"
  shows "slot_lookup ys = (slot_lookup xs)(k := None)" and "length ys = length xs"
    and "distinct (slot_keys ys)"
  using upd_del_lookup [of k xs ys] upd_first_length [of "slot_is k" _ xs ys] assms
  by (auto simp: slot_del_def)

lemma slot_del_None: "slot_del k xs = None \<longleftrightarrow> slot_lookup xs k = None"
  by (simp add: slot_del_def upd_first_None no_match_iff slot_lookup_None)

lemma slot_lookup_replicate [simp]: "slot_lookup (replicate n None) = Map.empty"
  by (induction n) (auto simp: fun_eq_iff)

lemma slot_keys_replicate [simp]: "slot_keys (replicate n None) = []"
  by (induction n) auto

lemma card_slot_lookup:
  "distinct (slot_keys xs) \<Longrightarrow> card (dom (slot_lookup xs)) = length (slot_keys xs)"
  by (simp add: dom_slot_lookup distinct_card)

lemma card_slot_le: "distinct (slot_keys xs) \<Longrightarrow> card (dom (slot_lookup xs)) \<le> length xs"
  by (simp add: card_slot_lookup slot_keys_length)

lemma slots_full_iff:
  "distinct (slot_keys xs) \<Longrightarrow> None \<notin> set xs \<longleftrightarrow> card (dom (slot_lookup xs)) = length xs"
  by (simp add: card_slot_lookup slot_keys_full)

section \<open>The directory contract\<close>

text \<open>A client that registers several services in turn stops at the first refusal.\<close>

fun register_all ::
  "('d \<Rightarrow> bytes \<Rightarrow> usize \<Rightarrow> usize \<Rightarrow> 'd option) \<Rightarrow> 'd \<Rightarrow> (bytes \<times> usize \<times> usize) list \<Rightarrow> 'd option" where
  "register_all reg d [] = Some d"
| "register_all reg d ((n, p, h) # rs) =
     (case reg d n p h of None \<Rightarrow> None | Some d' \<Rightarrow> register_all reg d' rs)"

locale name_directory =
  fixes empty_dir :: "'d"
    and lookup :: "'d \<Rightarrow> bytes \<Rightarrow> usize option"
    and register :: "'d \<Rightarrow> bytes \<Rightarrow> usize \<Rightarrow> usize \<Rightarrow> 'd option"
    and invar :: "'d \<Rightarrow> bool"
    and capacity :: nat
    and max_name :: nat
  assumes lookup_empty: "lookup empty_dir = Map.empty"
    and invar_empty: "invar empty_dir"
    and register_ok: "invar d \<Longrightarrow> register d n p h = Some d' \<Longrightarrow>
          invar d' \<and> lookup d' = (lookup d)(n \<mapsto> h)"
    and register_refused: "invar d \<Longrightarrow> register d n p h = None \<longleftrightarrow>
          n = [] \<or> max_name < length n \<or> h = 0
          \<or> (lookup d n = None \<and> card (dom (lookup d)) = capacity)"
    and finite_names: "invar d \<Longrightarrow> finite (dom (lookup d))"
    and within_capacity: "invar d \<Longrightarrow> card (dom (lookup d)) \<le> capacity"
begin

definition valid_entry :: "bytes \<times> usize \<times> usize \<Rightarrow> bool" where
  "valid_entry r \<longleftrightarrow> (case r of (n, p, h) \<Rightarrow> n \<noteq> [] \<and> length n \<le> max_name \<and> h \<noteq> 0)"

lemma register_overwrites:
  assumes "invar d" and "lookup d n = Some h0" and "length n \<le> max_name" and "n \<noteq> []" and "h \<noteq> 0"
  shows "\<exists>d'. register d n p h = Some d' \<and> invar d' \<and> lookup d' = (lookup d)(n \<mapsto> h)
           \<and> card (dom (lookup d')) = card (dom (lookup d))"
proof -
  obtain d' where d': "register d n p h = Some d'"
    using register_refused [of d n p h] assms by fastforce
  with register_ok [OF assms(1)] have l: "lookup d' = (lookup d)(n \<mapsto> h)" and "invar d'"
    by blast+
  from assms(2) have "insert n (dom (lookup d)) = dom (lookup d)" by auto
  with l have "dom (lookup d') = dom (lookup d)" by simp
  with d' l \<open>invar d'\<close> show ?thesis by simp
qed

lemma register_all_ok:
  assumes "invar d" and "register_all register d rs = Some d'"
  shows "invar d' \<and> lookup d' = lookup d ++ map_of (rev (map (\<lambda>(n, p, h). (n, h)) rs))"
  using assms
proof (induction rs arbitrary: d)
  case Nil
  then show ?case by simp
next
  case (Cons r rs)
  obtain n p h where r: "r = (n, p, h)" by (cases r)
  from Cons.prems obtain d1 where d1: "register d n p h = Some d1"
    and rest: "register_all register d1 rs = Some d'"
    by (auto simp: r split: option.splits)
  from register_ok [OF Cons.prems(1) d1] have "invar d1" "lookup d1 = (lookup d)(n \<mapsto> h)"
    by blast+
  with Cons.IH [OF _ rest] show ?case
    by (simp add: r map_add_def fun_eq_iff split: option.split)
qed

lemma register_all_fits:
  assumes "invar d" and "distinct (map fst rs)" and "\<forall>r \<in> set rs. valid_entry r"
    and "set (map fst rs) \<inter> dom (lookup d) = {}"
    and "card (dom (lookup d)) + length rs \<le> capacity"
  shows "\<exists>d'. register_all register d rs = Some d'"
  using assms
proof (induction rs arbitrary: d)
  case Nil
  then show ?case by simp
next
  case (Cons r rs)
  obtain n p h where r: "r = (n, p, h)" by (cases r)
  from Cons.prems have "n \<noteq> []" "length n \<le> max_name" "h \<noteq> 0" "n \<notin> dom (lookup d)"
    by (auto simp: r valid_entry_def)
  with Cons.prems(1,5) obtain d1 where d1: "register d n p h = Some d1"
    using register_refused [of d n p h] by fastforce
  from register_ok [OF Cons.prems(1) d1] have i1: "invar d1"
    and l1: "lookup d1 = (lookup d)(n \<mapsto> h)" by blast+
  then have dom1: "dom (lookup d1) = insert n (dom (lookup d))" by simp
  have "card (dom (lookup d1)) = Suc (card (dom (lookup d)))"
    using \<open>n \<notin> dom (lookup d)\<close> finite_names [OF Cons.prems(1)] by (simp add: dom1)
  moreover have "set (map fst rs) \<inter> dom (lookup d1) = {}"
    using Cons.prems(2,4) unfolding dom1 r by auto
  ultimately have "\<exists>d'. register_all register d1 rs = Some d'"
    using Cons.prems(2,3,5) i1 by (intro Cons.IH) (auto simp: r)
  with d1 show ?case by (simp add: r)
qed

text \<open>The directory accepts exactly \<open>capacity\<close> distinct services, and then no new one.\<close>

lemma fill_to_capacity:
  assumes "distinct (map fst rs)" and "\<forall>r \<in> set rs. valid_entry r" and "length rs = capacity"
  shows "\<exists>d. register_all register empty_dir rs = Some d
           \<and> (\<forall>(n, p, h) \<in> set rs. lookup d n = Some h)
           \<and> (\<forall>n p h. n \<notin> set (map fst rs) \<longrightarrow> register d n p h = None)"
proof -
  obtain d where d: "register_all register empty_dir rs = Some d"
    using register_all_fits [of empty_dir rs] assms by (auto simp: invar_empty lookup_empty)
  let ?m = "map (\<lambda>(n, p, h). (n, h)) rs"
  have keys: "map fst ?m = map fst rs" by (auto simp: case_prod_beta)
  from register_all_ok [OF invar_empty d] have i: "invar d"
    and l: "lookup d = map_of (rev ?m)" by (simp_all add: lookup_empty)
  have l': "lookup d = map_of ?m"
    unfolding l using assms(1) keys map_of_inject_set [of "rev ?m" ?m]
    by (metis distinct_rev rev_map set_rev)
  have "dom (lookup d) = set (map fst rs)"
    unfolding l' dom_map_of_conv_image_fst using keys by (metis list.set_map)
  then have "card (dom (lookup d)) = capacity"
    using assms(1,3) distinct_card [OF assms(1)] by simp
  then have "register d n p h = None" if "n \<notin> set (map fst rs)" for n p h
    using that register_refused [OF i, of n p h] \<open>dom (lookup d) = set (map fst rs)\<close> by blast
  moreover have "lookup d n = Some h" if "(n, p, h) \<in> set rs" for n p h
  proof -
    have "distinct (map fst ?m)" unfolding keys by (rule assms(1))
    moreover have "(n, h) \<in> set ?m" using that by force
    ultimately show ?thesis unfolding l' by (rule map_of_is_SomeI)
  qed
  ultimately show ?thesis using d by blast
qed

end

text \<open>A directory that can also forget a name.\<close>

locale removable_directory = name_directory +
  fixes unregister :: "'a \<Rightarrow> bytes \<Rightarrow> 'a option"
  assumes unregister_ok: "invar d \<Longrightarrow> unregister d n = Some d' \<Longrightarrow>
            invar d' \<and> lookup d' = (lookup d)(n := None)"
    and unregister_refused: "invar d \<Longrightarrow> unregister d n = None \<longleftrightarrow> lookup d n = None"
begin

lemma register_unregister:
  assumes "invar d" and "lookup d n = None" and "register d n p h = Some d1"
  shows "\<exists>d2. unregister d1 n = Some d2 \<and> invar d2 \<and> lookup d2 = lookup d"
proof -
  from register_ok [OF assms(1,3)] have i: "invar d1" and l: "lookup d1 = (lookup d)(n \<mapsto> h)"
    by blast+
  then obtain d2 where "unregister d1 n = Some d2"
    using unregister_refused [OF i, of n] by auto
  with unregister_ok [OF i] l assms(2) show ?thesis by (auto simp: fun_eq_iff)
qed

end

end
