(* ===== verification/Registry.thy ===== *)
theory Registry
  imports Directory
begin

text \<open>
  The kernel's service registry (\<^verbatim>\<open>kernel/mene-kernel/src/service/registry.rs\<close>): an array of 32
  entries, each with a fixed 32-byte name buffer. Every operation is shown to refine the slot
  tables of \<open>Directory\<close>, and the registry interprets the directory contract.
\<close>

section \<open>Entries\<close>

datatype RegistryError = InvalidName | InvalidHandle | NotFound | AlreadyExists | RegistryFull

datatype ServiceHandle = ServiceHandle (as_usize: usize)

definition MAX_SERVICES :: nat where [simp]: "MAX_SERVICES = 32"
definition MAX_NAME_LEN :: nat where [simp]: "MAX_NAME_LEN = 32"

record RegistryEntry =
  in_use :: bool
  owner_pid :: usize
  handle :: usize
  name_len :: nat
  name :: bytes

definition empty_entry :: RegistryEntry where
  "empty_entry =
     \<lparr>in_use = False, owner_pid = 0, handle = 0, name_len = 0, name = replicate MAX_NAME_LEN 0\<rparr>"

definition entry_matches :: "RegistryEntry \<Rightarrow> bytes \<Rightarrow> bool" where
  "entry_matches e n \<longleftrightarrow> in_use e \<and> name_len e = length n \<and> take (name_len e) (name e) = n"

section \<open>The registry\<close>

record ServiceRegistry =
  entries :: "RegistryEntry list"

definition registry_new :: ServiceRegistry where
  "registry_new = \<lparr>entries = replicate MAX_SERVICES empty_entry\<rparr>"

definition fill_entry :: "bytes \<Rightarrow> usize \<Rightarrow> usize \<Rightarrow> RegistryEntry \<Rightarrow> RegistryEntry" where
  "fill_entry n pid h e =
     e\<lparr>in_use := True, owner_pid := pid, handle := h, name_len := length n, name := blit (name e) 0 n\<rparr>"

definition register ::
  "ServiceRegistry \<Rightarrow> bytes \<Rightarrow> usize \<Rightarrow> ServiceHandle \<Rightarrow> (RegistryError + unit) \<times> ServiceRegistry" where
  "register r n pid h =
     (if n = [] \<or> MAX_NAME_LEN < length n then (Inl InvalidName, r)
      else if as_usize h = 0 then (Inl InvalidHandle, r)
      else case upd_first (\<lambda>e. entry_matches e n)
                 (\<lambda>e. e\<lparr>owner_pid := pid, handle := as_usize h\<rparr>) (entries r) of
        Some es \<Rightarrow> (Inr (), r\<lparr>entries := es\<rparr>)
      | None \<Rightarrow>
          (case upd_first (\<lambda>e. \<not> in_use e) (fill_entry n pid (as_usize h)) (entries r) of
             Some es \<Rightarrow> (Inr (), r\<lparr>entries := es\<rparr>)
           | None \<Rightarrow> (Inl RegistryFull, r)))"

definition lookup :: "ServiceRegistry \<Rightarrow> bytes \<Rightarrow> RegistryError + ServiceHandle" where
  "lookup r n =
     (case find (\<lambda>e. entry_matches e n) (entries r) of
        Some e \<Rightarrow> Inr (ServiceHandle (handle e))
      | None \<Rightarrow> Inl NotFound)"

definition unregister :: "ServiceRegistry \<Rightarrow> bytes \<Rightarrow> (RegistryError + unit) \<times> ServiceRegistry" where
  "unregister r n =
     (case upd_first (\<lambda>e. entry_matches e n) (\<lambda>e. empty_entry) (entries r) of
        Some es \<Rightarrow> (Inr (), r\<lparr>entries := es\<rparr>)
      | None \<Rightarrow> (Inl NotFound, r))"

section \<open>Well-formed registries and their slot tables\<close>

definition entry_view :: "RegistryEntry \<Rightarrow> (bytes \<times> usize) option" where
  "entry_view e = (if in_use e then Some (take (name_len e) (name e), handle e) else None)"

definition registry_view :: "ServiceRegistry \<Rightarrow> (bytes, usize) slots" where
  "registry_view r = map entry_view (entries r)"

definition entry_ok :: "RegistryEntry \<Rightarrow> bool" where
  "entry_ok e \<longleftrightarrow> length (name e) = MAX_NAME_LEN \<and> name_len e \<le> MAX_NAME_LEN
     \<and> (in_use e \<longrightarrow> 0 < name_len e \<and> handle e \<noteq> 0)"

definition registry_ok :: "ServiceRegistry \<Rightarrow> bool" where
  "registry_ok r \<longleftrightarrow> length (entries r) = MAX_SERVICES \<and> list_all entry_ok (entries r)
     \<and> distinct (slot_keys (registry_view r))"

lemma entry_matches_view: "entry_ok e \<Longrightarrow> entry_matches e n = slot_is n (entry_view e)"
  by (auto simp: entry_matches_def entry_view_def entry_ok_def)

lemma entry_ok_empty [simp]: "entry_ok empty_entry"
  by (simp add: entry_ok_def empty_entry_def)

lemma entry_view_empty [simp]: "entry_view empty_entry = None"
  by (simp add: entry_view_def empty_entry_def)

lemma entry_ok_fill:
  "entry_ok e \<Longrightarrow> n \<noteq> [] \<Longrightarrow> length n \<le> MAX_NAME_LEN \<Longrightarrow> h \<noteq> 0 \<Longrightarrow> entry_ok (fill_entry n pid h e)"
  by (simp add: entry_ok_def fill_entry_def slice_simps)

lemma entry_view_fill: "entry_view (fill_entry n pid h e) = Some (n, h)"
  by (simp add: entry_view_def fill_entry_def slice_simps)

lemma entry_view_update:
  "entry_matches e n \<Longrightarrow> entry_view (e\<lparr>owner_pid := pid, handle := h\<rparr>) = Some (n, h)"
  by (auto simp: entry_matches_def entry_view_def)

lemma entry_view_None: "entry_view e = None \<longleftrightarrow> \<not> in_use e"
  by (simp add: entry_view_def)

lemma registry_ok_new: "registry_ok registry_new"
  by (simp add: registry_ok_def registry_new_def registry_view_def list_all_length)

lemma registry_view_new [simp]: "registry_view registry_new = replicate MAX_SERVICES None"
  by (simp add: registry_new_def registry_view_def)

text \<open>The three loops of the source, seen through the slot view.\<close>

lemma view_update_loop:
  assumes "list_all entry_ok es"
  shows "map_option (map entry_view)
           (upd_first (\<lambda>e. entry_matches e n) (\<lambda>e. e\<lparr>owner_pid := pid, handle := h\<rparr>) es)
         = upd_first (slot_is n) (\<lambda>_. Some (n, h)) (map entry_view es)"
  using assms by (intro upd_first_map) (auto simp: list_all_iff entry_matches_view [symmetric] entry_view_update)

lemma view_fill_loop:
  "map_option (map entry_view) (upd_first (\<lambda>e. \<not> in_use e) (fill_entry n pid h) es)
     = upd_first (\<lambda>s. s = None) (\<lambda>_. Some (n, h)) (map entry_view es)"
  by (intro upd_first_map) (simp_all add: entry_view_fill entry_view_None)

lemma view_clear_loop:
  assumes "list_all entry_ok es"
  shows "map_option (map entry_view) (upd_first (\<lambda>e. entry_matches e n) (\<lambda>e. empty_entry) es)
         = upd_first (slot_is n) (\<lambda>_. None) (map entry_view es)"
  using assms by (intro upd_first_map) (auto simp: list_all_iff entry_matches_view)

section \<open>Refinement of slot tables\<close>

lemma register_ok_refines:
  assumes "registry_ok r" and "n \<noteq> []" and "length n \<le> MAX_NAME_LEN" and "as_usize h \<noteq> 0"
  shows "case slot_put n (as_usize h) (registry_view r) of
           Some s \<Rightarrow> fst (register r n pid h) = Inr () \<and> registry_view (snd (register r n pid h)) = s
         | None \<Rightarrow> register r n pid h = (Inl RegistryFull, r)"
proof -
  have ok: "list_all entry_ok (entries r)" using assms(1) by (simp add: registry_ok_def)
  note loops = view_update_loop [OF ok, where n = n and pid = pid and h = "as_usize h", symmetric]
    view_fill_loop [where n = n and pid = pid and h = "as_usize h" and es = "entries r", symmetric]
  show ?thesis using assms(2-4)
    unfolding slot_put_def registry_view_def loops
    by (simp add: register_def split: option.split)
qed

lemma register_keeps_ok:
  assumes "registry_ok r"
  shows "registry_ok (snd (register r n pid h))"
proof (cases "n = [] \<or> MAX_NAME_LEN < length n \<or> as_usize h = 0")
  case True
  then show ?thesis using assms by (auto simp: register_def)
next
  case False
  then have valid: "n \<noteq> []" "length n \<le> MAX_NAME_LEN" "as_usize h \<noteq> 0" by auto
  have es: "length (entries r) = MAX_SERVICES" "list_all entry_ok (entries r)"
    using assms by (simp_all add: registry_ok_def)
  have "length (entries (snd (register r n pid h))) = MAX_SERVICES
      \<and> list_all entry_ok (entries (snd (register r n pid h)))"
    using valid es
    by (auto simp: register_def dest: upd_first_length split: option.splits
        elim!: upd_first_list_all intro: entry_ok_fill)
       (auto simp: entry_ok_def)
  moreover have "distinct (slot_keys (registry_view (snd (register r n pid h))))"
    using register_ok_refines [OF assms valid, of pid] assms
    by (auto simp: registry_ok_def dest: slot_put_Some(3) split: option.splits)
  ultimately show ?thesis by (simp add: registry_ok_def)
qed

lemma lookup_refines:
  assumes "registry_ok r"
  shows "lookup r n = (case slot_lookup (registry_view r) n of
           Some h \<Rightarrow> Inr (ServiceHandle h) | None \<Rightarrow> Inl NotFound)"
proof -
  have "(case find (\<lambda>e. entry_matches e n) es of
           Some e \<Rightarrow> Inr (ServiceHandle (handle e)) | None \<Rightarrow> Inl NotFound)
        = (case slot_lookup (map entry_view es) n of
           Some h \<Rightarrow> Inr (ServiceHandle h) | None \<Rightarrow> Inl NotFound)"
    if "list_all entry_ok es" for es
    using that
  proof (induction es)
    case (Cons e es)
    then show ?case
      by (cases "in_use e") (auto simp: entry_matches_view entry_view_def)
  qed simp
  then show ?thesis using assms by (simp add: lookup_def registry_view_def registry_ok_def)
qed

lemma unregister_refines:
  assumes "registry_ok r"
  shows "case slot_del n (registry_view r) of
           Some s \<Rightarrow> fst (unregister r n) = Inr () \<and> registry_view (snd (unregister r n)) = s
         | None \<Rightarrow> unregister r n = (Inl NotFound, r)"
proof -
  have ok: "list_all entry_ok (entries r)" using assms by (simp add: registry_ok_def)
  show ?thesis
    unfolding slot_del_def registry_view_def view_clear_loop [OF ok, symmetric]
    by (simp add: unregister_def split: option.split)
qed

lemma unregister_keeps_ok:
  assumes "registry_ok r"
  shows "registry_ok (snd (unregister r n))"
proof -
  have "length (entries (snd (unregister r n))) = MAX_SERVICES
      \<and> list_all entry_ok (entries (snd (unregister r n)))"
    using assms
    by (auto simp: registry_ok_def unregister_def dest: upd_first_length split: option.splits
        elim!: upd_first_list_all)
  moreover have "distinct (slot_keys (registry_view (snd (unregister r n))))"
    using unregister_refines [OF assms, of n] assms
    by (auto simp: registry_ok_def dest: slot_del_Some(3) split: option.splits)
  ultimately show ?thesis by (simp add: registry_ok_def)
qed

section \<open>The registry as a directory\<close>

definition registry_find :: "ServiceRegistry \<Rightarrow> bytes \<Rightarrow> usize option" where
  "registry_find r n = (case lookup r n of Inr h \<Rightarrow> Some (as_usize h) | Inl _ \<Rightarrow> None)"

definition registry_add :: "ServiceRegistry \<Rightarrow> bytes \<Rightarrow> usize \<Rightarrow> usize \<Rightarrow> ServiceRegistry option" where
  "registry_add r n pid h =
     (case register r n pid (ServiceHandle h) of (Inr _, r') \<Rightarrow> Some r' | (Inl _, _) \<Rightarrow> None)"

definition registry_drop :: "ServiceRegistry \<Rightarrow> bytes \<Rightarrow> ServiceRegistry option" where
  "registry_drop r n = (case unregister r n of (Inr _, r') \<Rightarrow> Some r' | (Inl _, _) \<Rightarrow> None)"

lemma registry_find_view: "registry_ok r \<Longrightarrow> registry_find r = slot_lookup (registry_view r)"
  by (auto simp: registry_find_def lookup_refines fun_eq_iff split: option.split)

lemma registry_add_invalid:
  "n = [] \<or> MAX_NAME_LEN < length n \<or> h = 0 \<Longrightarrow> registry_add r n pid h = None"
  by (auto simp: registry_add_def register_def)

lemma registry_add_spec:
  assumes "registry_ok r"
  shows "registry_add r n pid h = Some r' \<Longrightarrow> registry_ok r' \<and> registry_find r' = (registry_find r)(n \<mapsto> h)"
    and "registry_add r n pid h = None \<longleftrightarrow> n = [] \<or> MAX_NAME_LEN < length n \<or> h = 0
           \<or> (registry_find r n = None \<and> card (dom (registry_find r)) = MAX_SERVICES)"
proof -
  have keep: "registry_ok (snd (register r n pid (ServiceHandle h)))"
    by (rule register_keeps_ok [OF assms])
  have full: "None \<notin> set (registry_view r) \<longleftrightarrow> card (dom (registry_find r)) = MAX_SERVICES"
    using assms slots_full_iff [of "registry_view r"]
    by (simp add: registry_ok_def registry_find_view) (simp add: registry_view_def)
  show "registry_ok r' \<and> registry_find r' = (registry_find r)(n \<mapsto> h)"
    if some: "registry_add r n pid h = Some r'"
  proof (cases "n = [] \<or> MAX_NAME_LEN < length n \<or> h = 0")
    case True
    with some show ?thesis by (simp add: registry_add_invalid)
  next
    case False
    with some keep register_ok_refines [OF assms, of n "ServiceHandle h" pid] show ?thesis
      by (auto simp: registry_add_def registry_find_view assms
          dest: slot_put_Some(1) split: prod.splits sum.splits option.splits)
  qed
  show "registry_add r n pid h = None \<longleftrightarrow> n = [] \<or> MAX_NAME_LEN < length n \<or> h = 0
           \<or> (registry_find r n = None \<and> card (dom (registry_find r)) = MAX_SERVICES)"
  proof (cases "n = [] \<or> MAX_NAME_LEN < length n \<or> h = 0")
    case True
    then show ?thesis by (auto simp: registry_add_invalid)
  next
    case False
    then have "registry_add r n pid h = None \<longleftrightarrow> slot_put n h (registry_view r) = None"
      using register_ok_refines [OF assms, of n "ServiceHandle h" pid]
      by (auto simp: registry_add_def split: prod.splits sum.splits option.splits)
    with False full show ?thesis
      by (simp add: slot_put_None registry_find_view [OF assms])
  qed
qed

lemma registry_drop_spec:
  assumes "registry_ok r"
  shows "registry_drop r n = Some r' \<Longrightarrow> registry_ok r' \<and> registry_find r' = (registry_find r)(n := None)"
    and "registry_drop r n = None \<longleftrightarrow> registry_find r n = None"
proof -
  have dist: "distinct (slot_keys (registry_view r))" using assms by (simp add: registry_ok_def)
  note ref = unregister_refines [OF assms, of n] and keep = unregister_keeps_ok [OF assms, of n]
  show "registry_drop r n = Some r' \<Longrightarrow> registry_ok r' \<and> registry_find r' = (registry_find r)(n := None)"
    using ref keep slot_del_Some(1) [OF _ dist, of n]
    by (auto simp: registry_drop_def registry_find_view assms split: prod.splits sum.splits option.splits)
  show "registry_drop r n = None \<longleftrightarrow> registry_find r n = None"
    using ref slot_del_None [of n "registry_view r"]
    by (auto simp: registry_drop_def registry_find_view [OF assms] split: prod.splits sum.splits option.splits)
qed

interpretation kreg: removable_directory registry_new registry_find registry_add registry_ok
    MAX_SERVICES MAX_NAME_LEN registry_drop
proof unfold_locales
  show "registry_find registry_new = Map.empty"
    by (simp add: registry_find_view registry_ok_new)
next
  fix r n pid h r' assume "registry_ok r" and "registry_add r n pid h = Some r'"
  then show "registry_ok r' \<and> registry_find r' = (registry_find r)(n \<mapsto> h)"
    by (rule registry_add_spec)
next
  fix r n pid h assume "registry_ok r"
  then show "registry_add r n pid h = None \<longleftrightarrow> n = [] \<or> MAX_NAME_LEN < length n \<or> h = 0
      \<or> (registry_find r n = None \<and> card (dom (registry_find r)) = MAX_SERVICES)"
    by (rule registry_add_spec)
next
  fix r n r' assume "registry_ok r" and "registry_drop r n = Some r'"
  then show "registry_ok r' \<and> registry_find r' = (registry_find r)(n := None)"
    by (rule registry_drop_spec)
next
  fix r n assume "registry_ok r"
  then show "registry_drop r n = None \<longleftrightarrow> registry_find r n = None"
    by (rule registry_drop_spec)
next
  fix r assume "registry_ok r"
  then show "finite (dom (registry_find r))" and "card (dom (registry_find r)) \<le> MAX_SERVICES"
    using card_slot_le [of "registry_view r"]
    by (simp_all add: registry_find_view dom_slot_lookup registry_ok_def registry_view_def)
qed (rule registry_ok_new)

section \<open>Reachable registries\<close>

inductive registry_reachable :: "ServiceRegistry \<Rightarrow> bool" where
  reach_new: "registry_reachable registry_new"
| reach_register: "registry_reachable r \<Longrightarrow> registry_reachable (snd (register r n pid h))"
| reach_unregister: "registry_reachable r \<Longrightarrow> registry_reachable (snd (unregister r n))"

lemma registry_reachable_ok: "registry_reachable r \<Longrightarrow> registry_ok r"
  by (induction rule: registry_reachable.induct)
     (simp_all add: registry_ok_new register_keeps_ok unregister_keeps_ok)

lemma lookup_eq_find:
  "registry_ok r \<Longrightarrow> lookup r n =
     (case registry_find r n of Some h \<Rightarrow> Inr (ServiceHandle h) | None \<Rightarrow> Inl NotFound)"
  by (simp add: registry_find_view lookup_refines)

lemma register_cases:
  "register r n pid h =
     (case registry_add r n pid (as_usize h) of
        Some r' \<Rightarrow> (Inr (), r')
      | None \<Rightarrow> (Inl (if n = [] \<or> MAX_NAME_LEN < length n then InvalidName
                    else if as_usize h = 0 then InvalidHandle else RegistryFull), r))"
  by (auto simp: registry_add_def register_def split: option.splits)

section \<open>Properties\<close>

text \<open>
  C11. In every registry the kernel can reach, registering behaves like a map update, on every
  branch: a success binds exactly the given name to the given handle and keeps all other
  bindings; an empty or over-long name, a zero handle and a full registry (32 other names) are
  refused with \<^verbatim>\<open>InvalidName\<close>, \<^verbatim>\<open>InvalidHandle\<close> and \<^verbatim>\<open>RegistryFull\<close>, in that order, and change nothing.
\<close>

theorem register_functional:
  assumes "registry_reachable r"
  shows "if n = [] \<or> 32 < length n then register r n pid h = (Inl InvalidName, r)
    else if as_usize h = 0 then register r n pid h = (Inl InvalidHandle, r)
    else if lookup r n = Inl NotFound \<and> card {m. lookup r m \<noteq> Inl NotFound} = 32
      then register r n pid h = (Inl RegistryFull, r)
    else \<exists>r'. register r n pid h = (Inr (), r')
      \<and> (\<forall>m. lookup r' m = (if m = n then Inr h else lookup r m))"
proof -
  have ok: "registry_ok r" by (rule registry_reachable_ok [OF assms])
  have names: "{m. lookup r m \<noteq> Inl NotFound} = dom (registry_find r)"
    by (auto simp: lookup_eq_find [OF ok] split: option.splits)
  have absent: "lookup r n = Inl NotFound \<longleftrightarrow> registry_find r n = None"
    by (simp add: lookup_eq_find [OF ok] split: option.split)
  note refused = registry_add_spec(2) [OF ok, of n pid "as_usize h"]
  show ?thesis
  proof (cases "registry_add r n pid (as_usize h)")
    case None
    with refused show ?thesis by (simp add: register_cases names absent) auto
  next
    case (Some r')
    from registry_add_spec(1) [OF ok Some] have "registry_ok r'"
      and "registry_find r' = (registry_find r)(n \<mapsto> as_usize h)" by blast+
    then have "\<forall>m. lookup r' m = (if m = n then Inr h else lookup r m)"
      by (simp add: lookup_eq_find ok)
    with Some refused show ?thesis by (auto simp: register_cases names absent)
  qed
qed

theorem register_functional_witness:
  "\<exists>r'. register registry_new (lit ''fs'') 4 (ServiceHandle 5) = (Inr (), r')
     \<and> (\<forall>m. lookup r' m = (if m = lit ''fs'' then Inr (ServiceHandle 5) else lookup registry_new m))"
proof -
  have "lookup registry_new m = Inl NotFound" for m
    by (simp add: lookup_eq_find registry_ok_new kreg.lookup_empty)
  then show ?thesis
    using register_functional [OF reach_new, of "lit ''fs''" 4 "ServiceHandle 5"] by simp
qed



text \<open>
  C38. Unregistering is the inverse of a first registration: after registering a name that was
  not present, unregistering it succeeds and every lookup answers as before.
\<close>

theorem register_unregister_roundtrip:
  assumes "registry_reachable r" and "lookup r n = Inl NotFound"
    and "register r n pid h = (Inr (), r1)"
  shows "\<exists>r2. unregister r1 n = (Inr (), r2) \<and> (\<forall>m. lookup r2 m = lookup r m)"
proof -
  have ok: "registry_ok r" by (rule registry_reachable_ok [OF assms(1)])
  from assms(2) have "registry_find r n = None"
    by (simp add: lookup_eq_find [OF ok] split: option.splits)
  moreover have "registry_add r n pid (as_usize h) = Some r1"
    using assms(3) by (simp add: register_cases split: option.splits)
  ultimately obtain r2 where r2: "registry_drop r1 n = Some r2" "registry_ok r2"
    "registry_find r2 = registry_find r"
    using kreg.register_unregister [OF ok] by blast
  then have "unregister r1 n = (Inr (), r2)"
    by (auto simp: registry_drop_def unregister_def split: option.splits)
  with r2 ok show ?thesis by (auto simp: lookup_eq_find)
qed

theorem register_unregister_roundtrip_witness:
  "\<exists>r2. unregister (snd (register registry_new (lit ''fs'') 4 (ServiceHandle 5))) (lit ''fs'') = (Inr (), r2)
     \<and> (\<forall>m. lookup r2 m = lookup registry_new m)"
proof -
  have "lookup registry_new (lit ''fs'') = Inl NotFound"
    by (simp add: lookup_eq_find registry_ok_new kreg.lookup_empty)
  moreover obtain r1 where r1: "register registry_new (lit ''fs'') 4 (ServiceHandle 5) = (Inr (), r1)"
    using kreg.register_refused [OF registry_ok_new, of "lit ''fs''" 4 5]
    by (cases "registry_add registry_new (lit ''fs'') 4 5") (auto simp: kreg.lookup_empty register_cases)
  ultimately show ?thesis
    using register_unregister_roundtrip [OF reach_new _ r1] by simp
qed

end
