(* ===== verification/Ipc.thy ===== *)
theory Ipc
  imports Prelude
begin

text \<open>
  Inter-process communication: endpoints and payloads (\<^verbatim>\<open>kernel/mene-ipc/src/endpoint.rs\<close>,
  \<^verbatim>\<open>capability.rs\<close>), the per-process endpoint table of \<^verbatim>\<open>IpcManager\<close> (\<^verbatim>\<open>manager.rs\<close>), and the message
  header of \<^verbatim>\<open>kernel/mene-kernel/src/ipc/protocol.rs\<close>. The locale \<open>mailbox\<close> states what a message
  service promises its clients; the endpoint table interprets it.
\<close>

section \<open>Errors\<close>

text \<open>The variants of \<^verbatim>\<open>axerrno::AxError\<close> that the kernel constructs.\<close>

datatype AxError =
    NotFound | WouldBlock | InvalidInput | PermissionDenied | NoMemory | NoSuchProcess | BadAddress

section \<open>Endpoints\<close>

text \<open>
  An \<^verbatim>\<open>Arc<Endpoint>\<close> is a reference, the index of the endpoint in the kernel's endpoint heap. The wait
  queue is modelled by the number of \<^verbatim>\<open>notify_one\<close> calls: no code of MeneOS ever waits on it.
\<close>

type_synonym ep_ref = nat

datatype Capability = EndpointCap ep_ref

record IpcPayload =
  message :: bytes
  capabilities :: "Capability list"
  sender_id :: u64

definition payload_new :: "bytes \<Rightarrow> u64 \<Rightarrow> IpcPayload" where
  "payload_new m sender = \<lparr>message = m, capabilities = [], sender_id = sender\<rparr>"

record Endpoint =
  queue :: "IpcPayload list"
  wq :: nat

definition endpoint_new :: Endpoint where
  "endpoint_new = \<lparr>queue = [], wq = 0\<rparr>"

definition ep_push :: "IpcPayload \<Rightarrow> Endpoint \<Rightarrow> Endpoint" where
  "ep_push p ep = ep\<lparr>queue := queue ep @ [p], wq := Suc (wq ep)\<rparr>"

definition ep_pop :: "Endpoint \<Rightarrow> IpcPayload option \<times> Endpoint" where
  "ep_pop ep = (case queue ep of [] \<Rightarrow> (None, ep) | p # ps \<Rightarrow> (Some p, ep\<lparr>queue := ps\<rparr>))"

definition ep_has_pending :: "Endpoint \<Rightarrow> bool" where
  "ep_has_pending ep \<longleftrightarrow> queue ep \<noteq> []"

section \<open>The endpoint table\<close>

text \<open>\<^verbatim>\<open>PROCESS_ENDPOINTS: Mutex<Option<BTreeMap<usize, Endpoint>>>\<close>, \<open>None\<close> before the first process.\<close>

type_synonym endpoints = "(usize, Endpoint) btree option"

definition ipc_init_process :: "usize \<Rightarrow> endpoints \<Rightarrow> endpoints" where
  "ipc_init_process pid eps =
     (let eps1 = (case eps of None \<Rightarrow> Some [] | Some m \<Rightarrow> Some m)
      in map_option (bt_insert pid endpoint_new) eps1)"

text \<open>\<open>IpcManager::send\<close>: the handle is used as the key of the endpoint table; the capability is unused.\<close>

definition ipc_send :: "usize \<Rightarrow> usize \<Rightarrow> bytes \<Rightarrow> usize \<Rightarrow> endpoints \<Rightarrow> (AxError + unit) \<times> endpoints" where
  "ipc_send from_pid to_handle data cap eps =
     (let payload = payload_new data from_pid in
      case eps of
        Some m \<Rightarrow>
          (case bt_get m to_handle of
             Some ep \<Rightarrow> (Inr (), Some (bt_modify to_handle (ep_push payload) m))
           | None \<Rightarrow> (Inl NotFound, eps))
      | None \<Rightarrow> (Inl NotFound, eps))"

text \<open>
  \<open>IpcManager::recv\<close>, with its out-parameters \<^verbatim>\<open>buf\<close>, \<^verbatim>\<open>sender_pid\<close> and \<^verbatim>\<open>recv_cap\<close> passed in and
  returned.
\<close>

record recv_out =
  out_buf :: bytes
  out_sender :: usize
  out_cap :: usize

definition ipc_recv :: "usize \<Rightarrow> recv_out \<Rightarrow> endpoints \<Rightarrow> (AxError + nat) \<times> recv_out \<times> endpoints" where
  "ipc_recv pid out eps =
     (case eps of
        Some m \<Rightarrow>
          (case bt_get m pid of
             Some ep \<Rightarrow>
               (case ep_pop ep of
                  (Some payload, ep') \<Rightarrow>
                    (let len = min (length (message payload)) (length (out_buf out))
                     in (Inr len,
                         \<lparr>out_buf = blit (out_buf out) 0 (take len (message payload)),
                          out_sender = sender_id payload,
                          out_cap = 0\<rparr>,
                         Some (bt_modify pid (\<lambda>_. ep') m)))
                | (None, _) \<Rightarrow> (Inl WouldBlock, out, eps))
           | None \<Rightarrow> (Inl WouldBlock, out, eps))
      | None \<Rightarrow> (Inl WouldBlock, out, eps))"

definition ipc_recv_timeout ::
  "usize \<Rightarrow> recv_out \<Rightarrow> usize \<Rightarrow> endpoints \<Rightarrow> (AxError + nat) \<times> recv_out \<times> endpoints" where
  "ipc_recv_timeout pid out timeout_ms eps = ipc_recv pid out eps"

definition ipc_cleanup_process :: "usize \<Rightarrow> endpoints \<Rightarrow> endpoints" where
  "ipc_cleanup_process pid eps = map_option (bt_remove pid) eps"

section \<open>The mailbox contract\<close>

text \<open>A sequence of sends, each from one party to another, stopping at the first refusal.\<close>

fun send_all ::
  "('k \<Rightarrow> 'k \<Rightarrow> bytes \<Rightarrow> 's \<Rightarrow> 's option) \<Rightarrow> 's \<Rightarrow> ('k \<times> 'k \<times> bytes) list \<Rightarrow> 's option" where
  "send_all put s [] = Some s"
| "send_all put s ((f, t, m) # ms) =
     (case put f t m s of None \<Rightarrow> None | Some s' \<Rightarrow> send_all put s' ms)"

text \<open>Receive with buffers of the given sizes, as long as there is something to receive.\<close>

fun recv_all ::
  "('k \<Rightarrow> nat \<Rightarrow> 's \<Rightarrow> (bytes \<times> 'k) option \<times> 's) \<Rightarrow> 'k \<Rightarrow> nat list \<Rightarrow> 's \<Rightarrow> (bytes \<times> 'k) list \<times> 's" where
  "recv_all rcv k [] s = ([], s)"
| "recv_all rcv k (n # ns) s =
     (case rcv k n s of
        (None, s') \<Rightarrow> ([], s')
      | (Some x, s') \<Rightarrow> (case recv_all rcv k ns s' of (xs, s'') \<Rightarrow> (x # xs, s'')))"

definition addressed_to :: "'k \<Rightarrow> ('k \<times> 'k \<times> bytes) list \<Rightarrow> (bytes \<times> 'k) list" where
  "addressed_to k ms = map (\<lambda>(f, t, m). (m, f)) (filter (\<lambda>(f, t, m). t = k) ms)"

lemma addressed_to_simps [simp]:
  "addressed_to k [] = []"
  "addressed_to k ((f, t, m) # ms) = (if t = k then (m, f) # addressed_to k ms else addressed_to k ms)"
  by (simp_all add: addressed_to_def)

locale mailbox =
  fixes open_box :: "'k \<Rightarrow> 's \<Rightarrow> 's"
    and close_box :: "'k \<Rightarrow> 's \<Rightarrow> 's"
    and send_msg :: "'k \<Rightarrow> 'k \<Rightarrow> bytes \<Rightarrow> 's \<Rightarrow> 's option"
    and recv_msg :: "'k \<Rightarrow> nat \<Rightarrow> 's \<Rightarrow> (bytes \<times> 'k) option \<times> 's"
    and pending :: "'s \<Rightarrow> 'k \<Rightarrow> (bytes \<times> 'k) list option"
  assumes pending_open: "pending (open_box k s) = (pending s)(k \<mapsto> [])"
    and pending_close: "pending (close_box k s) = (pending s)(k := None)"
    and send_open: "pending s t = Some q \<Longrightarrow>
          \<exists>s'. send_msg f t m s = Some s' \<and> pending s' = (pending s)(t \<mapsto> q @ [(m, f)])"
    and send_closed: "pending s t = None \<Longrightarrow> send_msg f t m s = None"
    and recv_some: "pending s k = Some ((m, f) # q) \<Longrightarrow>
          \<exists>s'. recv_msg k n s = (Some (take n m, f), s') \<and> pending s' = (pending s)(k \<mapsto> q)"
    and recv_none: "pending s k = None \<or> pending s k = Some [] \<Longrightarrow> recv_msg k n s = (None, s)"
begin

lemma send_only_recipient:
  assumes "send_msg f t m s = Some s'" and "k \<noteq> t"
  shows "pending s' k = pending s k"
proof (cases "pending s t")
  case None
  with assms(1) show ?thesis by (simp add: send_closed)
next
  case (Some q)
  from send_open [OF this, of f m] assms show ?thesis by auto
qed

lemma send_all_routes:
  assumes "\<And>f t m. (f, t, m) \<in> set ms \<Longrightarrow> pending s t \<noteq> None"
  shows "\<exists>s'. send_all send_msg s ms = Some s'
    \<and> (\<forall>k. pending s' k = map_option (\<lambda>q. q @ addressed_to k ms) (pending s k))"
  using assms
proof (induction ms arbitrary: s)
  case Nil
  then show ?case by (simp add: option.map_ident)
next
  case (Cons x ms)
  obtain f t m where x: "x = (f, t, m)" by (cases x)
  from Cons.prems [of f t m] obtain q where q: "pending s t = Some q" by (auto simp: x)
  from send_open [OF q, of f m] obtain s1 where s1: "send_msg f t m s = Some s1"
    and p1: "pending s1 = (pending s)(t \<mapsto> q @ [(m, f)])" by blast
  have "\<exists>s'. send_all send_msg s1 ms = Some s'
      \<and> (\<forall>k. pending s' k = map_option (\<lambda>q. q @ addressed_to k ms) (pending s1 k))"
    using Cons.prems by (intro Cons.IH) (auto simp: x p1)
  then obtain s' where s': "send_all send_msg s1 ms = Some s'"
    and p': "\<forall>k. pending s' k = map_option (\<lambda>q. q @ addressed_to k ms) (pending s1 k)" by blast
  have "pending s' k = map_option (\<lambda>q. q @ addressed_to k (x # ms)) (pending s k)" for k
    using p' p1 q by (auto simp: x)
  with s1 s' show ?case by (auto simp: x)
qed

lemma recv_all_drains:
  "pending s k = Some q \<Longrightarrow> length ns = length q \<Longrightarrow>
     \<exists>s'. recv_all recv_msg k ns s = (map2 (\<lambda>n (m, f). (take n m, f)) ns q, s')
       \<and> pending s' = (pending s)(k \<mapsto> [])"
proof (induction ns arbitrary: s q)
  case Nil
  then show ?case by (auto simp: fun_eq_iff)
next
  case (Cons n ns)
  then obtain m f q' where q: "q = (m, f) # q'" by (cases q) auto
  with Cons.prems recv_some [of s k m f q' n] obtain s1 where
    s1: "recv_msg k n s = (Some (take n m, f), s1)" and p1: "pending s1 = (pending s)(k \<mapsto> q')"
    by auto
  have "pending s1 k = Some q'" and "length ns = length q'"
    using Cons.prems(2) q p1 by auto
  from Cons.IH [OF this] obtain s' where
    "recv_all recv_msg k ns s1 = (map2 (\<lambda>n (m, f). (take n m, f)) ns q', s')"
    "pending s' = (pending s1)(k \<mapsto> [])" by blast
  with s1 p1 q show ?case by (auto simp: fun_eq_iff)
qed

text \<open>Order of delivery: what is sent to one party arrives there in the order of sending.\<close>

lemma fifo:
  assumes "\<And>f t m. (f, t, m) \<in> set ms \<Longrightarrow> pending s t \<noteq> None" and "pending s k = Some []"
    and "length ns = length (addressed_to k ms)"
  shows "\<exists>s1 s2. send_all send_msg s ms = Some s1
    \<and> recv_all recv_msg k ns s1 = (map2 (\<lambda>n (m, f). (take n m, f)) ns (addressed_to k ms), s2)
    \<and> pending s2 k = Some []"
proof -
  have "\<exists>s'. send_all send_msg s ms = Some s'
      \<and> (\<forall>k. pending s' k = map_option (\<lambda>q. q @ addressed_to k ms) (pending s k))"
    by (rule send_all_routes) (rule assms(1))
  then obtain s1 where s1: "send_all send_msg s ms = Some s1"
    and "\<forall>k. pending s1 k = map_option (\<lambda>q. q @ addressed_to k ms) (pending s k)" by blast
  with assms(2) have "pending s1 k = Some (addressed_to k ms)" by simp
  from recv_all_drains [OF this assms(3)] s1 show ?thesis by auto
qed

end

section \<open>The endpoint table as a mailbox service\<close>

definition ipc_pending :: "endpoints \<Rightarrow> usize \<Rightarrow> (bytes \<times> usize) list option" where
  "ipc_pending eps pid =
     (case eps of None \<Rightarrow> None
      | Some m \<Rightarrow> map_option (\<lambda>ep. map (\<lambda>p. (message p, sender_id p)) (queue ep)) (bt_get m pid))"

definition ipc_deliver :: "usize \<Rightarrow> usize \<Rightarrow> bytes \<Rightarrow> endpoints \<Rightarrow> endpoints option" where
  "ipc_deliver f t m eps =
     (case ipc_send f t m 0 eps of (Inr _, eps') \<Rightarrow> Some eps' | (Inl _, _) \<Rightarrow> None)"

definition ipc_take :: "usize \<Rightarrow> nat \<Rightarrow> endpoints \<Rightarrow> (bytes \<times> usize) option \<times> endpoints" where
  "ipc_take pid n eps =
     (case ipc_recv pid \<lparr>out_buf = replicate n 0, out_sender = 0, out_cap = 0\<rparr> eps of
        (Inr len, out, eps') \<Rightarrow> (Some (take len (out_buf out), out_sender out), eps')
      | (Inl _, _, eps') \<Rightarrow> (None, eps'))"

lemma ipc_pending_init: "ipc_pending (ipc_init_process pid eps) = (ipc_pending eps)(pid \<mapsto> [])"
  by (cases eps) (auto simp: bt_get_def ipc_pending_def ipc_init_process_def endpoint_new_def fun_eq_iff)

lemma ipc_pending_cleanup: "ipc_pending (ipc_cleanup_process pid eps) = (ipc_pending eps)(pid := None)"
  by (cases eps) (auto simp: ipc_pending_def ipc_cleanup_process_def fun_eq_iff)

lemma ipc_send_pending:
  "ipc_send f t m c eps =
     (case ipc_pending eps t of
        None \<Rightarrow> (Inl NotFound, eps)
      | Some q \<Rightarrow> (Inr (), Some (bt_modify t (ep_push (payload_new m f)) (the eps))))"
  by (cases eps) (auto simp: ipc_send_def ipc_pending_def split: option.split)

lemma ipc_pending_push:
  "ipc_pending eps t = Some q \<Longrightarrow>
     ipc_pending (Some (bt_modify t (ep_push (payload_new m f)) (the eps)))
       = (ipc_pending eps)(t \<mapsto> q @ [(m, f)])"
  by (cases eps) (auto simp: ipc_pending_def ep_push_def payload_new_def fun_eq_iff)

lemma ipc_recv_empty:
  "ipc_pending eps pid = None \<or> ipc_pending eps pid = Some [] \<Longrightarrow>
     ipc_recv pid out eps = (Inl WouldBlock, out, eps)"
  by (cases eps) (auto simp: ipc_recv_def ipc_pending_def ep_pop_def split: option.splits)

lemma ipc_recv_ready:
  assumes "ipc_pending eps pid = Some ((m, f) # q)"
  shows "\<exists>eps'. ipc_recv pid out eps =
      (Inr (min (length m) (length (out_buf out))),
       \<lparr>out_buf = take (length (out_buf out)) m @ drop (length m) (out_buf out),
        out_sender = f, out_cap = 0\<rparr>, eps')
    \<and> ipc_pending eps' = (ipc_pending eps)(pid \<mapsto> q)"
proof -
  from assms obtain tab ep p ps where eps: "eps = Some tab" "bt_get tab pid = Some ep"
    "queue ep = p # ps" "message p = m" "sender_id p = f"
    "map (\<lambda>p. (message p, sender_id p)) ps = q"
    by (auto simp: ipc_pending_def split: option.splits)
  let ?out = "\<lparr>out_buf = take (length (out_buf out)) m @ drop (length m) (out_buf out),
        out_sender = f, out_cap = 0\<rparr>"
  have "blit (out_buf out) 0 (take (min (length m) (length (out_buf out))) m) = out_buf ?out"
    by (auto simp: blit_def min_def)
  then have "ipc_recv pid out eps = (Inr (min (length m) (length (out_buf out))), ?out,
      Some (bt_modify pid (\<lambda>_. ep\<lparr>queue := ps\<rparr>) tab))"
    by (simp add: ipc_recv_def ep_pop_def eps Let_def)
  moreover have "ipc_pending (Some (bt_modify pid (\<lambda>_. ep\<lparr>queue := ps\<rparr>) tab))
      = (ipc_pending eps)(pid \<mapsto> q)"
    using eps by (auto simp: ipc_pending_def fun_eq_iff)
  ultimately show ?thesis by blast
qed

interpretation ipc: mailbox ipc_init_process ipc_cleanup_process ipc_deliver ipc_take ipc_pending
proof unfold_locales
  fix s t q f m assume "ipc_pending s t = Some q"
  then show "\<exists>s'. ipc_deliver f t m s = Some s' \<and> ipc_pending s' = (ipc_pending s)(t \<mapsto> q @ [(m, f)])"
    by (simp add: ipc_deliver_def ipc_send_pending ipc_pending_push)
next
  fix s k m f q n assume "ipc_pending s k = Some ((m, f) # q)"
  from ipc_recv_ready [OF this, of "\<lparr>out_buf = replicate n 0, out_sender = 0, out_cap = 0\<rparr>"]
  show "\<exists>s'. ipc_take k n s = (Some (take n m, f), s') \<and> ipc_pending s' = (ipc_pending s)(k \<mapsto> q)"
    by (auto simp: ipc_take_def min_def)
qed (simp_all add: ipc_pending_init ipc_pending_cleanup ipc_deliver_def ipc_send_pending
    ipc_take_def ipc_recv_empty)

section \<open>The message header\<close>

record IpcHeader =
  opcode :: u16
  flags :: u16
  payload_len :: u32

definition HEADER_SIZE :: nat where [simp]: "HEADER_SIZE = 8"
definition FLAG_REPLY_EXPECTED :: u16 where [simp]: "FLAG_REPLY_EXPECTED = 1"
definition FLAG_ERROR :: u16 where [simp]: "FLAG_ERROR = 2"

datatype IpcError = InvalidHeader | PayloadTooLarge | InvalidOpcode | IpcNotFound | IpcPermissionDenied

definition header_new :: "u16 \<Rightarrow> u32 \<Rightarrow> IpcHeader" where
  "header_new op len = \<lparr>opcode = op, flags = 0, payload_len = len\<rparr>"

definition header_from_bytes :: "bytes \<Rightarrow> IpcHeader option" where
  "header_from_bytes buf =
     (if length buf < HEADER_SIZE then None
      else Some \<lparr>opcode = from_le [buf ! 0, buf ! 1],
                 flags = from_le [buf ! 2, buf ! 3],
                 payload_len = from_le [buf ! 4, buf ! 5, buf ! 6, buf ! 7]\<rparr>)"

definition header_to_bytes :: "IpcHeader \<Rightarrow> bytes" where
  "header_to_bytes h =
     (let buf = replicate HEADER_SIZE 0;
          buf = blit buf 0 (to_le 2 (opcode h));
          buf = blit buf 2 (to_le 2 (flags h))
      in blit buf 4 (to_le 4 (payload_len h)))"

lemma header_to_bytes_append:
  "header_to_bytes h = to_le 2 (opcode h) @ to_le 2 (flags h) @ to_le 4 (payload_len h)"
  by (simp add: header_to_bytes_def blit_def)

lemma from_bytes_split:
  assumes "length bs = 8"
  obtains b0 b1 b2 b3 b4 b5 b6 b7 where "bs = [b0, b1, b2, b3, b4, b5, b6, b7]"
  using assms by (auto simp: numeral_eq_Suc length_Suc_conv)

lemma header_from_bytes_take: "8 \<le> length buf \<Longrightarrow> header_from_bytes buf = header_from_bytes (take 8 buf)"
  by (simp add: header_from_bytes_def)

lemma header_from_to: "header_from_bytes (header_to_bytes h @ rest) = Some h"
proof -
  obtain a0 a1 where op: "to_le 2 (opcode h) = [a0, a1]"
    using length_to_le [of 2 "opcode h"] by (auto simp: numeral_eq_Suc length_Suc_conv simp del: length_to_le)
  obtain c0 c1 where fl: "to_le 2 (flags h) = [c0, c1]"
    using length_to_le [of 2 "flags h"] by (auto simp: numeral_eq_Suc length_Suc_conv simp del: length_to_le)
  obtain d0 d1 d2 d3 where pl: "to_le 4 (payload_len h) = [d0, d1, d2, d3]"
    using length_to_le [of 4 "payload_len h"] by (auto simp: numeral_eq_Suc length_Suc_conv simp del: length_to_le)
  from from_le_u16 [of "opcode h"] from_le_u16 [of "flags h"] from_le_u32 [of "payload_len h"] show ?thesis
    by (simp add: header_from_bytes_def header_to_bytes_append op fl pl)
qed

lemma header_to_from:
  assumes "header_from_bytes buf = Some h"
  shows "header_to_bytes h = take 8 buf"
proof -
  from assms have len: "length (take 8 buf) = 8"
    by (auto simp: header_from_bytes_def split: if_splits)
  from from_bytes_split [OF len] obtain b0 b1 b2 b3 b4 b5 b6 b7 where
    bs: "take 8 buf = [b0, b1, b2, b3, b4, b5, b6, b7]" .
  have "header_from_bytes (take 8 buf) = Some h"
    using assms len by (simp add: header_from_bytes_take [of buf])
  then have "h = \<lparr>opcode = from_le [b0, b1], flags = from_le [b2, b3], payload_len = from_le [b4, b5, b6, b7]\<rparr>"
    unfolding bs by (simp add: header_from_bytes_def)
  then show ?thesis unfolding bs
    using to_from_le [of "[b0, b1]", where 'a = 16] to_from_le [of "[b2, b3]", where 'a = 16]
      to_from_le [of "[b4, b5, b6, b7]", where 'a = 32]
    by (simp add: header_to_bytes_append numeral_eq_Suc)
qed

section \<open>Properties\<close>

text \<open>
  C12. Messages are delivered in order and only to their recipient: whatever sequence of sends to
  live processes happens while \<open>k\<close> has nothing pending, receiving at \<open>k\<close> returns exactly the
  messages addressed to \<open>k\<close>, each with its sender and cut to the size of the receive buffer, in the
  order in which they were sent, and leaves nothing pending.
\<close>

theorem ipc_fifo:
  assumes "\<And>f t m. (f, t, m) \<in> set ms \<Longrightarrow> ipc_pending eps t \<noteq> None"
    and "ipc_pending eps k = Some []" and "length ns = length (addressed_to k ms)"
  shows "\<exists>eps1 eps2. send_all ipc_deliver eps ms = Some eps1
    \<and> recv_all ipc_take k ns eps1 = (map2 (\<lambda>n (m, f). (take n m, f)) ns (addressed_to k ms), eps2)
    \<and> ipc_pending eps2 k = Some []"
  by (rule ipc.fifo [OF assms])

theorem ipc_fifo_witness:
  "let eps = ipc_init_process 2 (ipc_init_process 1 None);
       ms = [(1, 2, [10, 11, 12]), (2, 1, [99]), (1, 2, [20])]
   in \<exists>eps1 eps2. send_all ipc_deliver eps ms = Some eps1
      \<and> recv_all ipc_take 2 [2, 2] eps1 = ([([10, 11], 1), ([20], 1)], eps2)
      \<and> ipc_pending eps2 2 = Some []"
proof -
  let ?eps = "ipc_init_process 2 (ipc_init_process 1 None)"
  let ?ms = "[(1, 2, [10, 11, 12]), (2, 1, [99]), (1, 2, [20])] :: (usize \<times> usize \<times> bytes) list"
  have "ipc_pending ?eps t \<noteq> None" if "(f, t, m) \<in> set ?ms" for f t m
    using that by (auto simp: ipc_pending_init)
  moreover have "ipc_pending ?eps 2 = Some []" by (simp add: ipc_pending_init)
  ultimately have "\<exists>eps1 eps2. send_all ipc_deliver ?eps ?ms = Some eps1
    \<and> recv_all ipc_take 2 [2, 2] eps1
        = (map2 (\<lambda>n (m, f). (take n m, f)) [2, 2] (addressed_to 2 ?ms), eps2)
    \<and> ipc_pending eps2 2 = Some []"
    by (rule ipc_fifo) simp_all
  then show ?thesis by (simp add: numeral_2_eq_2)
qed

text \<open>
  Receiving, on every branch: with nothing pending (or no endpoint) the answer is
  \<^verbatim>\<open>WouldBlock\<close> and neither the buffer nor any queue changes; otherwise the oldest message is removed, the
  returned length is the smaller of message and buffer length, that many bytes are copied to the front of the
  buffer and the rest of the buffer is untouched. The part of the message that does not fit is lost.
\<close>

theorem ipc_recv_functional:
  "case ipc_pending eps pid of
     Some ((m, f) # q) \<Rightarrow>
       (\<exists>eps'. ipc_recv pid out eps =
          (Inr (min (length m) (length (out_buf out))),
           \<lparr>out_buf = take (length (out_buf out)) m @ drop (length m) (out_buf out),
            out_sender = f, out_cap = 0\<rparr>, eps')
        \<and> ipc_pending eps' = (ipc_pending eps)(pid \<mapsto> q))
   | _ \<Rightarrow> ipc_recv pid out eps = (Inl WouldBlock, out, eps)"
  by (auto simp: ipc_recv_empty intro: ipc_recv_ready split: option.split list.split)

text \<open>
  Sending, on every branch: a handle without an endpoint is answered \<^verbatim>\<open>NotFound\<close> and changes
  nothing; otherwise the message with its sender is appended to the queue of exactly that endpoint. In both cases
  the capability argument has no influence.
\<close>

theorem ipc_send_functional:
  "case ipc_pending eps t of
     None \<Rightarrow> ipc_send f t m c eps = (Inl AxError.NotFound, eps)
   | Some q \<Rightarrow> (\<exists>eps'. (\<forall>c. ipc_send f t m c eps = (Inr (), eps'))
        \<and> ipc_pending eps' = (ipc_pending eps)(t \<mapsto> q @ [(m, f)]))"
  by (auto simp: ipc_send_pending ipc_pending_push split: option.split)



text \<open>
  The message header is a faithful fixed-width encoding: a buffer parses to a header exactly when it has at
  least 8 bytes and these are the encoding of that header.
\<close>

theorem header_codec:
  "header_from_bytes buf = Some h \<longleftrightarrow> 8 \<le> length buf \<and> take 8 buf = header_to_bytes h"
proof
  assume "header_from_bytes buf = Some h"
  then show "8 \<le> length buf \<and> take 8 buf = header_to_bytes h"
    using header_to_from by (auto simp: header_from_bytes_def split: if_splits)
next
  assume "8 \<le> length buf \<and> take 8 buf = header_to_bytes h"
  then show "header_from_bytes buf = Some h"
    using header_from_to [of h "[]"] by (simp add: header_from_bytes_take [of buf])
qed

end
