(* ===== verification/Process.thy ===== *)
theory Process
  imports Registry Ipc
begin

text \<open>
  Processes: the lifecycle table and identifier allocation of \<^verbatim>\<open>ProcessSupervisor\<close>
  (\<^verbatim>\<open>kernel/mene-kernel/src/process/lifecycle.rs\<close>) and the process table entry of
  \<^verbatim>\<open>kernel/mene-kernel/src/process/mod.rs\<close>. The lifecycle operations are shown to refine a plain map
  from process identifiers to states.
\<close>

section \<open>Lifecycles\<close>

datatype ProcessState = Created | Ready | Running | Exited | Faulted

record ProcessLifecycle =
  lc_pid :: usize
  lc_state :: ProcessState
  exit_code :: "32 word option"

definition lifecycle_new :: "usize \<Rightarrow> ProcessLifecycle" where
  "lifecycle_new pid = \<lparr>lc_pid = pid, lc_state = Created, exit_code = None\<rparr>"

definition transition_to :: "ProcessState \<Rightarrow> ProcessLifecycle \<Rightarrow> ProcessLifecycle" where
  "transition_to s l = l\<lparr>lc_state := s\<rparr>"

definition mark_exited :: "32 word \<Rightarrow> ProcessLifecycle \<Rightarrow> ProcessLifecycle" where
  "mark_exited code l = l\<lparr>lc_state := Exited, exit_code := Some code\<rparr>"

definition mark_faulted :: "ProcessLifecycle \<Rightarrow> ProcessLifecycle" where
  "mark_faulted l = l\<lparr>lc_state := Faulted\<rparr>"

section \<open>The supervisor\<close>

text \<open>The statics \<^verbatim>\<open>NEXT_PID\<close>, \<^verbatim>\<open>LIFECYCLE_TABLE\<close> and \<^verbatim>\<open>SERVICE_REGISTRY\<close>.\<close>

record Supervisor =
  next_pid :: usize
  lifecycle_table :: "(usize, ProcessLifecycle) btree"
  service_registry :: ServiceRegistry

definition supervisor_init :: Supervisor where
  "supervisor_init = \<lparr>next_pid = 1, lifecycle_table = [], service_registry = registry_new\<rparr>"

definition allocate_pid :: "Supervisor \<Rightarrow> usize \<times> Supervisor" where
  "allocate_pid sv = (next_pid sv, sv\<lparr>next_pid := next_pid sv + 1\<rparr>)"

definition generate_pid :: "Supervisor \<Rightarrow> usize \<times> Supervisor" where
  "generate_pid = allocate_pid"

definition register_process :: "usize \<Rightarrow> Supervisor \<Rightarrow> Supervisor" where
  "register_process pid sv =
     sv\<lparr>lifecycle_table := bt_insert pid (lifecycle_new pid) (lifecycle_table sv)\<rparr>"

definition transition_state :: "usize \<Rightarrow> ProcessState \<Rightarrow> Supervisor \<Rightarrow> Supervisor" where
  "transition_state pid s sv =
     sv\<lparr>lifecycle_table := bt_modify pid (transition_to s) (lifecycle_table sv)\<rparr>"

definition mark_process_exited :: "usize \<Rightarrow> 32 word \<Rightarrow> Supervisor \<Rightarrow> Supervisor" where
  "mark_process_exited pid code sv =
     sv\<lparr>lifecycle_table := bt_modify pid (mark_exited code) (lifecycle_table sv)\<rparr>"

definition mark_process_faulted :: "usize \<Rightarrow> Supervisor \<Rightarrow> Supervisor" where
  "mark_process_faulted pid sv =
     sv\<lparr>lifecycle_table := bt_modify pid mark_faulted (lifecycle_table sv)\<rparr>"

definition get_state :: "usize \<Rightarrow> Supervisor \<Rightarrow> ProcessState option" where
  "get_state pid sv = map_option lc_state (bt_get (lifecycle_table sv) pid)"

definition cleanup_process :: "usize \<Rightarrow> Supervisor \<Rightarrow> Supervisor" where
  "cleanup_process pid sv = sv\<lparr>lifecycle_table := bt_remove pid (lifecycle_table sv)\<rparr>"

definition register_service ::
  "bytes \<Rightarrow> usize \<Rightarrow> ServiceHandle \<Rightarrow> Supervisor \<Rightarrow> (RegistryError + unit) \<times> Supervisor" where
  "register_service n pid h sv =
     (case register (service_registry sv) n pid h of (res, r) \<Rightarrow> (res, sv\<lparr>service_registry := r\<rparr>))"

definition lookup_service :: "bytes \<Rightarrow> Supervisor \<Rightarrow> RegistryError + ServiceHandle" where
  "lookup_service n sv = lookup (service_registry sv) n"

definition unregister_service :: "bytes \<Rightarrow> Supervisor \<Rightarrow> (RegistryError + unit) \<times> Supervisor" where
  "unregister_service n sv =
     (case unregister (service_registry sv) n of (res, r) \<Rightarrow> (res, sv\<lparr>service_registry := r\<rparr>))"

lemmas supervisor_defs =
  register_process_def transition_state_def mark_process_exited_def mark_process_faulted_def
  cleanup_process_def get_state_def

section \<open>Process table entries\<close>

text \<open>
  Address spaces are shared (\<^verbatim>\<open>Arc<Mutex<AddrSpace>>\<close>) between the process table and the task that runs in
  them, so an entry holds the index of its address space in the kernel's address-space heap.
\<close>

type_synonym as_ref = nat

record ProcessInfo =
  app_path :: bytes
  aspace :: as_ref
  cspace :: "(usize, Capability) btree"
  local_endpoint :: ep_ref

type_synonym process_table = "(usize, ProcessInfo) btree"

section \<open>Sequences of lifecycle operations\<close>

datatype lc_op =
    OpRegister usize | OpTransition usize ProcessState | OpExited usize "32 word"
  | OpFaulted usize | OpCleanup usize

primrec lc_apply :: "lc_op \<Rightarrow> Supervisor \<Rightarrow> Supervisor" where
  "lc_apply (OpRegister p) sv = register_process p sv"
| "lc_apply (OpTransition p s) sv = transition_state p s sv"
| "lc_apply (OpExited p c) sv = mark_process_exited p c sv"
| "lc_apply (OpFaulted p) sv = mark_process_faulted p sv"
| "lc_apply (OpCleanup p) sv = cleanup_process p sv"

text \<open>The abstract lifecycle: a map from identifiers to states.\<close>

definition set_if_known :: "usize \<Rightarrow> ProcessState \<Rightarrow> (usize \<rightharpoonup> ProcessState) \<Rightarrow> (usize \<rightharpoonup> ProcessState)" where
  "set_if_known p s m = (if m p = None then m else m(p \<mapsto> s))"

primrec lc_spec :: "lc_op \<Rightarrow> (usize \<rightharpoonup> ProcessState) \<Rightarrow> (usize \<rightharpoonup> ProcessState)" where
  "lc_spec (OpRegister p) m = m(p \<mapsto> Created)"
| "lc_spec (OpTransition p s) m = set_if_known p s m"
| "lc_spec (OpExited p c) m = set_if_known p Exited m"
| "lc_spec (OpFaulted p) m = set_if_known p Faulted m"
| "lc_spec (OpCleanup p) m = m(p := None)"

definition states_of :: "Supervisor \<Rightarrow> (usize \<rightharpoonup> ProcessState)" where
  "states_of sv = (\<lambda>p. get_state p sv)"

lemma states_modify:
  assumes "\<And>l. lc_state (f l) = s"
  shows "states_of (sv\<lparr>lifecycle_table := bt_modify p f (lifecycle_table sv)\<rparr>)
    = set_if_known p s (states_of sv)"
  using assms by (auto simp: states_of_def set_if_known_def get_state_def fun_eq_iff)

lemma lc_apply_refines: "states_of (lc_apply op sv) = lc_spec op (states_of sv)"
proof (cases op)
  case (OpRegister p)
  then show ?thesis
    by (auto simp: states_of_def supervisor_defs lifecycle_new_def fun_eq_iff)
next
  case (OpCleanup p)
  then show ?thesis by (auto simp: states_of_def supervisor_defs fun_eq_iff)
qed (simp_all add: supervisor_defs states_modify transition_to_def mark_exited_def mark_faulted_def)

lemma lc_apply_sorted: "bt_sorted (lifecycle_table sv) \<Longrightarrow> bt_sorted (lifecycle_table (lc_apply op sv))"
  by (cases op) (simp_all add: supervisor_defs)

section \<open>Identifier allocation\<close>

fun allocate_pids :: "nat \<Rightarrow> Supervisor \<Rightarrow> usize list \<times> Supervisor" where
  "allocate_pids 0 sv = ([], sv)"
| "allocate_pids (Suc n) sv =
     (case allocate_pid sv of (p, sv1) \<Rightarrow>
        (case allocate_pids n sv1 of (ps, sv2) \<Rightarrow> (p # ps, sv2)))"

lemma allocate_pids_eq:
  "fst (allocate_pids n sv) = map (\<lambda>i. next_pid sv + of_nat i) [0..<n]"
proof (induction n arbitrary: sv)
  case 0
  then show ?case by simp
next
  case (Suc n)
  have "map (\<lambda>i. next_pid sv + of_nat i) [0..<Suc n]
      = next_pid sv # map (\<lambda>i. next_pid sv + 1 + of_nat i) [0..<n]"
    by (simp add: map_upt_Suc del: upt_Suc)
  then show ?case
    using Suc [of "sv\<lparr>next_pid := next_pid sv + 1\<rparr>"]
    by (auto simp: allocate_pid_def split: prod.splits simp del: upt_Suc)
qed

lemma of_nat_inj_below:
  "i < 2 ^ 64 \<Longrightarrow> j < 2 ^ 64 \<Longrightarrow> (of_nat i :: usize) = of_nat j \<longleftrightarrow> i = j"
  by (simp add: word_of_nat_eq_iff take_bit_nat_eq_self)

section \<open>Properties\<close>

text \<open>
  C34. Identifiers are never reused before the 64-bit counter wraps: any \<open>n \<le> 2^64\<close> successive allocations are
  pairwise distinct, and the first \<open>2^64 - 1\<close> allocations after boot never return 0, the value the spawn path
  uses to report failure.
\<close>

theorem pids_unique:
  assumes "n \<le> 2 ^ 64"
  shows "distinct (fst (allocate_pids n sv))
    \<and> (n < 2 ^ 64 \<longrightarrow> 0 \<notin> set (fst (allocate_pids n supervisor_init)))"
proof
  show "distinct (fst (allocate_pids n sv))"
    unfolding allocate_pids_eq using assms
    by (simp add: distinct_map inj_on_def of_nat_inj_below)
  have "1 + of_nat i \<noteq> (0 :: usize)" if "i < n" "n < 2 ^ 64" for i
    using of_nat_inj_below [of "Suc i" 0] that by simp
  then show "n < 2 ^ 64 \<longrightarrow> 0 \<notin> set (fst (allocate_pids n supervisor_init))"
    unfolding allocate_pids_eq by (auto simp: supervisor_init_def)
qed

theorem pids_unique_witness: "fst (allocate_pids 3 supervisor_init) = [1, 2, 3] \<and> distinct [1, 2, 3 :: usize]"
  using pids_unique [of 3 supervisor_init]
  by (simp add: allocate_pids_eq supervisor_init_def upt_rec)

text \<open>
  C13. The lifecycle table refines a map from identifiers to states: after any sequence of supervisor calls,
  \<^verbatim>\<open>get_state\<close> answers what the corresponding map operations give. Marks and transitions of unknown processes have
  no effect, any transition of a known process is accepted (the supervisor enforces no transition order), and the
  table stays ordered by identifier.
\<close>

theorem lifecycle_refinement:
  assumes "bt_sorted (lifecycle_table sv)"
  shows "(\<lambda>p. get_state p (fold lc_apply ops sv)) = fold lc_spec ops (\<lambda>p. get_state p sv)
    \<and> bt_sorted (lifecycle_table (fold lc_apply ops sv))"
proof -
  have "states_of (fold lc_apply ops sv) = fold lc_spec ops (states_of sv)"
    by (induction ops arbitrary: sv) (simp_all add: lc_apply_refines)
  moreover have "bt_sorted (lifecycle_table (fold lc_apply ops sv))"
    using assms by (induction ops arbitrary: sv) (simp_all add: lc_apply_sorted)
  ultimately show ?thesis by (simp add: states_of_def)
qed

theorem lifecycle_refinement_witness:
  "get_state 7 (fold lc_apply [OpRegister 7, OpExited 7 0, OpTransition 7 Ready, OpFaulted 8] supervisor_init)
     = Some Ready"
proof -
  have "bt_sorted (lifecycle_table supervisor_init)" by (simp add: supervisor_init_def)
  from lifecycle_refinement [OF this, of "[OpRegister 7, OpExited 7 0, OpTransition 7 Ready, OpFaulted 8]"]
  show ?thesis by (auto dest!: fun_cong [of _ _ 7] simp: set_if_known_def)
qed

end
