(* ===== verification/Device.thy ===== *)
theory Device
  imports Process
begin

text \<open>
  The device model (\<^verbatim>\<open>kernel/mene-kernel/src/device/mod.rs\<close>): devices parsed from the flattened device
  tree, the driver registry with its probing loop, and the bootstrap capabilities given to a new process. The
  device-tree library is not part of the repository: its view of a node is the record \<open>fdt_node\<close>, and the tree of
  the running machine is a parameter.
\<close>

section \<open>Strings\<close>

fun str_contains :: "bytes \<Rightarrow> bytes \<Rightarrow> bool" where
  "str_contains pat [] \<longleftrightarrow> pat = []"
| "str_contains pat (x # xs) \<longleftrightarrow> take (length pat) (x # xs) = pat \<or> str_contains pat xs"

lemma str_contains_iff: "str_contains pat s \<longleftrightarrow> (\<exists>u v. s = u @ pat @ v)"
proof (induction s)
  case Nil
  then show ?case by auto
next
  case (Cons x xs)
  have "(\<exists>u v. x # xs = u @ pat @ v) \<longleftrightarrow> (\<exists>v. x # xs = pat @ v) \<or> (\<exists>u v. xs = u @ pat @ v)"
    by (metis append_Cons append_Nil list.exhaust list.inject)
  moreover have "(\<exists>v. x # xs = pat @ v) \<longleftrightarrow> take (length pat) (x # xs) = pat"
    by (metis append_eq_conv_conj append_take_drop_id)
  ultimately show ?case using Cons by simp
qed

section \<open>Devices\<close>

datatype DeviceBus = Platform | PciHost | UnknownBus

record MmioRegion =
  region_base :: usize
  region_size :: usize

record DeviceInfo =
  dev_name :: bytes
  bus :: DeviceBus
  compatibles :: "bytes list"
  mmio_regions :: "MmioRegion list"
  interrupts :: "usize list"

datatype DriverError = ProbeFailed

record DriverRegistration =
  driver_name :: bytes
  driver_matches :: "DeviceInfo \<Rightarrow> bool"
  driver_probe :: "DeviceInfo \<Rightarrow> DriverError + unit"

text \<open>The statics \<^verbatim>\<open>DEVICE_LIST\<close> and \<^verbatim>\<open>DRIVER_REGISTRY\<close>.\<close>

record device_model =
  device_list :: "DeviceInfo list"
  driver_registry :: "DriverRegistration list"

definition device_model_init :: device_model where
  "device_model_init = \<lparr>device_list = [], driver_registry = []\<rparr>"

text \<open>
  What the device-tree library reports of a node: its name, the strings of its \<^verbatim>\<open>compatible\<close> property if it has
  one, the value of \<^verbatim>\<open>status\<close> if it is a string, its register ranges and its interrupts.
\<close>

record fdt_node =
  fdt_name :: bytes
  fdt_compatible :: "bytes list option"
  fdt_status :: "bytes option"
  fdt_reg :: "(usize \<times> usize option) list"
  fdt_interrupts :: "usize list"

definition register_driver :: "DriverRegistration \<Rightarrow> device_model \<Rightarrow> device_model" where
  "register_driver d dm = dm\<lparr>driver_registry := driver_registry dm @ [d]\<rparr>"

definition devices :: "device_model \<Rightarrow> DeviceInfo list" where
  "devices dm = device_list dm"

definition pci_ecam_base :: "device_model \<Rightarrow> usize option" where
  "pci_ecam_base dm =
     (case find (\<lambda>d. bus d = PciHost) (device_list dm) of
        None \<Rightarrow> None
      | Some d \<Rightarrow> (case mmio_regions d of [] \<Rightarrow> None | r # _ \<Rightarrow> Some (region_base r)))"

definition detect_bus :: "bytes list \<Rightarrow> DeviceBus" where
  "detect_bus cs =
     (if \<exists>c \<in> set cs. str_contains (lit ''pci'') c \<or> str_contains (lit ''pcie'') c then PciHost
      else if \<exists>c \<in> set cs. str_contains (lit ''simple-bus'') c \<or> str_contains (lit ''virtio,mmio'') c
      then Platform
      else UnknownBus)"

definition parse_device_node :: "fdt_node \<Rightarrow> DeviceInfo option" where
  "parse_device_node node =
     (let cs = (case fdt_compatible node of Some c \<Rightarrow> c | None \<Rightarrow> []) in
      if cs = [] then None
      else if fdt_status node = Some (lit ''disabled'') then None
      else Some \<lparr>dev_name = fdt_name node,
                 bus = detect_bus cs,
                 compatibles = cs,
                 mmio_regions = map (\<lambda>(a, sz). \<lparr>region_base = a, region_size = (case sz of Some n \<Rightarrow> n | None \<Rightarrow> 0)\<rparr>)
                                    (fdt_reg node),
                 interrupts = fdt_interrupts node\<rparr>)"

definition virtio_mmio_driver :: DriverRegistration where
  "virtio_mmio_driver =
     \<lparr>driver_name = lit ''virtio-mmio'',
      driver_matches = (\<lambda>d. lit ''virtio,mmio'' \<in> set (compatibles d)),
      driver_probe = (\<lambda>d. Inr ())\<rparr>"

definition pl011_driver :: DriverRegistration where
  "pl011_driver =
     \<lparr>driver_name = lit ''pl011-uart'',
      driver_matches = (\<lambda>d. \<exists>c \<in> set (compatibles d). c = lit ''arm,pl011'' \<or> c = lit ''arm,sbsa-uart''),
      driver_probe = (\<lambda>d. Inr ())\<rparr>"

definition pci_host_driver :: DriverRegistration where
  "pci_host_driver =
     \<lparr>driver_name = lit ''generic-pci-host'',
      driver_matches = (\<lambda>d. bus d = PciHost),
      driver_probe = (\<lambda>d. Inr ())\<rparr>"

definition register_builtin_drivers :: "device_model \<Rightarrow> device_model" where
  "register_builtin_drivers dm =
     register_driver pci_host_driver (register_driver pl011_driver (register_driver virtio_mmio_driver dm))"

text \<open>
  Probing calls every matching driver on every device; its effect is the sequence of reports it logs: driver,
  device and whether the probe succeeded.
\<close>

type_synonym probe_report = "bytes \<times> bytes \<times> bool"

definition probe_registered_drivers :: "device_model \<Rightarrow> probe_report list" where
  "probe_registered_drivers dm =
     concat (map (\<lambda>dev. concat (map (\<lambda>drv.
       if driver_matches drv dev
       then (case driver_probe drv dev of
               Inr _ \<Rightarrow> [(driver_name drv, dev_name dev, True)]
             | Inl _ \<Rightarrow> [(driver_name drv, dev_name dev, False)])
       else []) (driver_registry dm))) (device_list dm))"

definition init_device_model :: "fdt_node list option \<Rightarrow> device_model \<Rightarrow> device_model \<times> probe_report list" where
  "init_device_model fdt dm =
     (let dm1 = register_builtin_drivers dm in
      case fdt of
        Some nodes \<Rightarrow>
          (let parsed = List.map_filter parse_device_node nodes;
               dm2 = dm1\<lparr>device_list := parsed\<rparr>
           in (dm2, probe_registered_drivers dm2))
      | None \<Rightarrow> (dm1, []))"

section \<open>Bootstrap capabilities\<close>

definition inject_service_endpoint_by_path ::
  "process_table \<Rightarrow> bytes \<Rightarrow> usize \<Rightarrow> (usize, Capability) btree \<Rightarrow> (usize, Capability) btree" where
  "inject_service_endpoint_by_path ptable service_path h cs =
     (case find (\<lambda>e. app_path (snd e) = service_path) ptable of
        Some e \<Rightarrow> bt_insert h (EndpointCap (local_endpoint (snd e))) cs
      | None \<Rightarrow> cs)"

definition has_virtio_in_dtb :: "device_model \<Rightarrow> bool" where
  "has_virtio_in_dtb dm \<longleftrightarrow>
     (\<exists>d \<in> set (devices dm). \<exists>c \<in> set (compatibles d). c = lit ''virtio,mmio'' \<or> str_contains (lit ''virtio'') c)"

definition inject_bootstrap_capabilities ::
  "device_model \<Rightarrow> bytes \<Rightarrow> process_table \<Rightarrow> (usize, Capability) btree \<Rightarrow> (usize, Capability) btree" where
  "inject_bootstrap_capabilities dm path ptable cs =
     (let cs = inject_service_endpoint_by_path ptable (lit ''/boot/serial'') 2 cs;
          cs = inject_service_endpoint_by_path ptable (lit ''/boot/vmm'') 3 cs;
          cs = inject_service_endpoint_by_path ptable (lit ''/boot/fs'') 5 cs;
          need_blk = (path \<noteq> lit ''/boot/serial'')
      in if has_virtio_in_dtb dm \<and> need_blk
         then inject_service_endpoint_by_path ptable (lit ''/boot/virtio_blk'') 4 cs
         else cs)"

text \<open>The endpoint of the first process, in ascending order of identifiers, that runs a given program.\<close>

definition provider :: "process_table \<Rightarrow> bytes \<Rightarrow> ep_ref option" where
  "provider ptable path = map_option (\<lambda>e. local_endpoint (snd e)) (find (\<lambda>e. app_path (snd e) = path) ptable)"

lemma get_inject:
  "bt_get (inject_service_endpoint_by_path ptable path h cs) k =
     (if k = h then (case provider ptable path of Some ep \<Rightarrow> Some (EndpointCap ep) | None \<Rightarrow> bt_get cs k)
      else bt_get cs k)"
  by (auto simp: inject_service_endpoint_by_path_def provider_def split: option.split)

lemma sorted_inject:
  "bt_sorted cs \<Longrightarrow> bt_sorted (inject_service_endpoint_by_path ptable path h cs)"
  by (simp add: inject_service_endpoint_by_path_def split: option.split)

lemma provider_Some:
  assumes "bt_sorted ptable" and "provider ptable path = Some ep"
  shows "\<exists>pid p. bt_get ptable pid = Some p \<and> app_path p = path \<and> local_endpoint p = ep"
proof -
  from assms(2) obtain e where e: "find (\<lambda>e. app_path (snd e) = path) ptable = Some e"
    "local_endpoint (snd e) = ep" by (auto simp: provider_def)
  from bt.find_value_Some [OF assms(1), of "\<lambda>p. app_path p = path"] e show ?thesis by blast
qed

lemma provider_None:
  assumes "bt_sorted ptable"
  shows "provider ptable path = None \<longleftrightarrow> (\<forall>pid p. bt_get ptable pid = Some p \<longrightarrow> app_path p \<noteq> path)"
  using bt.find_value_None [OF assms, of "\<lambda>p. app_path p = path"] by (simp add: provider_def)

section \<open>Properties\<close>


definition demo_tree :: "fdt_node list" where
  "demo_tree =
     [\<lparr>fdt_name = lit ''psci'', fdt_compatible = None, fdt_status = None, fdt_reg = [], fdt_interrupts = []\<rparr>,
      \<lparr>fdt_name = lit ''pl011'', fdt_compatible = Some [lit ''arm,pl011''], fdt_status = None,
       fdt_reg = [(0x9000000, Some 0x1000)], fdt_interrupts = [33]\<rparr>,
      \<lparr>fdt_name = lit ''pcie'', fdt_compatible = Some [lit ''pci-host-ecam-generic''], fdt_status = None,
       fdt_reg = [(0x4010000000, None)], fdt_interrupts = []\<rparr>]"


text \<open>
  C31. Bootstrap capabilities, completely: after injection, handles 2, 3 and 5 designate the endpoints of the
  lowest-numbered processes that run the serial, vmm and fs programs; handle 4 designates that of virtio_blk only if the device tree
  has a virtio device and the new process is not the serial driver; where there is no such process, and for every other handle, the
  capability space is unchanged. A capability that was injected always belongs to a live process of that program.
\<close>

theorem bootstrap_capabilities:
  assumes "bt_sorted ptable"
  shows "bt_get (inject_bootstrap_capabilities dm path ptable cs) k =
      (let svc = (if k = 2 then Some (lit ''/boot/serial'') else if k = 3 then Some (lit ''/boot/vmm'')
                  else if k = 5 then Some (lit ''/boot/fs'')
                  else if k = 4 \<and> has_virtio_in_dtb dm \<and> path \<noteq> lit ''/boot/serial'' then Some (lit ''/boot/virtio_blk'')
                  else None)
       in case svc of
            None \<Rightarrow> bt_get cs k
          | Some s \<Rightarrow> (case provider ptable s of Some ep \<Rightarrow> Some (EndpointCap ep) | None \<Rightarrow> bt_get cs k))
    \<and> (\<forall>s ep. provider ptable s = Some ep \<longrightarrow>
         (\<exists>pid p. bt_get ptable pid = Some p \<and> app_path p = s \<and> local_endpoint p = ep))"
  using provider_Some [OF assms]
  by (auto simp: inject_bootstrap_capabilities_def Let_def get_inject split: option.split)

theorem bootstrap_capabilities_witness:
  "bt_get (inject_bootstrap_capabilities device_model_init (lit ''/boot/fs'')
      [(2, \<lparr>app_path = lit ''/boot/serial'', aspace = 0, cspace = [], local_endpoint = 9\<rparr>)] []) 2
     = Some (EndpointCap 9)"
proof -
  let ?pt = "[(2, \<lparr>app_path = lit ''/boot/serial'', aspace = 0, cspace = [], local_endpoint = 9\<rparr>)] :: process_table"
  have "bt_sorted ?pt" by (simp add: bt_sorted_def)
  from bootstrap_capabilities [OF this, of device_model_init "lit ''/boot/fs''" "[]" 2] show ?thesis
    by (simp add: provider_def)
qed

end
