(* ===== verification/Memory.thy ===== *)
theory Memory
  imports Config
begin

text \<open>
  Address-space operations of the kernel (\<^verbatim>\<open>kernel/mene-memory/src/mmap.rs\<close>). The address-space type, its
  operations, the page allocator, the address translation and the alignment helpers belong to ArceOS crates that are not
  part of the repository: they are the fields of the parameter \<open>mm\<close>, over an abstract address space \<open>'as\<close> and an
  abstract allocator state \<open>'g\<close>. A mutating operation returns whether it succeeded and the new state.
\<close>

datatype MappingFlag = USER | READ | WRITE | EXECUTE | DEVICE

definition PAGE_SIZE_4K :: usize where [simp]: "PAGE_SIZE_4K = 4096"

record ('as, 'g) mm =
  align_up_4k :: "usize \<Rightarrow> usize"
  align_down_4k :: "usize \<Rightarrow> usize"
  align_offset_4k :: "usize \<Rightarrow> usize"
  virt_to_phys :: "usize \<Rightarrow> usize"
  phys_to_virt :: "usize \<Rightarrow> usize"
  new_user_aspace :: "usize \<Rightarrow> usize \<Rightarrow> 'as option"
  find_free_area :: "'as \<Rightarrow> usize \<Rightarrow> usize \<Rightarrow> usize \<times> usize \<Rightarrow> usize option"
  map_alloc :: "usize \<Rightarrow> usize \<Rightarrow> MappingFlag set \<Rightarrow> bool \<Rightarrow> 'as \<Rightarrow> bool \<times> 'as"
  map_linear :: "usize \<Rightarrow> usize \<Rightarrow> usize \<Rightarrow> MappingFlag set \<Rightarrow> 'as \<Rightarrow> bool \<times> 'as"
  unmap :: "usize \<Rightarrow> usize \<Rightarrow> 'as \<Rightarrow> bool \<times> 'as"
  query_page :: "'as \<Rightarrow> usize \<Rightarrow> usize option"
  aspace_write :: "usize \<Rightarrow> bytes \<Rightarrow> 'as \<Rightarrow> bool \<times> 'as"
  alloc_pages :: "usize \<Rightarrow> usize \<Rightarrow> 'g \<Rightarrow> usize option \<times> 'g"
  dealloc_pages :: "usize \<Rightarrow> usize \<Rightarrow> 'g \<Rightarrow> 'g"

definition user_limit :: "arch_config \<Rightarrow> usize \<times> usize" where
  "user_limit c = (USER_SPACE_BASE c, USER_STACK_TOP c - USER_STACK_SIZE c)"

definition do_mmap :: "arch_config \<Rightarrow> ('as, 'g) mm \<Rightarrow> usize \<Rightarrow> usize \<Rightarrow> 'as \<Rightarrow> usize \<times> 'as" where
  "do_mmap c m addr len a =
     (let size = align_up_4k m len;
          limit = user_limit c;
          hints = max addr 0x40000000
      in case find_free_area m a hints size limit of
           Some vaddr \<Rightarrow>
             (case map_alloc m vaddr size {USER, READ, WRITE} True a of
                (True, a') \<Rightarrow> (vaddr, a')
              | (False, a') \<Rightarrow> (all_ones, a'))
         | None \<Rightarrow> (all_ones, a))"

definition do_map_device :: "('as, 'g) mm \<Rightarrow> usize \<Rightarrow> usize \<Rightarrow> 'as \<Rightarrow> usize \<times> 'as" where
  "do_map_device m paddr len a =
     (let size = align_up_4k m len in
      case map_linear m paddr paddr size {USER, READ, WRITE, DEVICE} a of
        (True, a') \<Rightarrow> (paddr, a')
      | (False, a') \<Rightarrow> (all_ones, a'))"

definition do_dma_alloc ::
  "arch_config \<Rightarrow> ('as, 'g) mm \<Rightarrow> usize \<Rightarrow> 'as \<Rightarrow> 'g \<Rightarrow> (usize \<times> usize) option \<times> 'as \<times> 'g" where
  "do_dma_alloc c m len a g =
     (if len = 0 then (None, a, g)
      else
        let size = align_up_4k m len;
            num_pages = size div PAGE_SIZE_4K
        in case alloc_pages m num_pages PAGE_SIZE_4K g of
             (None, g1) \<Rightarrow> (None, a, g1)
           | (Some kern_vaddr, g1) \<Rightarrow>
               (let paddr = virt_to_phys m kern_vaddr in
                case find_free_area m a 0x40000000 size (user_limit c) of
                  None \<Rightarrow> (None, a, dealloc_pages m kern_vaddr num_pages g1)
                | Some user_vaddr \<Rightarrow>
                    (case map_linear m user_vaddr paddr size {USER, READ, WRITE} a of
                       (False, a') \<Rightarrow> (None, a', dealloc_pages m kern_vaddr num_pages g1)
                     | (True, a') \<Rightarrow> (Some (user_vaddr, paddr), a', g1))))"

definition do_dma_dealloc ::
  "('as, 'g) mm \<Rightarrow> usize \<Rightarrow> usize \<Rightarrow> usize \<Rightarrow> 'as \<Rightarrow> 'g \<Rightarrow> bool \<times> 'as \<times> 'g" where
  "do_dma_dealloc m user_vaddr paddr pages a g =
     (if pages = 0 then (True, a, g)
      else
        let size = sat_mul pages PAGE_SIZE_4K in
        if size = 0 then (False, a, g)
        else case unmap m user_vaddr size a of
               (False, a') \<Rightarrow> (False, a', g)
             | (True, a') \<Rightarrow> (True, a', dealloc_pages m (phys_to_virt m paddr) pages g))"

definition do_virt_to_phys :: "('as, 'g) mm \<Rightarrow> usize \<Rightarrow> 'as \<Rightarrow> usize option" where
  "do_virt_to_phys m user_vaddr a =
     (let page_base = align_down_4k m user_vaddr;
          page_off = align_offset_4k m user_vaddr
      in map_option (\<lambda>paddr. paddr + page_off) (query_page m a page_base))"

section \<open>Documented behaviour of the ArceOS interfaces\<close>

text \<open>The alignment helpers round to multiples of the 4096-byte page.\<close>

definition aligns_pages :: "('as, 'g) mm \<Rightarrow> bool" where
  "aligns_pages m \<longleftrightarrow>
     (\<forall>x. align_down_4k m x = x AND NOT 0xFFF \<and> align_offset_4k m x = x AND 0xFFF
        \<and> align_up_4k m x = (x + 0xFFF) AND NOT 0xFFF)"

text \<open>
  An address space has a set of mapped addresses: \<^verbatim>\<open>find_free_area\<close> returns an unmapped range inside the limit,
  and a successful mapping adds exactly its range.
\<close>

definition range_of :: "usize \<Rightarrow> usize \<Rightarrow> nat set" where
  "range_of v sz = {unat v ..< unat v + unat sz}"

definition maps_ranges :: "('as, 'g) mm \<Rightarrow> ('as \<Rightarrow> nat set) \<Rightarrow> bool" where
  "maps_ranges m mapped \<longleftrightarrow>
     (\<forall>a hint sz lo hi v. find_free_area m a hint sz (lo, hi) = Some v \<longrightarrow>
        range_of v sz \<inter> mapped a = {} \<and> unat lo \<le> unat v \<and> unat v + unat sz \<le> unat hi)
     \<and> (\<forall>v sz fl pop a a'. map_alloc m v sz fl pop a = (True, a') \<longrightarrow> mapped a' = mapped a \<union> range_of v sz)
     \<and> (\<forall>v sz fl pop a a'. map_alloc m v sz fl pop a = (False, a') \<longrightarrow> mapped a' = mapped a)
     \<and> (\<forall>v p sz fl a a'. map_linear m v p sz fl a = (True, a') \<longrightarrow> mapped a' = mapped a \<union> range_of v sz)
     \<and> (\<forall>v p sz fl a a'. map_linear m v p sz fl a = (False, a') \<longrightarrow> mapped a' = mapped a)"

text \<open>The allocator keeps a set of outstanding allocations (first page and number of pages).\<close>

definition allocates :: "('as, 'g) mm \<Rightarrow> ('g \<Rightarrow> (usize \<times> usize) set) \<Rightarrow> bool" where
  "allocates m held \<longleftrightarrow>
     (\<forall>n al g p g'. alloc_pages m n al g = (Some p, g') \<longrightarrow> (p, n) \<notin> held g \<and> held g' = insert (p, n) (held g))
     \<and> (\<forall>n al g g'. alloc_pages m n al g = (None, g') \<longrightarrow> held g' = held g)
     \<and> (\<forall>p n g. held (dealloc_pages m p n g) = held g - {(p, n)})"

lemma align_up_unat:
  assumes "aligns_pages m" and "unat x \<le> 2 ^ 64 - 4096"
  shows "unat (align_up_4k m x) = 4096 * ((unat x + 4095) div 4096)"
proof -
  have nowrap: "unat (x + 0xFFF) = unat x + 4095"
    using assms(2) by (simp add: unat_word_ariths)
  have "unat (align_up_4k m x) = unat ((x + 0xFFF) AND NOT 0xFFF)"
    using assms(1) by (simp add: aligns_pages_def)
  also have "\<dots> = 4096 * ((unat x + 4095) div 4096)"
    by (simp only: unat_page_base nowrap)
  finally show ?thesis .
qed

subsection \<open>An instance\<close>

text \<open>
  The documented behaviour is satisfiable: an address space that is its set of mapped addresses and an allocator
  that hands out one fixed block.
\<close>

definition demo_mm :: "(nat set, (usize \<times> usize) set) mm" where
  "demo_mm =
     \<lparr>align_up_4k = (\<lambda>x. (x + 0xFFF) AND NOT 0xFFF), align_down_4k = (\<lambda>x. x AND NOT 0xFFF),
      align_offset_4k = (\<lambda>x. x AND 0xFFF), virt_to_phys = (\<lambda>v. v - 0x1000), phys_to_virt = (\<lambda>p. p + 0x1000),
      new_user_aspace = (\<lambda>b s. Some {}),
      find_free_area = (\<lambda>a h s (lo, hi). if range_of h s \<inter> a = {} \<and> unat lo \<le> unat h \<and> unat h + unat s \<le> unat hi
                                      then Some h else None),
      map_alloc = (\<lambda>v s fl pop a. (True, a \<union> range_of v s)),
      map_linear = (\<lambda>v p s fl a. (True, a \<union> range_of v s)),
      unmap = (\<lambda>v s a. (True, a - range_of v s)),
      query_page = (\<lambda>a v. if unat v \<in> a then Some (v + 0x8000) else None),
      aspace_write = (\<lambda>v bs a. (True, a)),
      alloc_pages = (\<lambda>n al g. if (0x80000000, n) \<in> g then (None, g)
                               else (Some 0x80000000, insert (0x80000000, n) g)),
      dealloc_pages = (\<lambda>p n g. g - {(p, n)})\<rparr>"

lemma demo_mm_laws:
  "aligns_pages demo_mm" "maps_ranges demo_mm (\<lambda>a. a)" "allocates demo_mm (\<lambda>g. g)"
  by (auto simp: aligns_pages_def maps_ranges_def allocates_def demo_mm_def split: if_splits)

section \<open>Properties\<close>

lemma maps_rangesD:
  assumes "maps_ranges m mapped"
  shows "find_free_area m a hint sz (lo, hi) = Some v \<Longrightarrow>
      range_of v sz \<inter> mapped a = {} \<and> unat lo \<le> unat v \<and> unat v + unat sz \<le> unat hi"
    and "map_alloc m v sz fl pop a = (ok, a') \<Longrightarrow>
      mapped a' = (if ok then mapped a \<union> range_of v sz else mapped a)"
    and "map_linear m v p sz fl a = (ok, a') \<Longrightarrow>
      mapped a' = (if ok then mapped a \<union> range_of v sz else mapped a)"
proof -
  show "find_free_area m a hint sz (lo, hi) = Some v \<Longrightarrow>
      range_of v sz \<inter> mapped a = {} \<and> unat lo \<le> unat v \<and> unat v + unat sz \<le> unat hi"
    using assms unfolding maps_ranges_def by metis
  show "map_alloc m v sz fl pop a = (ok, a') \<Longrightarrow>
      mapped a' = (if ok then mapped a \<union> range_of v sz else mapped a)"
    using assms unfolding maps_ranges_def by (cases ok) simp_all
  show "map_linear m v p sz fl a = (ok, a') \<Longrightarrow>
      mapped a' = (if ok then mapped a \<union> range_of v sz else mapped a)"
    using assms unfolding maps_ranges_def by (cases ok) simp_all
qed

lemma allocatesD:
  assumes "allocates m held"
  shows "alloc_pages m n al g = (Some p, g') \<Longrightarrow> (p, n) \<notin> held g \<and> held g' = insert (p, n) (held g)"
    and "alloc_pages m n al g = (None, g') \<Longrightarrow> held g' = held g"
    and "held (dealloc_pages m p n g) = held g - {(p, n)}"
  using assms by (simp_all add: allocates_def)





text \<open>
  C30. Releasing what was allocated gives everything back: if address translation is invertible, freeing a
  DMA buffer with the addresses it was allocated with and its number of pages restores the set of
  outstanding blocks. (The physical address is taken from the caller as it is: nothing checks that it belongs
  to the unmapped range.)
\<close>

theorem dma_roundtrip:
  assumes "aligns_pages m" and "allocates m held" and "unat len \<le> 2 ^ 64 - 4096"
    and "\<And>v. phys_to_virt m (virt_to_phys m v) = v"
    and "do_dma_alloc c m len a g = (Some (v, p), a1, g1)"
    and "do_dma_dealloc m v p (align_up_4k m len div 4096) a2 g1 = (True, a3, g3)"
  shows "held g3 = held g"
proof -
  let ?pages = "align_up_4k m len div PAGE_SIZE_4K"
  from assms(5) obtain kv where kv: "alloc_pages m ?pages PAGE_SIZE_4K g = (Some kv, g1)" "p = virt_to_phys m kv"
    and "len \<noteq> 0"
    by (auto simp: do_dma_alloc_def Let_def split: if_splits option.splits prod.splits bool.splits)
  from align_up_unat [OF assms(1,3)] \<open>len \<noteq> 0\<close> have "unat ?pages \<noteq> 0"
    by (simp add: unat_div unat_eq_0 [symmetric])
  then have "?pages \<noteq> 0" by (metis unat_0)
  with assms(6) have "g3 = dealloc_pages m (phys_to_virt m p) ?pages g1"
    by (auto simp: do_dma_dealloc_def Let_def split: if_splits prod.splits bool.splits)
  with kv assms(2,4) show ?thesis unfolding allocates_def by auto
qed

theorem dma_roundtrip_witness:
  "snd (snd (do_dma_dealloc demo_mm 0x40000000 0x7FFFF000 1 (range_of 0x40000000 4096) {(0x80000000, 1)})) = {}"
proof -
  have alloc: "do_dma_alloc aarch64 demo_mm 100 {} {} =
      (Some (0x40000000, 0x7FFFF000), range_of 0x40000000 4096, {(0x80000000, 1)})"
    by (simp add: do_dma_alloc_def demo_mm_def user_limit_def aarch64_def)
  have free: "do_dma_dealloc demo_mm 0x40000000 0x7FFFF000 (align_up_4k demo_mm 100 div 4096)
      (range_of 0x40000000 4096) {(0x80000000, 1)} = (True, {}, {})"
    by (simp add: do_dma_dealloc_def demo_mm_def sat_mul_def)
  have "phys_to_virt demo_mm (virt_to_phys demo_mm v) = v" for v by (simp add: demo_mm_def)
  from dma_roundtrip [OF demo_mm_laws(1,3) _ this alloc free] free show ?thesis by (simp add: demo_mm_def)
qed

text \<open>
  Address translation keeps the offset within the page: with page-aligned frames, a translated address
  has the same offset as the virtual address, and addresses of one page translate into one frame at
  the same distance.
\<close>

theorem virt_to_phys_offset:
  assumes "aligns_pages m" and "\<And>v f. query_page m a v = Some f \<Longrightarrow> unat f mod 4096 = 0"
    and "do_virt_to_phys m v a = Some p"
  shows "unat p mod 4096 = unat v mod 4096
    \<and> (\<forall>w. unat w div 4096 = unat v div 4096 \<longrightarrow> do_virt_to_phys m w a = Some (p + (w - v)))"
proof -
  have al: "align_down_4k m x = x AND NOT 0xFFF" "align_offset_4k m x = x AND 0xFFF" for x
    using assms(1) by (simp_all add: aligns_pages_def)
  from assms(3) obtain f where f: "query_page m a (v AND NOT 0xFFF) = Some f" and p: "p = f + (v AND 0xFFF)"
    by (auto simp: do_virt_to_phys_def Let_def al)
  have f0: "unat f mod 4096 = 0" by (rule assms(2) [OF f])
  have "unat p mod 4096 = (unat f + unat v mod 4096) mod 2 ^ 64 mod 4096"
    by (simp add: p unat_word_ariths unat_page_off)
  also have "\<dots> = (unat f + unat v mod 4096) mod 4096" by (simp add: mod_mod_cancel)
  also have "\<dots> = unat v mod 4096" using f0 by (simp add: mod_add_left_eq [symmetric])
  finally have off: "unat p mod 4096 = unat v mod 4096" .
  have "do_virt_to_phys m w a = Some (p + (w - v))" if "unat w div 4096 = unat v div 4096" for w
  proof -
    have base: "w AND NOT 0xFFF = v AND NOT 0xFFF"
      by (simp only: word_unat_eq_iff unat_page_base that)
    have "w - v = (w AND 0xFFF) - (v AND 0xFFF)"
      using page_split [of w] page_split [of v] base by (metis add_diff_cancel_left)
    then have "f + (w AND 0xFFF) = p + (w - v)" by (simp add: p)
    then show ?thesis using f base by (simp add: do_virt_to_phys_def Let_def al)
  qed
  with off show ?thesis by blast
qed

theorem virt_to_phys_offset_witness:
  "do_virt_to_phys demo_mm 0x1234 {0x1000} = Some 0x9234 \<and> unat (0x9234 :: usize) mod 4096 = unat (0x1234 :: usize) mod 4096"
proof -
  have run: "do_virt_to_phys demo_mm 0x1234 {0x1000} = Some 0x9234"
    by (simp add: do_virt_to_phys_def demo_mm_def)
  have "unat f mod 4096 = 0" if "query_page demo_mm {0x1000} v = Some f" for v f
  proof -
    have "unat v = unat (0x1000 :: usize)" and f: "f = v + 0x8000"
      using that by (auto simp: demo_mm_def split: if_splits)
    then have "v = 0x1000" by (simp only: word_unat_eq_iff)
    with f show ?thesis by simp
  qed
  from virt_to_phys_offset [OF demo_mm_laws(1) this run] run show ?thesis by simp
qed

end
