(* ===== verification/Task.thy ===== *)
theory Task
  imports Memory Utf8 Process
begin

text \<open>
  Tasks (\<^verbatim>\<open>kernel/mene-task/src/task.rs\<close>): the boot assets preloaded from the kernel file system, the initial
  user stack, loading of ELF images and the creation of tasks. The kernel file system and the ELF parser are
  not part of the repository: reading a file and the parsed view of an image are parameters. A kernel panic
  (\<^verbatim>\<open>unwrap\<close>, \<^verbatim>\<open>expect\<close>, an out-of-range slice) is the value \<open>None\<close>.
\<close>

section \<open>Boot assets\<close>

record assets =
  preloaded_elfs :: "bytes \<rightharpoonup> bytes"
  preloaded_boot_cfg :: bytes

definition assets_init :: assets where
  "assets_init = \<lparr>preloaded_elfs = Map.empty, preloaded_boot_cfg = []\<rparr>"

definition preload_paths :: "bytes list" where
  "preload_paths = [lit ''/boot/init'', lit ''/boot/serial'', lit ''/boot/virtio_blk'', lit ''/boot/fs'']"

fun preload_loop :: "(bytes \<Rightarrow> bytes option) \<Rightarrow> bytes list \<Rightarrow> (bytes \<rightharpoonup> bytes) \<Rightarrow> (bytes \<rightharpoonup> bytes)" where
  "preload_loop read [] cache = cache"
| "preload_loop read (p # ps) cache =
     (if cache p \<noteq> None then preload_loop read ps cache
      else case read p of
             Some data \<Rightarrow> preload_loop read ps (cache(p \<mapsto> data))
           | None \<Rightarrow> preload_loop read ps cache)"

definition preload_boot_assets :: "(bytes \<Rightarrow> bytes option) \<Rightarrow> assets \<Rightarrow> bool \<times> assets" where
  "preload_boot_assets read s =
     (case read (lit ''/boot/boot.toml'') of
        None \<Rightarrow> (False, s)
      | Some raw \<Rightarrow>
          (case from_utf8 raw of
             None \<Rightarrow> (False, s)
           | Some cfg \<Rightarrow>
               (let cache = preload_loop read preload_paths Map.empty
                in (cache (lit ''/boot/init'') \<noteq> None,
                    s\<lparr>preloaded_boot_cfg := cfg, preloaded_elfs := cache\<rparr>))))"

definition copy_boot_cfg_to :: "bytes \<Rightarrow> assets \<Rightarrow> nat \<times> bytes" where
  "copy_boot_cfg_to buf s =
     (let cfg = preloaded_boot_cfg s;
          n = min (length cfg) (length buf)
      in (n, blit buf 0 (take n cfg)))"

definition get_preloaded_elf :: "bytes \<Rightarrow> assets \<Rightarrow> bytes option" where
  "get_preloaded_elf path s = preloaded_elfs s path"

section \<open>The initial user stack\<close>

definition stack_words :: "usize \<Rightarrow> usize \<Rightarrow> usize list" where
  "stack_words argv0_ptr entry = [1, argv0_ptr, 0, 0, 6, 4096, 9, entry, 0, 0]"

definition stack_image :: "usize list \<Rightarrow> bytes" where
  "stack_image ws =
     foldl (\<lambda>raw (i, w). blit raw (i * 8) (to_le 8 w)) (replicate (10 * 8) 0) (enumerate 0 ws)"

definition init_linux_user_stack ::
  "('as, 'g) mm \<Rightarrow> usize \<Rightarrow> bytes \<Rightarrow> usize \<Rightarrow> 'as \<Rightarrow> (usize \<times> 'as) option" where
  "init_linux_user_stack m stack_top argv0 entry_point a =
     (let n = min (length argv0) (64 - 1);
          argv0_raw = (blit (replicate 64 0) 0 (take n argv0))[n := 0];
          argv0_ptr = stack_top - (of_nat n + 1)
      in case aspace_write m argv0_ptr (take (n + 1) argv0_raw) a of
           (False, _) \<Rightarrow> None
         | (True, a1) \<Rightarrow>
             (let raw = stack_image (stack_words argv0_ptr entry_point);
                  sp = (argv0_ptr - of_nat (length raw)) AND NOT 0x0f
              in case aspace_write m sp raw a1 of
                   (False, _) \<Rightarrow> None
                 | (True, a2) \<Rightarrow> Some (sp, a2)))"

section \<open>Loading and spawning\<close>

text \<open>
  What the ELF library reports of an image: the entry point and its program headers; \<open>ph_load\<close> is \<open>None\<close> where the
  header's type does not decode.
\<close>

record elf_ph =
  ph_load :: "bool option"
  ph_vaddr :: u64
  ph_memsz :: u64
  ph_offset :: u64
  ph_filesz :: u64

record elf_view =
  elf_entry :: u64
  elf_phs :: "elf_ph list"

definition load_segment :: "('as, 'g) mm \<Rightarrow> bytes \<Rightarrow> elf_ph \<Rightarrow> 'as \<Rightarrow> 'as option" where
  "load_segment m file p a =
     (case ph_load p of
        None \<Rightarrow> None
      | Some False \<Rightarrow> Some a
      | Some True \<Rightarrow>
          (let start = ph_vaddr p;
               vaddr = align_down_4k m start;
               vend = align_up_4k m (start + ph_memsz p);
               sz = vend - vaddr
           in case map_alloc m vaddr sz {USER, READ, WRITE, EXECUTE} True a of
                (False, _) \<Rightarrow> None
              | (True, a1) \<Rightarrow>
                  (let file_start = ph_offset p;
                       file_end = file_start + ph_filesz p
                   in if \<not> slice_ok (unat file_start) (unat file_end) file then None
                      else case aspace_write m start (slice (unat file_start) (unat file_end) file) a1 of
                             (False, _) \<Rightarrow> None
                           | (True, a2) \<Rightarrow> Some a2)))"

fun load_segments :: "('as, 'g) mm \<Rightarrow> bytes \<Rightarrow> elf_ph list \<Rightarrow> 'as \<Rightarrow> 'as option" where
  "load_segments m file [] a = Some a"
| "load_segments m file (p # ps) a =
     (case load_segment m file p a of None \<Rightarrow> None | Some a' \<Rightarrow> load_segments m file ps a')"

record task =
  t_pid :: usize
  t_path :: bytes
  t_entry :: usize
  t_sp :: usize
  t_aspace :: as_ref
  t_kstack :: nat

text \<open>The address-space heap and the tasks handed to the scheduler.\<close>

record 'as task_world =
  aspaces :: "'as list"
  tasks :: "task list"

definition spawn_task_from_elf ::
  "arch_config \<Rightarrow> ('as, 'g) mm \<Rightarrow> (bytes \<Rightarrow> elf_view option) \<Rightarrow> bytes \<Rightarrow> usize \<Rightarrow> bytes
     \<Rightarrow> 'as task_world \<Rightarrow> ((usize \<times> as_ref option) \<times> 'as task_world) option" where
  "spawn_task_from_elf c m elf_parse path pid file w =
     (case elf_parse file of
        None \<Rightarrow> None
      | Some elf \<Rightarrow>
          (case new_user_aspace m (USER_SPACE_BASE c) (USER_SPACE_SIZE c) of
             None \<Rightarrow> None
           | Some a0 \<Rightarrow>
               (case load_segments m file (elf_phs elf) a0 of
                  None \<Rightarrow> None
                | Some a1 \<Rightarrow>
                    (case map_alloc m (USER_STACK_TOP c - USER_STACK_SIZE c) (USER_STACK_SIZE c)
                            {USER, READ, WRITE} True a1 of
                       (False, _) \<Rightarrow> None
                     | (True, a2) \<Rightarrow>
                         (case init_linux_user_stack m (USER_STACK_TOP c) path (elf_entry elf) a2 of
                            None \<Rightarrow> None
                          | Some (user_sp, a3) \<Rightarrow>
                              (let r = length (aspaces w);
                                   t = \<lparr>t_pid = pid, t_path = path, t_entry = elf_entry elf, t_sp = user_sp,
                                        t_aspace = r, t_kstack = 8192 * 4\<rparr>
                               in Some ((pid, Some r),
                                        w\<lparr>aspaces := aspaces w @ [a3], tasks := tasks w @ [t]\<rparr>)))))))"

definition spawn_task ::
  "arch_config \<Rightarrow> ('as, 'g) mm \<Rightarrow> (bytes \<Rightarrow> elf_view option) \<Rightarrow> assets \<Rightarrow> bytes \<Rightarrow> usize
     \<Rightarrow> 'as task_world \<Rightarrow> ((usize \<times> as_ref option) \<times> 'as task_world) option" where
  "spawn_task c m elf_parse s path pid w =
     (case get_preloaded_elf path s of
        Some file \<Rightarrow> spawn_task_from_elf c m elf_parse path pid file w
      | None \<Rightarrow> Some ((0, None), w))"

definition spawn_task_from_bytes ::
  "arch_config \<Rightarrow> ('as, 'g) mm \<Rightarrow> (bytes \<Rightarrow> elf_view option) \<Rightarrow> bytes \<Rightarrow> bytes \<Rightarrow> usize
     \<Rightarrow> 'as task_world \<Rightarrow> ((usize \<times> as_ref option) \<times> 'as task_world) option" where
  "spawn_task_from_bytes c m elf_parse path file pid w = spawn_task_from_elf c m elf_parse path pid file w"

text \<open>
  The body of the task: it returns to user mode until it stops for a reason other than a system call or an
  interrupt. The reasons are what the hardware reports; the handler is the system-call entry.
\<close>

datatype ReturnReason = Syscall | PageFault usize | Interrupt | OtherReason

fun task_loop :: "('s \<Rightarrow> 's) \<Rightarrow> ReturnReason list \<Rightarrow> 's \<Rightarrow> bool \<times> 's" where
  "task_loop handler [] s = (True, s)"
| "task_loop handler (Syscall # rs) s = task_loop handler rs (handler s)"
| "task_loop handler (PageFault addr # rs) s = (False, s)"
| "task_loop handler (Interrupt # rs) s = task_loop handler rs s"
| "task_loop handler (OtherReason # rs) s = (False, s)"

section \<open>Lemmas\<close>

lemma preload_loop_eq:
  "preload_loop read ps cache = (\<lambda>p. case cache p of Some d \<Rightarrow> Some d | None \<Rightarrow> if p \<in> set ps then read p else None)"
proof (induction ps arbitrary: cache)
  case Nil
  then show ?case by (auto split: option.split)
next
  case (Cons q ps)
  show ?case by (cases "cache q"; cases "read q") (auto simp: Cons fun_eq_iff split: option.split)
qed

lemma stack_image_eq:
  "stack_image (stack_words p e) = concat (map (to_le 8) (stack_words p e))"
  by (simp add: stack_image_def stack_words_def blit_def)

lemma length_stack_image [simp]: "length (stack_image (stack_words p e)) = 80"
  unfolding stack_image_eq by (simp add: stack_words_def)

lemma slice_concat_words:
  "i < length ws \<Longrightarrow> slice (8 * i) (8 * i + 8) (concat (map (to_le 8) ws)) = to_le 8 (ws ! i)"
proof (induction ws arbitrary: i)
  case Nil
  then show ?case by simp
next
  case (Cons w ws)
  then show ?case by (cases i) (auto simp: slice_def)
qed

lemma stack_word_at:
  "i < 10 \<Longrightarrow> from_le (slice (8 * i) (8 * i + 8) (stack_image (stack_words p e))) = stack_words p e ! i"
  unfolding stack_image_eq by (subst slice_concat_words) (simp_all add: stack_words_def)

lemma argv0_bytes:
  "n = min (length s) 63 \<Longrightarrow> take (n + 1) ((blit (replicate 64 0) 0 (take n s))[n := 0]) = take n s @ [0]"
  by (simp add: blit_def list_update_append take_Suc_conv_app_nth)

lemma stack_pointer_bounds:
  assumes "1 \<le> k" "k \<le> 64" "160 \<le> unat stk"
  defines "ptr \<equiv> (stk :: usize) - of_nat k"
  defines "sp \<equiv> (ptr - 80) AND NOT 0x0f"
  shows "16 dvd unat sp" and "unat ptr + k = unat stk" and "unat sp + 80 \<le> unat ptr" and "unat stk < unat sp + 160"
proof -
  have k: "unat (of_nat k :: usize) = k" using assms(2) by (simp add: unat_of_nat)
  have "of_nat k \<le> stk" using assms k by (simp add: word_le_nat_alt)
  then have p: "unat ptr = unat stk - k" by (simp add: ptr_def unat_sub k)
  then have "80 \<le> ptr" using assms by (simp add: word_le_nat_alt)
  then have q: "unat (ptr - 80) = unat stk - k - 80" by (simp add: unat_sub p)
  have sp: "unat sp = 16 * (unat (ptr - 80) div 16)"
    using unat_and_not_mask [of "ptr - 80" 4] by (simp add: sp_def mask_eq_exp_minus_1)
  show "16 dvd unat sp" by (simp add: sp)
  show "unat ptr + k = unat stk" using p assms by simp
  show "unat sp + 80 \<le> unat ptr" "unat stk < unat sp + 160"
    using assms p q sp by linarith+
qed

lemma init_stack_Some:
  assumes "init_linux_user_stack m stk argv0 entry a = Some (sp, a2)"
  defines "n \<equiv> min (length argv0) 63"
  defines "ptr \<equiv> stk - of_nat (n + 1)"
  shows "sp = (ptr - 80) AND NOT 0x0f
    \<and> (\<exists>a1. aspace_write m ptr (take n argv0 @ [0]) a = (True, a1)
         \<and> aspace_write m sp (stack_image (stack_words ptr entry)) a1 = (True, a2))"
proof -
  have img: "take (n + 1) ((blit (replicate 64 0) 0 (take n argv0))[n := 0]) = take n argv0 @ [0]"
    by (rule argv0_bytes) (simp add: n_def)
  have ptr: "stk - (of_nat n + 1) = ptr" by (simp add: ptr_def algebra_simps)
  show ?thesis
    using assms(1) img ptr
    by (auto simp: init_linux_user_stack_def Let_def n_def [symmetric] split: prod.splits bool.splits)
qed

section \<open>Properties\<close>

text \<open>
  Preloading, on every branch: without a readable and valid UTF-8 \<^verbatim>\<open>/boot/boot.toml\<close> it fails and changes
  nothing; otherwise the boot configuration is that file, the ELF cache holds exactly those of the four bootstrap
  programs that could be read (whatever it held before), and the result says whether \<^verbatim>\<open>/boot/init\<close> is among them.
\<close>

theorem preload_functional:
  "preload_boot_assets read s =
     (case read (lit ''/boot/boot.toml'') of
        None \<Rightarrow> (False, s)
      | Some raw \<Rightarrow>
          if utf8_valid raw
          then (read (lit ''/boot/init'') \<noteq> None,
                \<lparr>preloaded_elfs = (\<lambda>p. if p \<in> {lit ''/boot/init'', lit ''/boot/serial'', lit ''/boot/virtio_blk'', lit ''/boot/fs''}
                                  then read p else None),
                 preloaded_boot_cfg = raw\<rparr>)
          else (False, s))"
  by (auto simp: preload_boot_assets_def from_utf8_def preload_loop_eq preload_paths_def Let_def fun_eq_iff
      split: option.split)

text \<open>
  C32. The initial user stack is well formed: whenever it can be written, the stack pointer is 16-byte aligned and at
  most 160 bytes below the top; the program name (cut to 63 bytes and zero terminated) ends exactly at the top, above
  the start-up words; and these words are the argument count 1, the address of that name, the two terminators and the
  auxiliary vector with page size and entry point.
\<close>

theorem user_stack_layout:
  assumes "init_linux_user_stack m stk argv0 entry a = Some (sp, a2)" and "160 \<le> unat stk"
  shows "let n = min (length argv0) 63; ptr = stk - of_nat (n + 1) in
    16 dvd unat sp \<and> unat stk < unat sp + 160 \<and> unat sp + 80 \<le> unat ptr \<and> unat ptr + (n + 1) = unat stk
    \<and> (\<exists>a1 img. aspace_write m ptr (take n argv0 @ [0]) a = (True, a1) \<and> aspace_write m sp img a1 = (True, a2)
         \<and> length img = 80
         \<and> (\<forall>i < 10. from_le (slice (8 * i) (8 * i + 8) img) = [1, ptr, 0, 0, 6, 4096, 9, entry, 0, 0 :: usize] ! i))"
proof -
  let ?n = "min (length argv0) 63"
  let ?ptr = "stk - of_nat (?n + 1)"
  have k: "1 \<le> ?n + 1" "?n + 1 \<le> 64" by auto
  from init_stack_Some [OF assms(1)] obtain a1 where sp: "sp = (?ptr - 80) AND NOT 0x0f"
    and w: "aspace_write m ?ptr (take ?n argv0 @ [0]) a = (True, a1)"
      "aspace_write m sp (stack_image (stack_words ?ptr entry)) a1 = (True, a2)" by blast
  have "\<forall>i < 10. from_le (slice (8 * i) (8 * i + 8) (stack_image (stack_words ?ptr entry)))
      = [1, ?ptr, 0, 0, 6, 4096, 9, entry, 0, 0 :: usize] ! i"
    using stack_word_at [of _ ?ptr entry] by (simp add: stack_words_def)
  with w stack_pointer_bounds [OF k assms(2), folded sp] length_stack_image [of ?ptr entry] show ?thesis
    unfolding Let_def by blast
qed

theorem user_stack_layout_witness:
  "\<exists>sp a2. init_linux_user_stack demo_mm 0x10000 (lit ''/boot/init'') 0x400000 {} = Some (sp, a2)
     \<and> 16 dvd unat sp"
proof -
  have "\<exists>sp a2. init_linux_user_stack demo_mm 0x10000 (lit ''/boot/init'') 0x400000 {} = Some (sp, a2)"
    by (simp add: init_linux_user_stack_def demo_mm_def Let_def)
  then obtain sp a2 where run: "init_linux_user_stack demo_mm 0x10000 (lit ''/boot/init'') 0x400000 {} = Some (sp, a2)"
    by blast
  from user_stack_layout [OF run] run show ?thesis by (simp add: Let_def)
qed


definition demo_elf :: "bytes \<Rightarrow> elf_view option" where
  "demo_elf file = (if file = [] then None else Some \<lparr>elf_entry = 0x10000,
     elf_phs = [\<lparr>ph_load = Some True, ph_vaddr = 0x10000, ph_memsz = 0x10, ph_offset = 0, ph_filesz = 2\<rparr>]\<rparr>)"


end
