(* ===== verification/Syscall.thy ===== *)
theory Syscall
  imports Abi Device Task
begin

text \<open>
  The system-call layer (\<^verbatim>\<open>kernel/mene-syscall/src/lib.rs\<close>): process creation and the whole dispatcher
  \<^verbatim>\<open>handle_syscall\<close>, native and Linux-compatible calls, over one kernel state that collects the statics of the kernel
  crates. The memory of the calling process is the function \<open>umem\<close> from addresses to bytes; the kernel reads and writes
  it through the raw pointers it is given, unchecked. Interfaces of ArceOS and of other crates are the fields of \<open>env\<close>.
  Each call is one atomic step.
\<close>

section \<open>State\<close>

record ('as, 'g) kernel =
  supervisor :: Supervisor
  ipc_table :: endpoints
  ptable :: process_table
  dev_model :: device_model
  boot_assets :: assets
  task_state :: "'as task_world"
  ep_heap :: "Endpoint list"
  dma_state :: 'g

record UserContext =
  sysno :: usize
  arg0 :: usize
  arg1 :: usize
  arg2 :: usize
  arg3 :: usize
  retval :: "usize option"

text \<open>The Linux system calls the dispatcher knows, as decoded by the \<^verbatim>\<open>syscalls\<close> crate.\<close>

datatype Sysno =
    Sys_set_tid_address | Sys_ppoll | Sys_tkill | Sys_tgkill | Sys_rt_sigaction | Sys_rt_sigprocmask
  | Sys_sigaltstack | Sys_munmap | Sys_mprotect | Sys_mmap | Sys_getpid | Sys_brk | Sys_write | Sys_writev
  | Sys_exit | Sys_exit_group | Sys_other

record ('as, 'g) env =
  cfg :: arch_config
  mmu :: "('as, 'g) mm"
  ax_code :: "AxError \<Rightarrow> int"
  fs_read :: "bytes \<Rightarrow> bytes option"
  elf_parse :: "bytes \<Rightarrow> elf_view option"
  now_ns :: u64
  read_volatile32 :: "usize \<Rightarrow> u32"
  PCI_ECAM_BASE :: usize
  sysno_new :: "usize \<Rightarrow> Sysno option"

type_synonym umem = "usize \<Rightarrow> u8"

definition read_bytes :: "umem \<Rightarrow> usize \<Rightarrow> usize \<Rightarrow> bytes" where
  "read_bytes mem p n = map (\<lambda>i. mem (p + of_nat i)) [0..<unat n]"

definition write_bytes :: "umem \<Rightarrow> usize \<Rightarrow> bytes \<Rightarrow> umem" where
  "write_bytes mem p bs = (\<lambda>a. if unat (a - p) < length bs then bs ! unat (a - p) else mem a)"

definition read_usize :: "umem \<Rightarrow> usize \<Rightarrow> usize" where
  "read_usize mem p = from_le (read_bytes mem p 8)"

definition write_usize :: "umem \<Rightarrow> usize \<Rightarrow> usize \<Rightarrow> umem" where
  "write_usize mem p v = write_bytes mem p (to_le 8 v)"

text \<open>
  What a native call yields: a result to be put in the return register, an early return that leaves the register
  alone, power-off, or a kernel panic.
\<close>

datatype sysres = Ret "AxError + usize" | NoRet | Off | Panic

datatype outcome = Resume | TaskExit u32 | PowerOff | KernelPanic

type_synonym ('as, 'g) sysfun = "umem \<times> ('as, 'g) kernel \<Rightarrow> sysres \<times> umem \<times> ('as, 'g) kernel"

definition errno :: "('as, 'g) env \<Rightarrow> AxError \<Rightarrow> usize" where
  "errno e err = word_of_int (ax_code e err)"

section \<open>Process creation\<close>

definition install_process :: "bytes \<Rightarrow> usize \<Rightarrow> as_ref \<Rightarrow> ('as, 'g) kernel \<Rightarrow> ('as, 'g) kernel" where
  "install_process path spawned_pid asp k =
     (let ep = length (ep_heap k);
          cspace_map = bt_insert 1 (EndpointCap ep) [];
          cspace_map = inject_bootstrap_capabilities (dev_model k) path (ptable k) cspace_map;
          info = \<lparr>app_path = path, aspace = asp, cspace = cspace_map, local_endpoint = ep\<rparr>
      in k\<lparr>ep_heap := ep_heap k @ [endpoint_new],
           ptable := bt_insert spawned_pid info (ptable k),
           supervisor := transition_state spawned_pid Ready (supervisor k)\<rparr>)"

definition new_pid :: "('as, 'g) kernel \<Rightarrow> usize \<times> ('as, 'g) kernel" where
  "new_pid k =
     (case generate_pid (supervisor k) of (pid, sv1) \<Rightarrow>
        (pid, k\<lparr>supervisor := register_process pid sv1, ipc_table := ipc_init_process pid (ipc_table k)\<rparr>))"

definition finish_spawn ::
  "bytes \<Rightarrow> ('as, 'g) kernel \<Rightarrow> ((usize \<times> as_ref option) \<times> 'as task_world) option \<Rightarrow> (usize \<times> ('as, 'g) kernel) option" where
  "finish_spawn path k res =
     (case res of
        None \<Rightarrow> None
      | Some ((spawned_pid, opt_aspace), w) \<Rightarrow>
          (let k1 = k\<lparr>task_state := w\<rparr> in
           case opt_aspace of
             Some asp \<Rightarrow> Some (spawned_pid, install_process path spawned_pid asp k1)
           | None \<Rightarrow> Some (spawned_pid, k1)))"

definition spawn_app :: "('as, 'g) env \<Rightarrow> bytes \<Rightarrow> ('as, 'g) kernel \<Rightarrow> (usize \<times> ('as, 'g) kernel) option" where
  "spawn_app e path k =
     (case new_pid k of (pid, k1) \<Rightarrow>
        finish_spawn path k1
          (spawn_task (cfg e) (mmu e) (elf_parse e) (boot_assets k1) path pid (task_state k1)))"

definition spawn_app_from_elf ::
  "('as, 'g) env \<Rightarrow> bytes \<Rightarrow> bytes \<Rightarrow> ('as, 'g) kernel \<Rightarrow> (usize \<times> ('as, 'g) kernel) option" where
  "spawn_app_from_elf e path elf k =
     (case new_pid k of (pid, k1) \<Rightarrow>
        finish_spawn path k1
          (spawn_task_from_bytes (cfg e) (mmu e) (elf_parse e) path elf pid (task_state k1)))"

definition linux_write_serial ::
  "usize \<Rightarrow> bytes \<Rightarrow> ('as, 'g) kernel \<Rightarrow> (AxError + usize) \<times> ('as, 'g) kernel" where
  "linux_write_serial pid bs k =
     (case ipc_send pid SERIAL_ENDPOINT bs 0 (ipc_table k) of
        (Inr _, eps) \<Rightarrow> (Inr (of_nat (length bs)), k\<lparr>ipc_table := eps\<rparr>)
      | (Inl err, eps) \<Rightarrow> (Inl err, k\<lparr>ipc_table := eps\<rparr>))"

section \<open>Native calls\<close>

definition sys_spawn :: "('as, 'g) env \<Rightarrow> UserContext \<Rightarrow> ('as, 'g) sysfun" where
  "sys_spawn e u = (\<lambda>(mem, k).
     case from_utf8 (read_bytes mem (arg0 u) (arg1 u)) of
       Some path \<Rightarrow>
         (case spawn_app e path k of
            None \<Rightarrow> (Panic, mem, k)
          | Some (pid, k') \<Rightarrow> (Ret (Inr pid), mem, k'))
     | None \<Rightarrow> (Ret (Inl InvalidInput), mem, k))"

definition is_fs_caller :: "usize \<Rightarrow> ('as, 'g) kernel \<Rightarrow> bool" where
  "is_fs_caller pid k \<longleftrightarrow>
     (case bt_get (ptable k) pid of Some p \<Rightarrow> app_path p = lit ''/boot/fs'' | None \<Rightarrow> False)"

definition sys_spawn_elf :: "('as, 'g) env \<Rightarrow> usize \<Rightarrow> UserContext \<Rightarrow> ('as, 'g) sysfun" where
  "sys_spawn_elf e pid u = (\<lambda>(mem, k).
     if \<not> is_fs_caller pid k then (Ret (Inl PermissionDenied), mem, k)
     else if arg0 u = 0 \<or> arg2 u = 0 \<or> arg1 u = 0 \<or> arg3 u = 0 then (Ret (Inl InvalidInput), mem, k)
     else case from_utf8 (read_bytes mem (arg0 u) (arg1 u)) of
            Some path \<Rightarrow>
              (case spawn_app_from_elf e path (read_bytes mem (arg2 u) (arg3 u)) k of
                 None \<Rightarrow> (Panic, mem, k)
               | Some (p, k') \<Rightarrow> (Ret (Inr p), mem, k'))
          | None \<Rightarrow> (Ret (Inl InvalidInput), mem, k))"

definition sys_ipc_send :: "usize \<Rightarrow> UserContext \<Rightarrow> ('as, 'g) sysfun" where
  "sys_ipc_send pid u = (\<lambda>(mem, k).
     case ipc_send pid (arg0 u) (read_bytes mem (arg1 u) (arg2 u)) (arg3 u) (ipc_table k) of
       (Inr _, eps) \<Rightarrow> (Ret (Inr 0), mem, k\<lparr>ipc_table := eps\<rparr>)
     | (Inl err, eps) \<Rightarrow> (Ret (Inl err), mem, k\<lparr>ipc_table := eps\<rparr>))"

definition sys_ipc_recv :: "usize \<Rightarrow> UserContext \<Rightarrow> ('as, 'g) sysfun" where
  "sys_ipc_recv pid u = (\<lambda>(mem, k).
     case ipc_recv pid \<lparr>out_buf = read_bytes mem (arg0 u) (arg1 u), out_sender = 0, out_cap = 0\<rparr> (ipc_table k) of
       (Inr copied, out, eps) \<Rightarrow>
         (let mem = write_bytes mem (arg0 u) (out_buf out);
              mem = (if arg2 u \<noteq> 0 then write_usize mem (arg2 u) (out_sender out) else mem);
              mem = (if arg3 u \<noteq> 0 then write_usize mem (arg3 u) (out_cap out) else mem)
          in (Ret (Inr (of_nat copied)), mem, k\<lparr>ipc_table := eps\<rparr>))
     | (Inl err, out, eps) \<Rightarrow>
         (Ret (Inl err), write_bytes mem (arg0 u) (out_buf out), k\<lparr>ipc_table := eps\<rparr>))"

definition sys_ipc_recv_timeout :: "usize \<Rightarrow> UserContext \<Rightarrow> ('as, 'g) sysfun" where
  "sys_ipc_recv_timeout pid u = (\<lambda>(mem, k).
     if arg0 u = 0 \<or> arg2 u = 0 then (Ret (Inl InvalidInput), mem, k)
     else case ipc_recv_timeout pid \<lparr>out_buf = read_bytes mem (arg0 u) (arg1 u), out_sender = 0, out_cap = 0\<rparr>
                 (arg3 u) (ipc_table k) of
       (Inr copied, out, eps) \<Rightarrow>
         (let mem = write_bytes mem (arg0 u) (out_buf out);
              mem = write_usize mem (arg2 u) (out_sender out);
              mem = write_usize mem (arg2 u + 8) (out_cap out)
          in (Ret (Inr (of_nat copied)), mem, k\<lparr>ipc_table := eps\<rparr>))
     | (Inl err, out, eps) \<Rightarrow>
         (Ret (Inl err), write_bytes mem (arg0 u) (out_buf out), k\<lparr>ipc_table := eps\<rparr>))"

definition sys_uptime_ms :: "('as, 'g) env \<Rightarrow> ('as, 'g) sysfun" where
  "sys_uptime_ms e = (\<lambda>(mem, k). (Ret (Inr (now_ns e div 1000000)), mem, k))"

definition sys_read_file :: "('as, 'g) env \<Rightarrow> usize \<Rightarrow> UserContext \<Rightarrow> ('as, 'g) sysfun" where
  "sys_read_file e pid u = (\<lambda>(mem, k).
     if pid \<noteq> 1 then (Ret (Inl PermissionDenied), mem, k)
     else case from_utf8 (read_bytes mem (arg0 u) (arg1 u)) of
            Some path \<Rightarrow>
              (case fs_read e path of
                 Some data \<Rightarrow>
                   (let bytes_to_copy = min (length data) (unat (arg3 u))
                    in (Ret (Inr (of_nat bytes_to_copy)), write_bytes mem (arg2 u) (take bytes_to_copy data), k))
               | None \<Rightarrow> (Ret (Inl AxError.NotFound), mem, k))
          | None \<Rightarrow> (Ret (Inl InvalidInput), mem, k))"

text \<open>Run an operation on one address space of the heap.\<close>

definition with_aspace :: "as_ref \<Rightarrow> ('as \<Rightarrow> 'r \<times> 'as) \<Rightarrow> ('as, 'g) kernel \<Rightarrow> 'r \<times> ('as, 'g) kernel" where
  "with_aspace r f k =
     (case f (aspaces (task_state k) ! r) of (x, a') \<Rightarrow>
        (x, k\<lparr>task_state := (task_state k)\<lparr>aspaces := (aspaces (task_state k))[r := a']\<rparr>\<rparr>))"

definition sys_map_device :: "('as, 'g) env \<Rightarrow> as_ref \<Rightarrow> UserContext \<Rightarrow> ('as, 'g) sysfun" where
  "sys_map_device e r u = (\<lambda>(mem, k).
     case with_aspace r (do_map_device (mmu e) (arg0 u) (arg1 u)) k of (addr, k') \<Rightarrow> (Ret (Inr addr), mem, k'))"

definition mmap_result :: "usize \<Rightarrow> AxError + usize" where
  "mmap_result addr = (if addr = all_ones then Inl NoMemory else Inr addr)"

definition sys_mmap_anon :: "('as, 'g) env \<Rightarrow> as_ref \<Rightarrow> usize \<Rightarrow> ('as, 'g) sysfun" where
  "sys_mmap_anon e r len = (\<lambda>(mem, k).
     case with_aspace r (do_mmap (cfg e) (mmu e) 0 len) k of (addr, k') \<Rightarrow> (Ret (mmap_result addr), mem, k'))"

definition sys_vmm_map_page_to :: "('as, 'g) env \<Rightarrow> usize \<Rightarrow> UserContext \<Rightarrow> ('as, 'g) sysfun" where
  "sys_vmm_map_page_to e pid u = (\<lambda>(mem, k).
     if pid \<noteq> 3 then (NoRet, mem, k)
     else case bt_get (ptable k) (arg0 u) of
            Some info \<Rightarrow>
              (case with_aspace (aspace info) (do_mmap (cfg e) (mmu e) (arg1 u) (arg2 u)) k of
                 (addr, k') \<Rightarrow> (Ret (mmap_result addr), mem, k'))
          | None \<Rightarrow> (Ret (Inl NoSuchProcess), mem, k))"

definition sys_dma_alloc :: "('as, 'g) env \<Rightarrow> as_ref \<Rightarrow> UserContext \<Rightarrow> ('as, 'g) sysfun" where
  "sys_dma_alloc e r u = (\<lambda>(mem, k).
     if arg1 u = 0 \<or> arg0 u = 0 then (Ret (Inl InvalidInput), mem, k)
     else case with_aspace r (\<lambda>a. case do_dma_alloc (cfg e) (mmu e) (arg0 u) a (dma_state k) of
                                    (res, a', g') \<Rightarrow> ((res, g'), a')) k of
            ((Some (vaddr, paddr), g'), k') \<Rightarrow>
              (Ret (Inr vaddr), write_usize mem (arg1 u) paddr, k'\<lparr>dma_state := g'\<rparr>)
          | ((None, g'), k') \<Rightarrow> (Ret (Inl NoMemory), mem, k'\<lparr>dma_state := g'\<rparr>))"

definition pci_cfg_addr :: "usize \<Rightarrow> usize \<Rightarrow> usize \<Rightarrow> usize \<Rightarrow> usize \<Rightarrow> usize" where
  "pci_cfg_addr ecam b device fn offset =
     ecam + push_bit 20 b + push_bit 15 device + push_bit 12 fn + offset"

definition sys_pci_cfg_read :: "('as, 'g) env \<Rightarrow> UserContext \<Rightarrow> ('as, 'g) sysfun" where
  "sys_pci_cfg_read e u = (\<lambda>(mem, k).
     if 32 \<le> arg1 u \<or> 8 \<le> arg2 u \<or> 0xffc < arg3 u \<or> arg3 u AND 0x3 \<noteq> 0
     then (Ret (Inl InvalidInput), mem, k)
     else
       let ecam_base = (case pci_ecam_base (dev_model k) of Some b \<Rightarrow> b | None \<Rightarrow> PCI_ECAM_BASE e);
           vaddr = phys_to_virt (mmu e) (pci_cfg_addr ecam_base (arg0 u) (arg1 u) (arg2 u) (arg3 u))
       in (Ret (Inr (ucast (read_volatile32 e vaddr))), mem, k))"

definition sys_dma_dealloc :: "('as, 'g) env \<Rightarrow> as_ref \<Rightarrow> UserContext \<Rightarrow> ('as, 'g) sysfun" where
  "sys_dma_dealloc e r u = (\<lambda>(mem, k).
     if arg2 u = 0 then (Ret (Inr 0), mem, k)
     else case with_aspace r (\<lambda>a. case do_dma_dealloc (mmu e) (arg0 u) (arg1 u) (arg2 u) a (dma_state k) of
                                    (ok, a', g') \<Rightarrow> ((ok, g'), a')) k of
            ((True, g'), k') \<Rightarrow> (Ret (Inr 0), mem, k'\<lparr>dma_state := g'\<rparr>)
          | ((False, g'), k') \<Rightarrow> (Ret (Inl InvalidInput), mem, k'\<lparr>dma_state := g'\<rparr>))"

definition sys_virt_to_phys :: "('as, 'g) env \<Rightarrow> as_ref \<Rightarrow> UserContext \<Rightarrow> ('as, 'g) sysfun" where
  "sys_virt_to_phys e r u = (\<lambda>(mem, k).
     case do_virt_to_phys (mmu e) (arg0 u) (aspaces (task_state k) ! r) of
       Some paddr \<Rightarrow> (Ret (Inr paddr), mem, k)
     | None \<Rightarrow> (Ret (Inl BadAddress), mem, k))"

definition sys_get_boot_cfg :: "UserContext \<Rightarrow> ('as, 'g) sysfun" where
  "sys_get_boot_cfg u = (\<lambda>(mem, k).
     if arg0 u = 0 \<or> arg1 u = 0 then (Ret (Inl InvalidInput), mem, k)
     else case copy_boot_cfg_to (read_bytes mem (arg0 u) (arg1 u)) (boot_assets k) of
            (n, buf) \<Rightarrow> (Ret (Inr (of_nat n)), write_bytes mem (arg0 u) buf, k))"

primrec mene_call :: "('as, 'g) env \<Rightarrow> usize \<Rightarrow> as_ref \<Rightarrow> UserContext \<Rightarrow> MeneSysno \<Rightarrow> ('as, 'g) sysfun" where
  "mene_call e pid r u Spawn = sys_spawn e u"
| "mene_call e pid r u SpawnElf = sys_spawn_elf e pid u"
| "mene_call e pid r u IpcSend = sys_ipc_send pid u"
| "mene_call e pid r u IpcRecv = sys_ipc_recv pid u"
| "mene_call e pid r u IpcRecvTimeout = sys_ipc_recv_timeout pid u"
| "mene_call e pid r u UptimeMs = sys_uptime_ms e"
| "mene_call e pid r u ReadFile = sys_read_file e pid u"
| "mene_call e pid r u MapDevice = sys_map_device e r u"
| "mene_call e pid r u MmapAnon = sys_mmap_anon e r (arg0 u)"
| "mene_call e pid r u VmmMapPageTo = sys_vmm_map_page_to e pid u"
| "mene_call e pid r u DmaAlloc = sys_dma_alloc e r u"
| "mene_call e pid r u PciCfgRead = sys_pci_cfg_read e u"
| "mene_call e pid r u DmaDealloc = sys_dma_dealloc e r u"
| "mene_call e pid r u VirtToPhys = sys_virt_to_phys e r u"
| "mene_call e pid r u SleepMs = (\<lambda>(mem, k). (Ret (Inr 0), mem, k))"
| "mene_call e pid r u SystemOff = (\<lambda>(mem, k). (Off, mem, k))"
| "mene_call e pid r u GetBootCfg = sys_get_boot_cfg u"

section \<open>Linux-compatible calls\<close>

fun writev_loop ::
  "usize \<Rightarrow> umem \<Rightarrow> usize \<Rightarrow> nat list \<Rightarrow> usize \<Rightarrow> ('as, 'g) kernel \<Rightarrow> (AxError + usize) \<times> ('as, 'g) kernel" where
  "writev_loop pid mem iov_ptr [] tot k = (Inr tot, k)"
| "writev_loop pid mem iov_ptr (i # is) tot k =
     (let base_ptr = read_usize mem (iov_ptr + 8 * of_nat (i * 2));
          base_len = read_usize mem (iov_ptr + 8 * of_nat (i * 2 + 1))
      in if base_ptr = 0 \<and> base_len \<noteq> 0 then (Inl InvalidInput, k)
         else if base_len \<noteq> 0 then
           (case linux_write_serial pid (read_bytes mem base_ptr base_len) k of
              (Inl err, k') \<Rightarrow> (Inl err, k')
            | (Inr _, k') \<Rightarrow> writev_loop pid mem iov_ptr is (sat_add tot base_len) k')
         else writev_loop pid mem iov_ptr is tot k)"

definition sys_writev :: "usize \<Rightarrow> UserContext \<Rightarrow> umem \<Rightarrow> ('as, 'g) kernel \<Rightarrow> (AxError + usize) \<times> ('as, 'g) kernel" where
  "sys_writev pid u mem k =
     (if arg1 u = 0 \<and> arg2 u \<noteq> 0 then (Inl InvalidInput, k)
      else writev_loop pid mem (arg1 u) [0..<unat (arg2 u)] 0 k)"

definition sys_write :: "usize \<Rightarrow> UserContext \<Rightarrow> umem \<Rightarrow> ('as, 'g) kernel \<Rightarrow> (AxError + usize) \<times> ('as, 'g) kernel" where
  "sys_write pid u mem k =
     (if arg1 u = 0 \<and> arg2 u \<noteq> 0 then (Inl InvalidInput, k)
      else linux_write_serial pid (read_bytes mem (arg1 u) (arg2 u)) k)"

definition exit_process :: "usize \<Rightarrow> u32 \<Rightarrow> ('as, 'g) kernel \<Rightarrow> ('as, 'g) kernel" where
  "exit_process pid code k =
     (let k = k\<lparr>supervisor := mark_process_exited pid code (supervisor k)\<rparr>;
          k = k\<lparr>ipc_table := ipc_cleanup_process pid (ipc_table k)\<rparr>;
          k = k\<lparr>ptable := bt_remove pid (ptable k)\<rparr>
      in k\<lparr>supervisor := cleanup_process pid (supervisor k)\<rparr>)"

section \<open>The dispatcher\<close>

record ('as, 'g) machine =
  uctx :: UserContext
  umem :: umem
  kern :: "('as, 'g) kernel"

definition set_retval :: "usize \<Rightarrow> ('as, 'g) machine \<Rightarrow> ('as, 'g) machine" where
  "set_retval v s = s\<lparr>uctx := (uctx s)\<lparr>retval := Some v\<rparr>\<rparr>"

definition ret_word :: "('as, 'g) env \<Rightarrow> AxError + usize \<Rightarrow> usize" where
  "ret_word e res = (case res of Inr v \<Rightarrow> v | Inl err \<Rightarrow> errno e err)"

definition linux_call ::
  "('as, 'g) env \<Rightarrow> usize \<Rightarrow> as_ref \<Rightarrow> Sysno \<Rightarrow> ('as, 'g) machine \<Rightarrow> (outcome \<times> ('as, 'g) machine) option" where
  "linux_call e pid r sys s =
     (let u = uctx s; k = kern s; mem = umem s in
      case sys of
        Sys_set_tid_address \<Rightarrow> Some (Resume, set_retval pid s)
      | Sys_ppoll \<Rightarrow> Some (Resume, set_retval 0 s)
      | Sys_tkill \<Rightarrow> Some (Resume, set_retval 0 s)
      | Sys_tgkill \<Rightarrow> Some (Resume, set_retval 0 s)
      | Sys_rt_sigaction \<Rightarrow> Some (Resume, set_retval 0 s)
      | Sys_rt_sigprocmask \<Rightarrow> Some (Resume, set_retval 0 s)
      | Sys_sigaltstack \<Rightarrow> Some (Resume, set_retval 0 s)
      | Sys_munmap \<Rightarrow> Some (Resume, set_retval 0 s)
      | Sys_mprotect \<Rightarrow> Some (Resume, set_retval 0 s)
      | Sys_mmap \<Rightarrow>
          (case with_aspace r (do_mmap (cfg e) (mmu e) 0 (arg1 u)) k of
             (addr, k') \<Rightarrow> Some (Resume, set_retval (ret_word e (mmap_result addr)) (s\<lparr>kern := k'\<rparr>)))
      | Sys_getpid \<Rightarrow> Some (Resume, set_retval pid s)
      | Sys_brk \<Rightarrow> Some (Resume, set_retval 0 s)
      | Sys_write \<Rightarrow>
          (case sys_write pid u mem k of (res, k') \<Rightarrow> Some (Resume, set_retval (ret_word e res) (s\<lparr>kern := k'\<rparr>)))
      | Sys_writev \<Rightarrow>
          (case sys_writev pid u mem k of (res, k') \<Rightarrow> Some (Resume, set_retval (ret_word e res) (s\<lparr>kern := k'\<rparr>)))
      | Sys_exit \<Rightarrow> Some (TaskExit (ucast (arg0 u)), s\<lparr>kern := exit_process pid (ucast (arg0 u)) k\<rparr>)
      | Sys_exit_group \<Rightarrow> Some (TaskExit (ucast (arg0 u)), s\<lparr>kern := exit_process pid (ucast (arg0 u)) k\<rparr>)
      | Sys_other \<Rightarrow> None)"

definition handle_syscall ::
  "('as, 'g) env \<Rightarrow> usize \<Rightarrow> as_ref \<Rightarrow> ('as, 'g) machine \<Rightarrow> outcome \<times> ('as, 'g) machine" where
  "handle_syscall e pid r s =
     (case sysno_try_from (sysno (uctx s)) of
        Some m \<Rightarrow>
          (case mene_call e pid r (uctx s) m (umem s, kern s) of
             (Ret res, mem, k) \<Rightarrow> (Resume, set_retval (ret_word e res) (s\<lparr>umem := mem, kern := k\<rparr>))
           | (NoRet, mem, k) \<Rightarrow> (Resume, s\<lparr>umem := mem, kern := k\<rparr>)
           | (Off, mem, k) \<Rightarrow> (PowerOff, s\<lparr>umem := mem, kern := k\<rparr>)
           | (Panic, mem, k) \<Rightarrow> (KernelPanic, s\<lparr>umem := mem, kern := k\<rparr>))
      | None \<Rightarrow>
          (case (case sysno_new e (sysno (uctx s)) of
                   Some sys \<Rightarrow> linux_call e pid r sys s
                 | None \<Rightarrow> None) of
             Some res \<Rightarrow> res
           | None \<Rightarrow> (Resume, set_retval (- 38) s)))"

definition kernel_init :: "'g \<Rightarrow> ('as, 'g) kernel" where
  "kernel_init g = \<lparr>supervisor = supervisor_init, ipc_table = None, ptable = [], dev_model = device_model_init,
     boot_assets = assets_init, task_state = \<lparr>aspaces = [], tasks = []\<rparr>, ep_heap = [], dma_state = g\<rparr>"

text \<open>Boot (\<^verbatim>\<open>mene-init\<close>): device model, boot assets, then the first process.\<close>

definition microkernel_init ::
  "('as, 'g) env \<Rightarrow> fdt_node list option \<Rightarrow> ('as, 'g) kernel \<Rightarrow> ('as, 'g) kernel option" where
  "microkernel_init e fdt k =
     (let k1 = k\<lparr>dev_model := fst (init_device_model fdt (dev_model k))\<rparr>;
          k2 = k1\<lparr>boot_assets := snd (preload_boot_assets (fs_read e) (boot_assets k1))\<rparr>
      in map_option snd (spawn_app e (lit ''/boot/init'') k2))"

end
