(* ===== verification/KernelState.thy ===== *)
theory KernelState
  imports Syscall
begin

text \<open>
  The kernel as a state machine. Every system call changes the kernel state in one of five ways (\<open>kchange\<close>); the
  kernel invariant \<open>kernel_ok\<close> is kept by each of them, hence by the dispatcher, and holds in every state reachable
  from boot. The theory ends with the properties of the dispatcher: reachable states, isolation of address spaces,
  privileged calls, message transport through user memory, exit, vectored output and PCI configuration access.
\<close>

section \<open>Kinds of state change\<close>

definition put_aspace :: "as_ref \<Rightarrow> 'as \<Rightarrow> ('as, 'g) kernel \<Rightarrow> ('as, 'g) kernel" where
  "put_aspace i a k = k\<lparr>task_state := (task_state k)\<lparr>aspaces := (aspaces (task_state k))[i := a]\<rparr>\<rparr>"

inductive kchange :: "('as, 'g) env \<Rightarrow> usize \<Rightarrow> as_ref set \<Rightarrow> ('as, 'g) kernel \<Rightarrow> ('as, 'g) kernel \<Rightarrow> bool"
  for e :: "('as, 'g) env" and pid :: usize and R :: "as_ref set" where
  idle: "kchange e pid R k k"
| message: "dom (ipc_pending eps) = dom (ipc_pending (ipc_table k)) \<Longrightarrow> kchange e pid R k (k\<lparr>ipc_table := eps\<rparr>)"
| remap: "i \<in> R \<Longrightarrow> kchange e pid R k ((put_aspace i a k)\<lparr>dma_state := g\<rparr>)"
| spawn: "spawn_app e path k = Some (p, k') \<Longrightarrow> kchange e pid R k k'"
| spawn_elf: "spawn_app_from_elf e path elf k = Some (p, k') \<Longrightarrow> kchange e pid R k k'"
| exit: "kchange e pid R k (exit_process pid code k)"

lemma with_aspace_eq: "with_aspace r f k = (x, k') \<longleftrightarrow> (\<exists>a. f (aspaces (task_state k) ! r) = (x, a) \<and> k' = put_aspace r a k)"
  by (auto simp: with_aspace_def put_aspace_def split: prod.splits)

lemma put_aspace_dma: "(put_aspace i a k)\<lparr>dma_state := dma_state k\<rparr> = put_aspace i a k"
  by (simp add: put_aspace_def)

lemma remap_only: "i \<in> R \<Longrightarrow> kchange e pid R k (put_aspace i a k)"
  by (metis kchange.remap put_aspace_dma)

lemma send_dom: "ipc_send f t m c eps = (res, eps') \<Longrightarrow> dom (ipc_pending eps') = dom (ipc_pending eps)"
  by (auto simp: ipc_send_pending ipc_pending_push split: option.splits if_splits)

lemma recv_dom:
  assumes "ipc_recv p out eps = (res, out', eps')"
  shows "dom (ipc_pending eps') = dom (ipc_pending eps)"
proof (cases "ipc_pending eps p = None \<or> ipc_pending eps p = Some []")
  case True
  from ipc_recv_empty [OF this, of out] assms show ?thesis by simp
next
  case False
  then obtain m f q where q: "ipc_pending eps p = Some ((m, f) # q)" by (auto simp: neq_Nil_conv)
  from ipc_recv_ready [OF q, of out] assms q show ?thesis by auto
qed

lemma message_send: "ipc_send f t m c (ipc_table k) = (res, eps) \<Longrightarrow> kchange e pid R k (k\<lparr>ipc_table := eps\<rparr>)"
  by (rule kchange.message) (rule send_dom)

lemma message_recv: "ipc_recv p out (ipc_table k) = (res, out', eps) \<Longrightarrow> kchange e pid R k (k\<lparr>ipc_table := eps\<rparr>)"
  by (rule kchange.message) (rule recv_dom)

text \<open>The address spaces a native call may change: its own, and that of the target of a page mapping by process 3.\<close>

definition writable_aspaces :: "usize \<Rightarrow> as_ref \<Rightarrow> UserContext \<Rightarrow> ('as, 'g) kernel \<Rightarrow> as_ref set" where
  "writable_aspaces pid r u k =
     (if sysno_try_from (sysno u) = Some VmmMapPageTo \<and> pid = 3
      then (case bt_get (ptable k) (arg0 u) of Some info \<Rightarrow> {aspace info} | None \<Rightarrow> {})
      else {r})"

lemmas syscall_defs =
  sys_spawn_def sys_spawn_elf_def sys_ipc_send_def sys_ipc_recv_def sys_ipc_recv_timeout_def sys_uptime_ms_def
  sys_read_file_def sys_map_device_def sys_mmap_anon_def sys_vmm_map_page_to_def sys_dma_alloc_def
  sys_pci_cfg_read_def sys_dma_dealloc_def sys_virt_to_phys_def sys_get_boot_cfg_def

lemma mene_call_change:
  assumes "mene_call e pid r u m (mem, k) = (res, mem', k')" and "sysno_try_from (sysno u) = Some m"
  shows "kchange e pid (writable_aspaces pid r u k) k k'"
proof (cases m)
  case VmmMapPageTo
  then show ?thesis using assms
    by (auto simp: syscall_defs writable_aspaces_def with_aspace_eq intro: kchange.idle remap_only
        split: if_splits option.splits prod.splits)
next
  case IpcRecv
  then show ?thesis using assms
    by (auto simp: syscall_defs Let_def intro: message_recv split: prod.splits sum.splits)
next
  case IpcRecvTimeout
  then show ?thesis using assms
    by (auto simp: syscall_defs Let_def ipc_recv_timeout_def intro: message_recv kchange.idle
        split: prod.splits sum.splits if_splits)
next
  case IpcSend
  then show ?thesis using assms
    by (auto simp: syscall_defs intro: message_send split: prod.splits sum.splits)
next
  case Spawn
  then show ?thesis using assms
    by (auto simp: syscall_defs intro: kchange.idle kchange.spawn split: prod.splits option.splits)
next
  case SpawnElf
  then show ?thesis using assms
    by (auto simp: syscall_defs intro: kchange.idle kchange.spawn_elf split: prod.splits option.splits if_splits)
next
  case DmaAlloc
  then show ?thesis using assms
    by (auto simp: syscall_defs with_aspace_eq writable_aspaces_def intro: kchange.idle kchange.remap
        split: prod.splits option.splits if_splits)
next
  case DmaDealloc
  then show ?thesis using assms
    by (auto simp: syscall_defs with_aspace_eq writable_aspaces_def intro: kchange.idle kchange.remap
        split: prod.splits bool.splits if_splits)
qed (use assms in \<open>auto simp: syscall_defs Let_def with_aspace_eq writable_aspaces_def intro: kchange.idle remap_only
        split: prod.splits option.splits if_splits\<close>)

lemma message_ex:
  "\<exists>eps. k' = k\<lparr>ipc_table := eps\<rparr> \<and> dom (ipc_pending eps) = dom (ipc_pending (ipc_table k)) \<Longrightarrow> kchange e pid R k k'"
  by (auto intro: kchange.message)

lemma message_same: "\<exists>eps. k = k\<lparr>ipc_table := eps\<rparr> \<and> dom (ipc_pending eps) = dom (ipc_pending (ipc_table k))"
  by (rule exI [of _ "ipc_table k"]) simp

lemma write_serial_change:
  "linux_write_serial pid bs k = (res, k') \<Longrightarrow>
     \<exists>eps. k' = k\<lparr>ipc_table := eps\<rparr> \<and> dom (ipc_pending eps) = dom (ipc_pending (ipc_table k))"
  by (auto simp: linux_write_serial_def dest: send_dom split: prod.splits sum.splits)

lemma writev_change:
  "writev_loop pid mem iov is tot k = (res, k') \<Longrightarrow>
     \<exists>eps. k' = k\<lparr>ipc_table := eps\<rparr> \<and> dom (ipc_pending eps) = dom (ipc_pending (ipc_table k))"
proof (induction pid mem iov "is" tot k rule: writev_loop.induct)
  case (1 pid mem iov tot k)
  then show ?case using message_same [of k] by simp
next
  case (2 pid mem iov i "is" tot k)
  let ?p = "read_usize mem (iov + 8 * of_nat (i * 2))" and ?n = "read_usize mem (iov + 8 * of_nat (i * 2 + 1))"
  consider "?p = 0 \<and> ?n \<noteq> 0" | "?n = 0" | "?p \<noteq> 0" "?n \<noteq> 0" by blast
  then show ?case
  proof cases
    case 1
    with "2.prems" message_same [of k] show ?thesis by (simp add: Let_def)
  next
    case 2
    with "2.IH"(2) [of ?p ?n] "2.prems" show ?thesis by (simp add: Let_def)
  next
    case 3
    obtain w k1 where w: "linux_write_serial pid (read_bytes mem ?p ?n) k = (w, k1)" by (metis prod.exhaust)
    from write_serial_change [OF w] obtain eps1 where
      e1: "k1 = k\<lparr>ipc_table := eps1\<rparr>" "dom (ipc_pending eps1) = dom (ipc_pending (ipc_table k))" by blast
    show ?thesis
    proof (cases w)
      case (Inl err)
      with w 3 "2.prems" e1 show ?thesis by (auto simp: Let_def)
    next
      case (Inr x)
      with w 3 "2.prems" have "writev_loop pid mem iov is (sat_add tot ?n) k1 = (res, k')" by (simp add: Let_def)
      from "2.IH"(1) [OF refl refl _ _ w [symmetric] Inr this] 3 e1 show ?thesis by auto
    qed
  qed
qed

lemma linux_call_change:
  assumes "linux_call e pid r sys s = Some (oc, s')" and "r \<in> R"
  shows "kchange e pid R (kern s) (kern s')"
proof -
  have w: "kchange e pid R (kern s) k'" if "sys_write pid (uctx s) (umem s) (kern s) = (res, k')" for res k'
    using that message_ex [OF write_serial_change]
    by (auto simp: sys_write_def intro: kchange.idle split: if_splits)
  have v: "kchange e pid R (kern s) k'" if "sys_writev pid (uctx s) (umem s) (kern s) = (res, k')" for res k'
    using that message_ex [OF writev_change]
    by (auto simp: sys_writev_def intro: kchange.idle split: if_splits)
  show ?thesis using assms
    by (cases sys) (auto simp: linux_call_def Let_def set_retval_def with_aspace_eq
        intro: kchange.idle kchange.exit remap_only w v split: prod.splits)
qed

lemma handle_syscall_change:
  assumes "handle_syscall e pid r s = (oc, s')"
  shows "kchange e pid (writable_aspaces pid r (uctx s) (kern s)) (kern s) (kern s')"
proof (cases "sysno_try_from (sysno (uctx s))")
  case None
  then have "r \<in> writable_aspaces pid r (uctx s) (kern s)" by (simp add: writable_aspaces_def)
  with None assms linux_call_change [of e pid r _ s oc s'] show ?thesis
    by (auto simp: handle_syscall_def set_retval_def intro: kchange.idle split: option.splits)
next
  case (Some m)
  obtain res mem k where run: "mene_call e pid r (uctx s) m (umem s, kern s) = (res, mem, k)" by (metis prod.exhaust)
  with assms Some have "kern s' = k"
    by (cases res) (auto simp: handle_syscall_def set_retval_def)
  with mene_call_change [OF run Some] show ?thesis by simp
qed

section \<open>The kernel invariant\<close>

text \<open>
  \<open>kernel_ok\<close>: the process table is ordered and lists only processes with a lifecycle; exactly the processes with a
  lifecycle have a message queue; identifiers are non-zero and were handed out by the counter; task \<open>i\<close> runs in address
  space \<open>i\<close> and no two tasks share an identifier; a process table entry agrees with its task, and its capability space
  holds its own endpoint under handle 1 and refers only to existing endpoints.
\<close>

definition process_ok :: "('as, 'g) kernel \<Rightarrow> usize \<Rightarrow> ProcessInfo \<Rightarrow> bool" where
  "process_ok k p info \<longleftrightarrow>
     (\<exists>t \<in> set (tasks (task_state k)). t_pid t = p \<and> t_path t = app_path info \<and> t_aspace t = aspace info)
     \<and> bt_get (cspace info) 1 = Some (EndpointCap (local_endpoint info))
     \<and> (\<forall>h c. bt_get (cspace info) h = Some (EndpointCap c) \<longrightarrow> c < length (ep_heap k))"

definition pids_ok :: "('as, 'g) kernel \<Rightarrow> bool" where
  "pids_ok k \<longleftrightarrow>
     next_pid (supervisor k) \<noteq> 0
     \<and> (\<forall>p \<in> dom (bt_get (lifecycle_table (supervisor k))). p \<noteq> 0 \<and> p < next_pid (supervisor k))
     \<and> (\<forall>t \<in> set (tasks (task_state k)). t_pid t < next_pid (supervisor k))
     \<and> distinct (map t_pid (tasks (task_state k)))"

definition kernel_ok :: "('as, 'g) kernel \<Rightarrow> bool" where
  "kernel_ok k \<longleftrightarrow>
     bt_sorted (ptable k)
     \<and> dom (bt_get (ptable k)) \<subseteq> dom (bt_get (lifecycle_table (supervisor k)))
     \<and> dom (ipc_pending (ipc_table k)) = dom (bt_get (lifecycle_table (supervisor k)))
     \<and> pids_ok k
     \<and> map t_aspace (tasks (task_state k)) = [0..<length (aspaces (task_state k))]
     \<and> (\<forall>p info. bt_get (ptable k) p = Some info \<longrightarrow> process_ok k p info)"

text \<open>What a successful creation does to the kernel state.\<close>

lemma spawn_world:
  assumes "spawn_task_from_elf c m ep path pid file w = Some ((p, r), w')"
  shows "p = pid \<and> r = Some (length (aspaces w))
    \<and> (\<exists>a t. aspaces w' = aspaces w @ [a] \<and> tasks w' = tasks w @ [t]
          \<and> t_pid t = pid \<and> t_path t = path \<and> t_aspace t = length (aspaces w))"
  using assms by (auto simp: spawn_task_from_elf_def Let_def split: option.splits prod.splits bool.splits)

lemma finish_spawn_cases:
  assumes "finish_spawn path k (spawn_task_from_elf c m ep path pid file (task_state k)) = Some (p, k')"
  obtains w a t where "p = pid" "k' = install_process path pid (length (aspaces (task_state k))) (k\<lparr>task_state := w\<rparr>)"
    "aspaces w = aspaces (task_state k) @ [a]" "tasks w = tasks (task_state k) @ [t]"
    "t_pid t = pid" "t_path t = path" "t_aspace t = length (aspaces (task_state k))"
proof -
  from assms obtain r w where run: "spawn_task_from_elf c m ep path pid file (task_state k) = Some ((p, r), w)"
    by (auto simp: finish_spawn_def Let_def split: option.splits prod.splits)
  from spawn_world [OF run] assms run that show thesis
    by (auto simp: finish_spawn_def Let_def)
qed

lemma new_pid_eq: "new_pid k = (next_pid (supervisor k),
    k\<lparr>supervisor := register_process (next_pid (supervisor k)) (snd (allocate_pid (supervisor k))),
      ipc_table := ipc_init_process (next_pid (supervisor k)) (ipc_table k)\<rparr>)"
  by (simp add: new_pid_def generate_pid_def allocate_pid_def)

lemma pid_counter:
  assumes "next_pid (supervisor k) \<noteq> all_ones" and "next_pid (supervisor k) \<noteq> 0"
  shows "next_pid (supervisor k) + 1 \<noteq> 0" and "next_pid (supervisor k) < next_pid (supervisor k) + 1"
    and "x < next_pid (supervisor k) \<Longrightarrow> x < next_pid (supervisor k) + 1"
proof -
  let ?n = "next_pid (supervisor k)"
  have "unat ?n \<noteq> 2 ^ 64 - 1"
    using assms(1) unat_all_ones [where ?'a = 64] by (auto simp: word_unat_eq_iff)
  with unsigned_less [of ?n, where ?'a = nat] have "Suc (unat ?n) < 2 ^ 64" by simp
  then have suc: "unat (?n + 1) = Suc (unat ?n)" by (simp add: unat_word_ariths)
  then show "?n + 1 \<noteq> 0" by (metis nat.simps(3) unat_0)
  show lt: "?n < ?n + 1" by (simp add: word_less_nat_alt suc)
  show "x < ?n \<Longrightarrow> x < ?n + 1" using lt by simp
qed

lemma new_pid_ok:
  assumes "kernel_ok k" and "next_pid (supervisor k) \<noteq> all_ones" and "new_pid k = (pid, k1)"
  shows "kernel_ok k1" and "bt_get (ptable k1) pid = None" and "pid \<notin> t_pid ` set (tasks (task_state k1))"
    and "pid \<in> dom (bt_get (lifecycle_table (supervisor k1)))" and "pid \<noteq> 0" and "pid < next_pid (supervisor k1)"
proof -
  let ?n = "next_pid (supervisor k)"
  have ok: "?n \<noteq> 0" "\<forall>p \<in> dom (bt_get (lifecycle_table (supervisor k))). p \<noteq> 0 \<and> p < ?n"
    "\<forall>t \<in> set (tasks (task_state k)). t_pid t < ?n"
    using assms(1) by (auto simp: kernel_ok_def pids_ok_def)
  note cnt = pid_counter [OF assms(2) ok(1)]
  have k1: "pid = ?n" "ptable k1 = ptable k" "task_state k1 = task_state k" "ep_heap k1 = ep_heap k"
    "next_pid (supervisor k1) = ?n + 1"
    "bt_get (lifecycle_table (supervisor k1)) = (bt_get (lifecycle_table (supervisor k)))(?n \<mapsto> lifecycle_new ?n)"
    "ipc_pending (ipc_table k1) = (ipc_pending (ipc_table k))(?n \<mapsto> [])"
    using assms(3) by (auto simp: new_pid_eq register_process_def allocate_pid_def ipc_pending_init)
  show "bt_get (ptable k1) pid = None"
    using assms(1) ok(2) k1(1,2) unfolding kernel_ok_def by (metis domIff less_irrefl subsetD)
  show "pid \<notin> t_pid ` set (tasks (task_state k1))" using ok(3) k1 by auto
  show "pid \<in> dom (bt_get (lifecycle_table (supervisor k1)))" "pid \<noteq> 0" "pid < next_pid (supervisor k1)"
    using k1 ok cnt by auto
  have "pids_ok k1" using assms(1) ok cnt k1 by (auto simp: pids_ok_def kernel_ok_def)
  then show "kernel_ok k1" using assms(1) k1 by (auto simp: kernel_ok_def process_ok_def)
qed

lemma injected_self: "bt_get (inject_bootstrap_capabilities dm path pt cs) 1 = bt_get cs 1"
  by (simp add: inject_bootstrap_capabilities_def Let_def get_inject)

lemma inject_bound:
  assumes "bt_get (inject_service_endpoint_by_path pt path h cs) h' = Some (EndpointCap c)"
    and "\<And>s ep. provider pt s = Some ep \<Longrightarrow> ep < n" and "\<And>h c. bt_get cs h = Some (EndpointCap c) \<Longrightarrow> c < n"
  shows "c < n"
  using assms by (auto simp: get_inject split: if_splits option.splits)

lemma injected_bound:
  assumes "bt_get (inject_bootstrap_capabilities dm path pt cs) h = Some (EndpointCap c)"
    and "\<And>s ep. provider pt s = Some ep \<Longrightarrow> ep < n" and "\<And>h c. bt_get cs h = Some (EndpointCap c) \<Longrightarrow> c < n"
  shows "c < n"
proof -
  let ?i = "inject_service_endpoint_by_path pt"
  let ?cs2 = "?i (lit ''/boot/serial'') 2 cs"
  let ?cs3 = "?i (lit ''/boot/vmm'') 3 ?cs2"
  let ?cs5 = "?i (lit ''/boot/fs'') 5 ?cs3"
  have 2: "c < n" if "bt_get ?cs2 h = Some (EndpointCap c)" for h c by (rule inject_bound [OF that assms(2,3)])
  have 3: "c < n" if "bt_get ?cs3 h = Some (EndpointCap c)" for h c by (rule inject_bound [OF that assms(2) 2])
  have 5: "c < n" if "bt_get ?cs5 h = Some (EndpointCap c)" for h c by (rule inject_bound [OF that assms(2) 3])
  have 4: "c < n" if "bt_get (?i (lit ''/boot/virtio_blk'') 4 ?cs5) h = Some (EndpointCap c)" for h c
    by (rule inject_bound [OF that assms(2) 5])
  have "bt_get ?cs5 h = Some (EndpointCap c) \<or> bt_get (?i (lit ''/boot/virtio_blk'') 4 ?cs5) h = Some (EndpointCap c)"
    using assms(1) unfolding inject_bootstrap_capabilities_def Let_def by (auto simp only: split: if_splits)
  with 4 5 show ?thesis by blast
qed

lemma process_ok_endpoint: "process_ok k p info \<Longrightarrow> local_endpoint info < length (ep_heap k)"
  by (auto simp: process_ok_def)

lemma provider_bound:
  assumes "kernel_ok k" and "provider (ptable k) path = Some ep"
  shows "ep < length (ep_heap k)"
proof -
  have "bt_sorted (ptable k)" using assms(1) by (simp add: kernel_ok_def)
  from provider_Some [OF this assms(2)] obtain pid p where
    p: "bt_get (ptable k) pid = Some p" "local_endpoint p = ep" by blast
  with assms(1) have "process_ok k pid p" unfolding kernel_ok_def by blast
  from process_ok_endpoint [OF this] p show ?thesis by simp
qed

lemma install_ok:
  assumes ok: "kernel_ok k" and new: "pid \<notin> t_pid ` set (tasks (task_state k))"
    and known: "pid \<in> dom (bt_get (lifecycle_table (supervisor k)))" and lt: "pid < next_pid (supervisor k)"
    and w: "aspaces w = aspaces (task_state k) @ [a]" "tasks w = tasks (task_state k) @ [t]"
      "t_pid t = pid" "t_path t = path" "t_aspace t = length (aspaces (task_state k))"
  shows "kernel_ok (install_process path pid (length (aspaces (task_state k))) (k\<lparr>task_state := w\<rparr>))"
proof -
  let ?k = "install_process path pid (length (aspaces (task_state k))) (k\<lparr>task_state := w\<rparr>)"
  let ?ep = "length (ep_heap k)"
  let ?cs = "inject_bootstrap_capabilities (dev_model k) path (ptable k) (bt_insert 1 (EndpointCap ?ep) [])"
  let ?info = "\<lparr>app_path = path, aspace = length (aspaces (task_state k)), cspace = ?cs, local_endpoint = ?ep\<rparr>"
  have k: "ptable ?k = bt_insert pid ?info (ptable k)" "ipc_table ?k = ipc_table k" "task_state ?k = w"
    "ep_heap ?k = ep_heap k @ [endpoint_new]" "next_pid (supervisor ?k) = next_pid (supervisor k)"
    "dom (bt_get (lifecycle_table (supervisor ?k))) = dom (bt_get (lifecycle_table (supervisor k)))"
    by (auto simp: install_process_def Let_def transition_state_def)
  have "c < Suc ?ep" if "bt_get ?cs h = Some (EndpointCap c)" for h c
    using that by (rule injected_bound) (use provider_bound [OF ok] in \<open>auto simp: less_Suc_eq split: if_splits\<close>)
  then have "process_ok ?k pid ?info"
    using w by (auto simp: process_ok_def k injected_self)
  moreover have "process_ok ?k p info" if "bt_get (ptable k) p = Some info" for p info
    using ok that w unfolding kernel_ok_def process_ok_def k by fastforce
  moreover have "pids_ok ?k"
    using ok new lt w by (auto simp: pids_ok_def kernel_ok_def k)
  ultimately show ?thesis
    using ok known w by (auto simp: kernel_ok_def k)
qed

lemma spawn_ok:
  assumes ok: "kernel_ok k" and n: "next_pid (supervisor k) \<noteq> all_ones"
    and s: "spawn_app_from_elf e path elf k = Some (p, k')"
  shows "kernel_ok k'"
proof -
  obtain pid k1 where np: "new_pid k = (pid, k1)" by (metis prod.exhaust)
  note k1 = new_pid_ok [OF ok n np]
  from s np have "finish_spawn path k1 (spawn_task_from_elf (cfg e) (mmu e) (elf_parse e) path pid elf (task_state k1))
      = Some (p, k')" by (simp add: spawn_app_from_elf_def spawn_task_from_bytes_def)
  from finish_spawn_cases [OF this] install_ok [OF k1(1,3,4,6)] show ?thesis by metis
qed

lemma spawn_app_eq:
  "spawn_app e path k =
     (case get_preloaded_elf path (boot_assets k) of
        Some elf \<Rightarrow> spawn_app_from_elf e path elf k
      | None \<Rightarrow> Some (0, snd (new_pid k)))"
proof -
  obtain pid k1 where np: "new_pid k = (pid, k1)" by (metis prod.exhaust)
  have "boot_assets k1 = boot_assets k" using np by (auto simp: new_pid_eq)
  with np show ?thesis
    by (auto simp: spawn_app_def spawn_app_from_elf_def spawn_task_def spawn_task_from_bytes_def finish_spawn_def Let_def
        split: option.split)
qed

lemma exit_eqs:
  "bt_get (lifecycle_table (supervisor (exit_process pid c k))) = (bt_get (lifecycle_table (supervisor k)))(pid := None)"
  "ipc_pending (ipc_table (exit_process pid c k)) = (ipc_pending (ipc_table k))(pid := None)"
  "bt_get (ptable (exit_process pid c k)) = (bt_get (ptable k))(pid := None)"
  "next_pid (supervisor (exit_process pid c k)) = next_pid (supervisor k)"
  "task_state (exit_process pid c k) = task_state k" "ep_heap (exit_process pid c k) = ep_heap k"
  "dev_model (exit_process pid c k) = dev_model k" "boot_assets (exit_process pid c k) = boot_assets k"
  "dma_state (exit_process pid c k) = dma_state k"
  "service_registry (supervisor (exit_process pid c k)) = service_registry (supervisor k)"
  by (simp_all add: exit_process_def Let_def mark_process_exited_def cleanup_process_def ipc_pending_cleanup)

lemma exit_ok: "kernel_ok k \<Longrightarrow> kernel_ok (exit_process pid c k)"
proof -
  assume ok: "kernel_ok k"
  then have "bt_sorted (ptable (exit_process pid c k))"
    by (simp add: kernel_ok_def exit_process_def Let_def)
  with ok show ?thesis
    unfolding kernel_ok_def pids_ok_def process_ok_def exit_eqs by (auto simp: subset_iff dom_def split: if_splits)
qed

lemma kchange_ok:
  assumes "kchange e pid R k k'" and "kernel_ok k" and "next_pid (supervisor k) \<noteq> all_ones"
  shows "kernel_ok k'"
  using assms
proof (induction rule: kchange.induct)
  case (message eps k)
  then show ?case by (simp add: kernel_ok_def pids_ok_def process_ok_def)
next
  case (remap i k a g)
  then show ?case by (simp add: kernel_ok_def pids_ok_def process_ok_def put_aspace_def)
next
  case (spawn path k p k')
  have "kernel_ok (snd (new_pid k))"
    by (rule new_pid_ok(1) [OF spawn(2,3), of "fst (new_pid k)"]) simp
  with spawn show ?case
    by (auto simp: spawn_app_eq intro: spawn_ok split: option.splits)
qed (auto intro: spawn_ok exit_ok)

lemma install_next_pid: "next_pid (supervisor (install_process path p a k)) = next_pid (supervisor k)"
  by (simp add: install_process_def Let_def transition_state_def)

lemma finish_spawn_next_pid:
  "finish_spawn path k res = Some (p, k') \<Longrightarrow> next_pid (supervisor k') = next_pid (supervisor k)"
  by (auto simp: finish_spawn_def Let_def install_next_pid split: option.splits prod.splits)

lemma new_pid_next: "next_pid (supervisor (snd (new_pid k))) = next_pid (supervisor k) + 1"
  by (simp add: new_pid_eq register_process_def allocate_pid_def)

lemma kchange_next_pid:
  assumes "kchange e pid R k k'"
  shows "next_pid (supervisor k') = next_pid (supervisor k) \<or> next_pid (supervisor k') = next_pid (supervisor k) + 1"
  using assms
proof (induction rule: kchange.induct)
  case (spawn path k p k')
  then show ?case using finish_spawn_next_pid new_pid_next [of k]
    by (fastforce simp: spawn_app_def split: prod.splits)
next
  case (spawn_elf path elf k p k')
  then show ?case using finish_spawn_next_pid new_pid_next [of k]
    by (fastforce simp: spawn_app_from_elf_def split: prod.splits)
qed (simp_all add: put_aspace_def exit_eqs)

section \<open>Reachable states\<close>

text \<open>
  Boot, then any interleaving of system calls of live processes: at each step some task whose process has not exited
  traps with arbitrary registers and memory, at an arbitrary time and with arbitrary device contents. The index counts the
  steps; a panic or power-off ends the run.
\<close>

inductive reach :: "('as, 'g) env \<Rightarrow> fdt_node list option \<Rightarrow> 'g \<Rightarrow> nat \<Rightarrow> ('as, 'g) kernel \<Rightarrow> bool"
  for e :: "('as, 'g) env" and fdt :: "fdt_node list option" and g :: 'g where
  boot: "microkernel_init e fdt (kernel_init g) = Some k \<Longrightarrow> reach e fdt g 0 k"
| call: "reach e fdt g n k \<Longrightarrow> t \<in> set (tasks (task_state k)) \<Longrightarrow> get_state (t_pid t) (supervisor k) \<noteq> None \<Longrightarrow>
    handle_syscall (e\<lparr>now_ns := time, read_volatile32 := dev\<rparr>) (t_pid t) (t_aspace t)
      \<lparr>uctx = u, umem = mem, kern = k\<rparr> = (oc, s) \<Longrightarrow>
    oc = Resume \<or> (\<exists>c. oc = TaskExit c) \<Longrightarrow> reach e fdt g (Suc n) (kern s)"

lemma kernel_init_ok: "kernel_ok (kernel_init g)"
  by (auto simp: kernel_ok_def pids_ok_def kernel_init_def supervisor_init_def ipc_pending_def)

lemma microkernel_init_ok:
  fixes e :: "('a, 'b) env"
  assumes "microkernel_init e fdt (kernel_init g) = Some k"
  shows "kernel_ok k" and "unat (next_pid (supervisor k)) = 2"
proof -
  let ?k0 = "kernel_init g :: ('a, 'b) kernel"
  let ?k1 = "?k0\<lparr>dev_model := fst (init_device_model fdt (dev_model ?k0))\<rparr>"
  let ?k2 = "?k1\<lparr>boot_assets := snd (preload_boot_assets (fs_read e) (boot_assets ?k1))\<rparr>"
  from assms obtain p where sp: "spawn_app e (lit ''/boot/init'') ?k2 = Some (p, k)"
    by (auto simp: microkernel_init_def Let_def)
  then have ch: "kchange e 0 {} ?k2 k" by (rule kchange.spawn)
  have ok: "kernel_ok ?k2" using kernel_init_ok [of g] by (simp add: kernel_ok_def pids_ok_def process_ok_def)
  have n: "next_pid (supervisor ?k2) = 1" by (simp add: kernel_init_def supervisor_init_def)
  from kchange_ok [OF ch ok] n show "kernel_ok k" by simp
  have "next_pid (supervisor k) = 2"
    using sp n new_pid_next [of ?k2] finish_spawn_next_pid [of "lit ''/boot/init''" "snd (new_pid ?k2)" _ p k]
    by (auto simp: spawn_app_def split: prod.splits)
  then show "unat (next_pid (supervisor k)) = 2" by simp
qed

lemma reach_ok:
  assumes "reach e fdt g n k" and "n < 2 ^ 64 - 2"
  shows "kernel_ok k \<and> unat (next_pid (supervisor k)) \<le> n + 2"
  using assms
proof (induction rule: reach.induct)
  case (boot k)
  then show ?case using microkernel_init_ok [of e fdt g k] by simp
next
  case (call n k t time dev u mem oc s)
  from handle_syscall_change [OF call.hyps(4)]
  obtain e' pid R where ch: "kchange e' pid R k (kern s)" by simp
  from call have ok: "kernel_ok k" and n: "unat (next_pid (supervisor k)) \<le> n + 2" by auto
  from n call.prems unat_all_ones [where ?'a = 64] have "next_pid (supervisor k) \<noteq> all_ones" by auto
  from kchange_ok [OF ch ok this] have "kernel_ok (kern s)" .
  moreover have "unat (next_pid (supervisor k) + 1) \<le> Suc (unat (next_pid (supervisor k)))"
    by (simp add: unat_word_ariths)
  ultimately show ?case using kchange_next_pid [OF ch] n by auto
qed

section \<open>User memory\<close>

definition disjoint_ranges :: "usize \<Rightarrow> nat \<Rightarrow> usize \<Rightarrow> nat \<Rightarrow> bool" where
  "disjoint_ranges p m q n \<longleftrightarrow>
     unat p + m \<le> 2 ^ 64 \<and> unat q + n \<le> 2 ^ 64 \<and> (unat p + m \<le> unat q \<or> unat q + n \<le> unat p)"

lemma length_read_bytes [simp]: "length (read_bytes mem p n) = unat n"
  by (simp add: read_bytes_def)

lemma unat_index: "i < unat (n :: usize) \<Longrightarrow> unat (of_nat i :: usize) = i"
  using unsigned_less [of n, where ?'a = nat] by (simp add: unat_of_nat)

lemma read_write_prefix:
  "unat n \<le> length bs \<Longrightarrow> read_bytes (write_bytes mem p bs) p n = take (unat n) bs"
  by (rule nth_equalityI) (auto simp: read_bytes_def write_bytes_def unat_index)

lemma read_write_disjoint:
  assumes "disjoint_ranges p (length bs) q (unat n)"
  shows "read_bytes (write_bytes mem p bs) q n = read_bytes mem q n"
proof -
  have "\<not> unat (q + of_nat i - p) < length bs" if "i < unat n" for i
  proof -
    have "unat (q + of_nat i) = unat q + i"
      using assms that by (simp add: disjoint_ranges_def unat_word_ariths unat_index)
    moreover have "unat (q + of_nat i - p) = (if p \<le> q + of_nat i then unat (q + of_nat i) - unat p
        else 2 ^ 64 + unat (q + of_nat i) - unat p)"
      by (cases "p \<le> q + of_nat i") (simp_all add: unat_sub unat_sub_if_size word_size word_le_nat_alt)
    ultimately show ?thesis
      using assms that by (auto simp: disjoint_ranges_def word_le_nat_alt)
  qed
  then show ?thesis by (auto simp: read_bytes_def write_bytes_def)
qed

lemma disjoint_sym: "disjoint_ranges p m q n \<longleftrightarrow> disjoint_ranges q n p m"
  by (auto simp: disjoint_ranges_def)

lemma read_write_usize: "read_usize (write_usize mem p v) p = v"
  by (simp add: read_usize_def write_usize_def read_write_prefix)

section \<open>Vectored output\<close>

definition iovecs :: "umem \<Rightarrow> usize \<Rightarrow> nat list \<Rightarrow> (usize \<times> usize) list" where
  "iovecs mem iov is =
     map (\<lambda>i. (read_usize mem (iov + 8 * of_nat (i * 2)), read_usize mem (iov + 8 * of_nat (i * 2 + 1)))) is"

definition iov_good :: "usize \<times> usize \<Rightarrow> bool" where
  "iov_good v \<longleftrightarrow> fst v \<noteq> 0 \<or> snd v = 0"

definition iov_messages :: "umem \<Rightarrow> usize \<Rightarrow> (usize \<times> usize) list \<Rightarrow> (bytes \<times> usize) list" where
  "iov_messages mem pid vs = map (\<lambda>(p, n). (read_bytes mem p n, pid)) (filter (\<lambda>v. snd v \<noteq> 0) vs)"

lemma write_serial_open:
  assumes "ipc_pending (ipc_table k) SERIAL_ENDPOINT = Some q"
  shows "\<exists>eps. linux_write_serial pid bs k = (Inr (of_nat (length bs)), k\<lparr>ipc_table := eps\<rparr>)
    \<and> ipc_pending eps = (ipc_pending (ipc_table k))(SERIAL_ENDPOINT \<mapsto> q @ [(bs, pid)])"
proof -
  let ?eps = "Some (bt_modify SERIAL_ENDPOINT (ep_push (payload_new bs pid)) (the (ipc_table k)))"
  have "linux_write_serial pid bs k = (Inr (of_nat (length bs)), k\<lparr>ipc_table := ?eps\<rparr>)"
    using assms by (simp add: linux_write_serial_def ipc_send_pending)
  with ipc_pending_push [OF assms, of bs pid] show ?thesis by blast
qed

lemma writev_open:
  assumes "ipc_pending (ipc_table k) SERIAL_ENDPOINT = Some q"
  shows "\<exists>eps. writev_loop pid mem iov is tot k =
      (if list_all iov_good (iovecs mem iov is)
       then Inr (fold (\<lambda>v acc. sat_add acc (snd v)) (iovecs mem iov is) tot) else Inl InvalidInput,
       k\<lparr>ipc_table := eps\<rparr>)
    \<and> ipc_pending eps = (ipc_pending (ipc_table k))
        (SERIAL_ENDPOINT \<mapsto> q @ iov_messages mem pid (takeWhile iov_good (iovecs mem iov is)))"
  using assms
proof (induction "is" arbitrary: tot k q)
  case Nil
  then show ?case by (intro exI [of _ "ipc_table k"]) (simp add: iovecs_def iov_messages_def fun_upd_idem)
next
  case (Cons i "is")
  let ?p = "read_usize mem (iov + 8 * of_nat (i * 2))" and ?n = "read_usize mem (iov + 8 * of_nat (i * 2 + 1))"
  have vs: "iovecs mem iov (i # is) = (?p, ?n) # iovecs mem iov is" by (simp add: iovecs_def)
  consider "?p = 0" "?n \<noteq> 0" | "?n = 0" | "?p \<noteq> 0" "?n \<noteq> 0" by blast
  then show ?case
  proof cases
    case 1
    then have "\<not> iov_good (?p, ?n)" by (simp add: iov_good_def)
    with Cons.prems 1 show ?thesis unfolding vs
      by (intro exI [of _ "ipc_table k"]) (simp add: iov_messages_def Let_def fun_upd_idem)
  next
    case 2
    then have "iov_good (?p, ?n)" by (simp add: iov_good_def)
    with Cons.IH [OF Cons.prems, of tot] 2 show ?thesis unfolding vs
      by (cases "list_all iov_good (iovecs mem iov is)") (simp_all add: iov_messages_def Let_def)
  next
    case 3
    then have good: "iov_good (?p, ?n)" by (simp add: iov_good_def)
    from write_serial_open [OF Cons.prems, of pid "read_bytes mem ?p ?n"] obtain eps1 where
      w: "linux_write_serial pid (read_bytes mem ?p ?n) k = (Inr (of_nat (unat ?n)), k\<lparr>ipc_table := eps1\<rparr>)"
      and p1: "ipc_pending eps1 = (ipc_pending (ipc_table k))(SERIAL_ENDPOINT \<mapsto> q @ [(read_bytes mem ?p ?n, pid)])"
      by auto
    have "ipc_pending (ipc_table (k\<lparr>ipc_table := eps1\<rparr>)) SERIAL_ENDPOINT = Some (q @ [(read_bytes mem ?p ?n, pid)])"
      by (simp add: p1)
    from Cons.IH [OF this, of "sat_add tot ?n"] obtain eps where
      run: "writev_loop pid mem iov is (sat_add tot ?n) (k\<lparr>ipc_table := eps1\<rparr>) =
        (if list_all iov_good (iovecs mem iov is)
         then Inr (fold (\<lambda>v acc. sat_add acc (snd v)) (iovecs mem iov is) (sat_add tot ?n)) else Inl InvalidInput,
         k\<lparr>ipc_table := eps1\<rparr>\<lparr>ipc_table := eps\<rparr>)"
      and p2: "ipc_pending eps = (ipc_pending (ipc_table (k\<lparr>ipc_table := eps1\<rparr>)))
          (SERIAL_ENDPOINT \<mapsto> (q @ [(read_bytes mem ?p ?n, pid)])
            @ iov_messages mem pid (takeWhile iov_good (iovecs mem iov is)))"
      by blast
    have "writev_loop pid mem iov (i # is) tot k = writev_loop pid mem iov is (sat_add tot ?n) (k\<lparr>ipc_table := eps1\<rparr>)"
      using w 3 by (simp add: Let_def)
    with run good 3 p1 p2 show ?thesis unfolding vs
      by (intro exI [of _ eps]) (simp add: iov_messages_def)
  qed
qed

lemma fold_sat_add:
  "unat (fold (\<lambda>v acc. sat_add acc (snd v)) vs tot) = min (unat tot + (\<Sum>v\<leftarrow>vs. unat (snd v))) (2 ^ 64 - 1)"
  for tot :: usize
proof (induction vs arbitrary: tot)
  case Nil
  then show ?case using unsigned_less [of tot, where ?'a = nat] by simp
next
  case (Cons v vs)
  show ?case by (simp add: Cons unat_sat_add)
qed

lemma finish_spawn_aspaces:
  assumes "finish_spawn path k (spawn_task_from_elf c m ep path pid file (task_state k)) = Some (p, k')"
  shows "\<exists>a t. aspaces (task_state k') = aspaces (task_state k) @ [a] \<and> tasks (task_state k') = tasks (task_state k) @ [t]"
  using assms by (rule finish_spawn_cases) (simp add: install_process_def Let_def)

lemma spawn_elf_aspaces:
  assumes "spawn_app_from_elf e path elf k = Some (p, k')"
  shows "\<exists>a t. aspaces (task_state k') = aspaces (task_state k) @ [a] \<and> tasks (task_state k') = tasks (task_state k) @ [t]"
proof -
  have "task_state (snd (new_pid k)) = task_state k" by (simp add: new_pid_eq)
  with assms finish_spawn_aspaces [of path "snd (new_pid k)" "cfg e" "mmu e" "elf_parse e" "fst (new_pid k)" elf p k']
  show ?thesis by (simp add: spawn_app_from_elf_def spawn_task_from_bytes_def split: prod.splits)
qed

lemma kchange_aspaces:
  assumes "kchange e pid R k k'" and "i < length (aspaces (task_state k))" and "i \<notin> R"
  shows "i < length (aspaces (task_state k')) \<and> aspaces (task_state k') ! i = aspaces (task_state k) ! i"
  using assms
proof (induction rule: kchange.induct)
  case (spawn path k p k')
  have "task_state (snd (new_pid k)) = task_state k" by (simp add: new_pid_eq)
  with spawn spawn_elf_aspaces [of e path _ k p k'] show ?case
    by (fastforce simp: spawn_app_eq nth_append split: option.splits)
next
  case (spawn_elf path elf k p k')
  with spawn_elf_aspaces [of e path elf k p k'] show ?case by (auto simp: nth_append)
next
  case (remap j k a g)
  then have "j \<noteq> i" by auto
  then show ?case using remap by (simp add: put_aspace_def)
qed (simp_all add: exit_eqs)

lemma handle_native:
  assumes "sysno (uctx s) = sysno_val m"
  shows "handle_syscall e pid r s =
      (case mene_call e pid r (uctx s) m (umem s, kern s) of
             (Ret res, mem, k) \<Rightarrow> (Resume, set_retval (ret_word e res) (s\<lparr>umem := mem, kern := k\<rparr>))
           | (NoRet, mem, k) \<Rightarrow> (Resume, s\<lparr>umem := mem, kern := k\<rparr>)
           | (Off, mem, k) \<Rightarrow> (PowerOff, s\<lparr>umem := mem, kern := k\<rparr>)
           | (Panic, mem, k) \<Rightarrow> (KernelPanic, s\<lparr>umem := mem, kern := k\<rparr>))"
  using assms by (simp add: handle_syscall_def)

lemma handle_unknown:
  "sysno_try_from (sysno (uctx s)) = None \<Longrightarrow> sysno_new e (sysno (uctx s)) \<in> {None, Some Sys_other} \<Longrightarrow>
     handle_syscall e pid r s = (Resume, set_retval (- 38) s)"
  by (auto simp: handle_syscall_def linux_call_def Let_def)

section \<open>A concrete environment\<close>

definition demo_fs :: "bytes \<Rightarrow> bytes option" where
  "demo_fs path = (if path = lit ''/boot/boot.toml'' then Some [] else if path = lit ''/boot/init'' then Some [1, 2] else None)"

definition demo_env :: "(nat set, (usize \<times> usize) set) env" where
  "demo_env = \<lparr>cfg = aarch64, mmu = demo_mm, ax_code = (\<lambda>err. case err of PermissionDenied \<Rightarrow> - 13 | _ \<Rightarrow> - 22),
     fs_read = demo_fs, elf_parse = demo_elf, now_ns = 7000000, read_volatile32 = (\<lambda>_. 0xffffffff),
     PCI_ECAM_BASE = 0x4010000000, sysno_new = (\<lambda>n. if n = 172 then Some Sys_getpid else if n = 93 then Some Sys_exit
       else if n = 66 then Some Sys_writev else None)\<rparr>"

definition demo_ctx :: "usize \<Rightarrow> usize \<Rightarrow> usize \<Rightarrow> usize \<Rightarrow> usize \<Rightarrow> UserContext" where
  "demo_ctx n a b c d = \<lparr>sysno = n, arg0 = a, arg1 = b, arg2 = c, arg3 = d, retval = None\<rparr>"

text \<open>A kernel in which processes 1 and 2 can receive messages.\<close>

definition demo_kernel :: "(nat set, (usize \<times> usize) set) kernel" where
  "demo_kernel = (kernel_init {})\<lparr>ipc_table := ipc_init_process 2 (ipc_init_process 1 None)\<rparr>"

lemma demo_boot: "\<exists>k. microkernel_init demo_env None (kernel_init {}) = Some k \<and> length (tasks (task_state k)) = 1
    \<and> t_pid (tasks (task_state k) ! 0) = 1 \<and> get_state 1 (supervisor k) = Some Ready"
  by (simp add: microkernel_init_def demo_env_def kernel_init_def supervisor_init_def init_device_model_def Let_def
      preload_boot_assets_def demo_fs_def from_utf8_def preload_paths_def get_preloaded_elf_def spawn_app_eq
      spawn_app_from_elf_def new_pid_eq allocate_pid_def register_process_def spawn_task_from_bytes_def
      spawn_task_from_elf_def demo_elf_def demo_mm_def load_segment_def slice_ok_def init_linux_user_stack_def aarch64_def
      finish_spawn_def install_process_def transition_state_def get_state_def transition_to_def)

section \<open>Properties\<close>

text \<open>
  C1. The kernel invariant holds in every reachable state: after boot and any interleaving of fewer than \<open>2^64 - 2\<close> system
  calls of live processes with arbitrary arguments and memory contents, the process table, the lifecycle table, the message queues,
  the tasks, the address spaces and the capability spaces agree with each other, identifiers are non-zero and unique, and
  no capability dangles.
\<close>

theorem kernel_invariant:
  assumes "reach e fdt g n k" and "n < 2 ^ 64 - 2"
  shows "kernel_ok k"
  using reach_ok [OF assms] by simp

theorem kernel_invariant_witness: "\<exists>k. reach demo_env None {} 1 k \<and> kernel_ok k \<and> length (tasks (task_state k)) = 1"
proof -
  from demo_boot obtain k where k: "microkernel_init demo_env None (kernel_init {}) = Some k"
    "length (tasks (task_state k)) = 1" "t_pid (tasks (task_state k) ! 0) = 1" "get_state 1 (supervisor k) = Some Ready"
    by blast
  let ?t = "tasks (task_state k) ! 0" and ?u = "demo_ctx 172 0 0 0 0"
  have run: "handle_syscall (demo_env\<lparr>now_ns := 0, read_volatile32 := \<lambda>_. 0\<rparr>) (t_pid ?t) (t_aspace ?t)
      \<lparr>uctx = ?u, umem = \<lambda>_. 0, kern = k\<rparr> = (Resume, set_retval 1 \<lparr>uctx = ?u, umem = \<lambda>_. 0, kern = k\<rparr>)"
    by (simp add: handle_syscall_def demo_ctx_def sysno_try_from_def demo_env_def linux_call_def Let_def k)
  have "reach demo_env None {} (Suc 0) (kern (set_retval 1 \<lparr>uctx = ?u, umem = \<lambda>_. 0, kern = k\<rparr>))"
    by (rule reach.call [OF reach.boot [OF k(1)] _ _ run]) (simp_all add: k)
  then have r: "reach demo_env None {} 1 k" by (simp add: set_retval_def)
  from kernel_invariant [OF r] r k(2) show ?thesis by auto
qed



text \<open>
  C15. Privileged calls are refused without effect: starting a program from an image is for the process that runs
  \<^verbatim>\<open>/boot/fs\<close> only, reading kernel files for process 1 only; any other caller gets \<^verbatim>\<open>PermissionDenied\<close> and nothing
  else changes. Mapping pages into another process is for process 3 only; another caller is resumed with
  everything unchanged, even its return register. A number that is neither a native nor a known Linux call
  yields \<^verbatim>\<open>-ENOSYS\<close> and nothing else.
\<close>

theorem privileged_calls:
  "(sysno (uctx s) = sysno_val SpawnElf \<and> \<not> is_fs_caller pid (kern s) \<longrightarrow>
      handle_syscall e pid r s = (Resume, set_retval (errno e PermissionDenied) s))
   \<and> (sysno (uctx s) = sysno_val ReadFile \<and> pid \<noteq> 1 \<longrightarrow>
      handle_syscall e pid r s = (Resume, set_retval (errno e PermissionDenied) s))
   \<and> (sysno (uctx s) = sysno_val VmmMapPageTo \<and> pid \<noteq> 3 \<longrightarrow> handle_syscall e pid r s = (Resume, s))
   \<and> (sysno_try_from (sysno (uctx s)) = None \<and> sysno_new e (sysno (uctx s)) \<in> {None, Some Sys_other} \<longrightarrow>
      handle_syscall e pid r s = (Resume, set_retval (- 38) s))"
  by (auto simp: handle_native [of s SpawnElf] handle_native [of s ReadFile] handle_native [of s VmmMapPageTo]
      handle_unknown sys_spawn_elf_def sys_read_file_def sys_vmm_map_page_to_def ret_word_def)

theorem privileged_calls_witness:
  "handle_syscall demo_env 2 0 \<lparr>uctx = demo_ctx (sysno_val SpawnElf) 1 1 1 1, umem = \<lambda>_. 0, kern = demo_kernel\<rparr>
     = (Resume, set_retval (- 13) \<lparr>uctx = demo_ctx (sysno_val SpawnElf) 1 1 1 1, umem = \<lambda>_. 0, kern = demo_kernel\<rparr>)"
  using privileged_calls [of "\<lparr>uctx = demo_ctx (sysno_val SpawnElf) 1 1 1 1, umem = \<lambda>_. 0, kern = demo_kernel\<rparr>" 2 demo_env 0]
  by (simp add: demo_ctx_def is_fs_caller_def demo_kernel_def kernel_init_def errno_def demo_env_def)

text \<open>
  C3. A message travels intact from the memory of the sender to the memory of the receiver: if process \<open>f\<close> sends the
  bytes at \<open>p\<close> to process \<open>t\<close>, whose queue is empty, the call returns 0; when \<open>t\<close> then receives into a buffer, the call
  returns the number of bytes that fit, the buffer starts with these bytes, the word at the sender pointer is \<open>f\<close>,
  memory outside the two areas is unchanged and the queue is empty again.
\<close>

theorem ipc_end_to_end:
  assumes send: "sysno (uctx s1) = sysno_val IpcSend" "arg0 (uctx s1) = t"
    and open_box: "ipc_pending (ipc_table (kern s1)) t = Some []"
    and recv: "sysno (uctx s2) = sysno_val IpcRecv" "arg2 (uctx s2) \<noteq> 0" "arg3 (uctx s2) = 0"
    and apart: "disjoint_ranges (arg2 (uctx s2)) 8 (arg0 (uctx s2)) (unat (arg1 (uctx s2)))"
    and step1: "handle_syscall e f r1 s1 = (oc1, s1')" and shared: "kern s2 = kern s1'"
    and step2: "handle_syscall e t r2 s2 = (oc2, s2')"
  shows "let msg = read_bytes (umem s1) (arg1 (uctx s1)) (arg2 (uctx s1));
             n = min (arg2 (uctx s1)) (arg1 (uctx s2)); buf = arg0 (uctx s2); sp = arg2 (uctx s2) in
    oc1 = Resume \<and> retval (uctx s1') = Some 0 \<and> umem s1' = umem s1
    \<and> oc2 = Resume \<and> retval (uctx s2') = Some n
    \<and> read_bytes (umem s2') buf n = take (unat n) msg
    \<and> read_usize (umem s2') sp = f
    \<and> (\<forall>q m. disjoint_ranges buf (unat (arg1 (uctx s2))) q (unat m) \<and> disjoint_ranges sp 8 q (unat m)
         \<longrightarrow> read_bytes (umem s2') q m = read_bytes (umem s2) q m)
    \<and> ipc_pending (ipc_table (kern s2')) t = Some []"
proof -
  let ?msg = "read_bytes (umem s1) (arg1 (uctx s1)) (arg2 (uctx s1))"
  let ?eps = "Some (bt_modify t (ep_push (payload_new ?msg f)) (the (ipc_table (kern s1))))"
  let ?buf = "arg0 (uctx s2)" and ?sp = "arg2 (uctx s2)" and ?sz = "arg1 (uctx s2)"
  let ?n = "min (arg2 (uctx s1)) ?sz"
  let ?old = "read_bytes (umem s2) ?buf ?sz"
  have s1: "oc1 = Resume" "s1' = set_retval 0 (s1\<lparr>kern := (kern s1)\<lparr>ipc_table := ?eps\<rparr>\<rparr>)"
    using step1 open_box
    by (auto simp: handle_native [OF send(1)] sys_ipc_send_def ipc_send_pending send(2) ret_word_def)
  have q: "ipc_pending ?eps t = Some [(?msg, f)]"
    using ipc_pending_push [OF open_box, of ?msg f] by simp
  have k2: "ipc_table (kern s2) = ?eps" using shared s1 by (simp add: set_retval_def)
  let ?out = "take (unat ?sz) ?msg @ drop (length ?msg) ?old"
  from ipc_recv_ready [OF q, of "\<lparr>out_buf = ?old, out_sender = 0, out_cap = 0\<rparr>"] obtain eps' where
    rv: "ipc_recv t \<lparr>out_buf = ?old, out_sender = 0, out_cap = 0\<rparr> ?eps
      = (Inr (min (length ?msg) (unat ?sz)), \<lparr>out_buf = ?out, out_sender = f, out_cap = 0\<rparr>, eps')"
    and p': "ipc_pending eps' t = Some []" by auto
  have n: "of_nat (min (length ?msg) (unat ?sz)) = ?n" "unat ?n = min (length ?msg) (unat ?sz)"
    by (auto simp: min_def word_le_nat_alt)
  have s2: "oc2 = Resume" "retval (uctx s2') = Some ?n" "kern s2' = (kern s2)\<lparr>ipc_table := eps'\<rparr>"
    "umem s2' = write_usize (write_bytes (umem s2) ?buf ?out) ?sp f"
    using step2 rv n(1)
    by (auto simp: handle_native [OF recv(1)] sys_ipc_recv_def k2 recv(2,3) ret_word_def Let_def set_retval_def)
  have out: "length ?out = unat ?sz" "take (unat ?n) ?out = take (unat ?n) ?msg" using n(2) by auto
  have "disjoint_ranges ?sp 8 ?buf (unat ?n)" using apart n(2) by (auto simp: disjoint_ranges_def)
  then have "read_bytes (umem s2') ?buf ?n = take (unat ?n) ?msg"
    using out n(2) by (simp add: s2(4) write_usize_def read_write_disjoint read_write_prefix)
  moreover have "read_bytes (umem s2') q m = read_bytes (umem s2) q m"
    if "disjoint_ranges ?buf (unat ?sz) q (unat m)" "disjoint_ranges ?sp 8 q (unat m)" for q m
    using that out by (simp add: s2(4) write_usize_def read_write_disjoint)
  ultimately show ?thesis
    unfolding Let_def using s1 s2 p' by (simp add: read_write_usize set_retval_def)
qed

theorem ipc_end_to_end_witness:
  "let s1' = snd (handle_syscall demo_env 1 0 \<lparr>uctx = demo_ctx (sysno_val IpcSend) 2 64 3 0, umem = \<lambda>_. 42, kern = demo_kernel\<rparr>);
       s2' = snd (handle_syscall demo_env 2 1 \<lparr>uctx = demo_ctx (sysno_val IpcRecv) 16 2 32 0, umem = \<lambda>_. 0, kern = kern s1'\<rparr>)
   in retval (uctx s2') = Some 2 \<and> read_bytes (umem s2') 16 2 = [42, 42] \<and> read_usize (umem s2') 32 = 1"
proof -
  let ?s1 = "\<lparr>uctx = demo_ctx (sysno_val IpcSend) 2 64 3 0, umem = \<lambda>_. 42, kern = demo_kernel\<rparr>"
  obtain oc1 s1' where st1: "handle_syscall demo_env 1 0 ?s1 = (oc1, s1')" by (metis prod.exhaust)
  let ?s2 = "\<lparr>uctx = demo_ctx (sysno_val IpcRecv) 16 2 32 0, umem = \<lambda>_. 0, kern = kern s1'\<rparr>"
  obtain oc2 s2' where st2: "handle_syscall demo_env 2 1 ?s2 = (oc2, s2')" by (metis prod.exhaust)
  have bytes: "read_bytes (\<lambda>_. 42) 64 3 = [42, 42, 42]" by (simp add: read_bytes_def upt_rec)
  have "retval (uctx s2') = Some 2 \<and> read_bytes (umem s2') 16 2 = [42, 42] \<and> read_usize (umem s2') 32 = 1"
    using ipc_end_to_end [OF _ _ _ _ _ _ _ st1 _ st2] bytes
    by (simp add: demo_ctx_def demo_kernel_def ipc_pending_init disjoint_ranges_def min_def)
  then show ?thesis by (simp only: Let_def st1 st2 snd_conv)
qed

text \<open>
  C16. Exit is complete and confined: the process disappears from the lifecycle table, the message queues and the process
  table, so that a later send to it is answered \<^verbatim>\<open>NotFound\<close>; every other process keeps its state, its queue and its
  table entry, and the service registry, address spaces and device model do not change. The exit status survives nowhere in
  the kernel: it is only handed to the scheduler.
\<close>

theorem exit_functional:
  assumes "sysno_try_from (sysno (uctx s)) = None"
    and "sysno_new e (sysno (uctx s)) = Some Sys_exit \<or> sysno_new e (sysno (uctx s)) = Some Sys_exit_group"
    and "handle_syscall e pid r s = (oc, s')"
  shows "oc = TaskExit (ucast (arg0 (uctx s))) \<and> umem s' = umem s
    \<and> states_of (supervisor (kern s')) = (states_of (supervisor (kern s)))(pid := None)
    \<and> ipc_pending (ipc_table (kern s')) = (ipc_pending (ipc_table (kern s)))(pid := None)
    \<and> bt_get (ptable (kern s')) = (bt_get (ptable (kern s)))(pid := None)
    \<and> task_state (kern s') = task_state (kern s) \<and> dev_model (kern s') = dev_model (kern s)
    \<and> service_registry (supervisor (kern s')) = service_registry (supervisor (kern s))
    \<and> fst (ipc_send f pid m c (ipc_table (kern s'))) = Inl AxError.NotFound"
proof -
  have s': "oc = TaskExit (ucast (arg0 (uctx s)))" "s' = s\<lparr>kern := exit_process pid (ucast (arg0 (uctx s))) (kern s)\<rparr>"
    using assms by (auto simp: handle_syscall_def linux_call_def Let_def)
  show ?thesis
    by (auto simp: s' exit_eqs states_of_def get_state_def ipc_send_pending fun_eq_iff)
qed

theorem exit_functional_witness:
  "\<exists>s'. handle_syscall demo_env 1 0 \<lparr>uctx = demo_ctx 93 7 0 0 0, umem = \<lambda>_. 0, kern = demo_kernel\<rparr> = (TaskExit 7, s')
     \<and> ipc_pending (ipc_table (kern s')) 1 = None \<and> ipc_pending (ipc_table (kern s')) 2 = Some []"
proof -
  obtain oc s' where run: "handle_syscall demo_env 1 0 \<lparr>uctx = demo_ctx 93 7 0 0 0, umem = \<lambda>_. 0, kern = demo_kernel\<rparr>
      = (oc, s')" by (metis prod.exhaust)
  from exit_functional [OF _ _ run] run show ?thesis
    by (simp add: demo_ctx_def sysno_try_from_def demo_env_def demo_kernel_def ipc_pending_init)
qed

text \<open>
  C18. Vectored output, on every branch: with an open serial endpoint, each non-empty segment up to the first null one is sent
  as one message, in order. If no segment with a null base has a length, the result is the sum of the lengths,
  saturating at \<^verbatim>\<open>usize::MAX\<close>; otherwise the call fails with \<^verbatim>\<open>InvalidInput\<close> although the earlier segments have
  been sent.
\<close>

theorem writev_functional:
  assumes "ipc_pending (ipc_table k) SERIAL_ENDPOINT = Some q" and "arg1 u \<noteq> 0"
  shows "let vs = iovecs mem (arg1 u) [0..<unat (arg2 u)] in
    \<exists>res k'. sys_writev pid u mem k = (res, k')
    \<and> ipc_pending (ipc_table k') = (ipc_pending (ipc_table k))
        (SERIAL_ENDPOINT \<mapsto> q @ iov_messages mem pid (takeWhile iov_good vs))
    \<and> (if list_all iov_good vs
       then map_sum id unat res = Inr (min (\<Sum>v\<leftarrow>vs. unat (snd v)) (2 ^ 64 - 1))
       else res = Inl InvalidInput)"
proof -
  let ?vs = "iovecs mem (arg1 u) [0..<unat (arg2 u)]"
  from writev_open [OF assms(1), of pid mem "arg1 u" "[0..<unat (arg2 u)]" 0] obtain eps where
    run: "writev_loop pid mem (arg1 u) [0..<unat (arg2 u)] 0 k =
      (if list_all iov_good ?vs then Inr (fold (\<lambda>v acc. sat_add acc (snd v)) ?vs 0) else Inl InvalidInput,
       k\<lparr>ipc_table := eps\<rparr>)"
    and p: "ipc_pending eps = (ipc_pending (ipc_table k))
        (SERIAL_ENDPOINT \<mapsto> q @ iov_messages mem pid (takeWhile iov_good ?vs))"
    by blast
  from run p fold_sat_add [of ?vs 0] assms(2) show ?thesis by (simp add: sys_writev_def Let_def)
qed

definition demo_mem :: umem where
  "demo_mem = (\<lambda>a. if a = 8 then 64 else if a = 16 then 3 else if a = 65 then 42 else 0)"

theorem writev_functional_witness:
  "\<exists>res k'. sys_writev 1 (demo_ctx 66 1 8 1 0) demo_mem demo_kernel = (res, k')
     \<and> ipc_pending (ipc_table k') 2 = Some [([0, 42, 0], 1)] \<and> map_sum id unat res = Inr 3"
proof -
  have p: "ipc_pending (ipc_table demo_kernel) SERIAL_ENDPOINT = Some []"
    by (simp add: demo_kernel_def ipc_pending_init)
  have vs: "iovecs demo_mem 8 [0] = [(64, 3)]" "read_bytes demo_mem 64 3 = [0, 42, 0]"
    by (simp_all add: iovecs_def read_usize_def read_bytes_def demo_mem_def from_le_def upt_rec)
  from writev_functional [OF p, of "demo_ctx 66 1 8 1 0" demo_mem 1] vs show ?thesis
    by (auto simp: demo_ctx_def iov_messages_def iov_good_def Let_def)
qed

text \<open>
  PCI configuration reads stay inside their function: for a bus below 256 and arguments the call accepts, the offset from
  the ECAM base is below 256 MiB and word aligned, and different bus, device, function and register numbers have
  different offsets.
\<close>

lemma unat_push_bit: "unat (x :: usize) * 2 ^ n < 2 ^ 64 \<Longrightarrow> unat (push_bit n x) = unat x * 2 ^ n"
proof -
  assume "unat x * 2 ^ n < 2 ^ 64"
  then have "take_bit 64 (push_bit n (unat x)) = unat x * 2 ^ n"
    by (simp add: take_bit_nat_eq_self push_bit_eq_mult)
  then show ?thesis by (simp add: unsigned_push_bit_eq)
qed

lemma digit_eq: "r < m \<Longrightarrow> r' < m \<Longrightarrow> a * m + r = a' * m + r' \<longleftrightarrow> a = a' \<and> r = r'" for a m r :: nat
proof -
  assume r: "r < m" "r' < m"
  have "(a * m + r) div m = a" "(a' * m + r') div m = a'" using r by simp_all
  then show ?thesis by auto
qed

lemma pci_offset:
  assumes "b < 256" "d < 32" "f < 8" "off \<le> 0xffc"
  shows "unat (pci_cfg_addr 0 b d f off) = unat b * 0x100000 + unat d * 0x8000 + unat f * 0x1000 + unat off"
proof -
  have lt: "unat b < 256" "unat d < 32" "unat f < 8" "unat off \<le> 0xffc"
    using assms by (simp_all add: word_less_nat_alt word_le_nat_alt)
  have "unat (push_bit 20 b) = unat b * 0x100000" "unat (push_bit 15 d) = unat d * 0x8000" "unat (push_bit 12 f) = unat f * 0x1000"
    using lt unat_push_bit [of b 20] unat_push_bit [of d 15] unat_push_bit [of f 12] by simp_all
  then show ?thesis using lt by (simp add: pci_cfg_addr_def unat_word_ariths)
qed

theorem pci_cfg_addr_bounds:
  assumes "b < 256" "d < 32" "f < 8" "off \<le> 0xffc" "off AND 0x3 = 0"
    and "b' < 256" "d' < 32" "f' < 8" "off' \<le> 0xffc" "off' AND 0x3 = 0"
  shows "pci_cfg_addr ecam b d f off = ecam + pci_cfg_addr 0 b d f off
    \<and> unat (pci_cfg_addr 0 b d f off) < 2 ^ 28 \<and> 4 dvd unat (pci_cfg_addr 0 b d f off)
    \<and> (pci_cfg_addr ecam b d f off = pci_cfg_addr ecam b' d' f' off' \<longleftrightarrow> b = b' \<and> d = d' \<and> f = f' \<and> off = off')"
proof -
  have dvd: "4 dvd unat x" if "x AND 0x3 = 0" for x :: usize
    using that and_mask_dvd_nat [of 2 x] by (simp add: mask_eq_exp_minus_1)
  have lt: "unat b < 256" "unat d < 32" "unat f < 8" "unat off \<le> 0xffc" "unat b' < 256" "unat d' < 32" "unat f' < 8" "unat off' \<le> 0xffc"
    using assms by (simp_all add: word_less_nat_alt word_le_nat_alt)
  have shift: "pci_cfg_addr ecam b d f off = ecam + pci_cfg_addr 0 b d f off" for b d f off
    by (simp add: pci_cfg_addr_def)
  let ?x = "unat (pci_cfg_addr 0 b d f off)" and ?x' = "unat (pci_cfg_addr 0 b' d' f' off')"
  have x: "?x = ((unat b * 32 + unat d) * 8 + unat f) * 4096 + unat off"
    "?x' = ((unat b' * 32 + unat d') * 8 + unat f') * 4096 + unat off'"
    using pci_offset [OF assms(1-4)] pci_offset [OF assms(6-9)] by simp_all
  have offs: "unat off < 4096" "unat off' < 4096" using lt by simp_all
  have "?x = ?x' \<longleftrightarrow> unat b = unat b' \<and> unat d = unat d' \<and> unat f = unat f' \<and> unat off = unat off'"
    unfolding x by (simp only: digit_eq [OF offs] digit_eq [OF lt(3,7)] digit_eq [OF lt(2,6)] conj_assoc)
  then have "pci_cfg_addr 0 b d f off = pci_cfg_addr 0 b' d' f' off' \<longleftrightarrow> b = b' \<and> d = d' \<and> f = f' \<and> off = off'"
    by (simp add: word_unat_eq_iff)
  moreover have "?x < 2 ^ 28" using lt unfolding x by simp
  moreover have "4 dvd ?x" unfolding x using dvd [OF assms(5)] by (intro dvd_add) simp_all
  ultimately show ?thesis by (simp add: shift [of b d f off] shift [of b' d' f' off'])
qed

theorem pci_cfg_addr_bounds_witness: "pci_cfg_addr 0 0 1 0 4 \<noteq> pci_cfg_addr 0 0 0 1 4"
  using pci_cfg_addr_bounds [where b = 0 and d = 1 and f = 0 and off = 4 and b' = 0 and d' = 0 and f' = 1 and off' = 4 and ecam = 0]
  by simp

text \<open>
  C17. Starting a program, on every branch: for a program that is not preloaded the call returns 0 and no task, address space or
  process table entry appears, yet the new identifier keeps a lifecycle in state Created and an open message queue. For
  a preloaded program that loads, the call returns the new identifier; the process is Ready, has an empty queue, a table entry
  with its path and a fresh address space and one more task. In both cases all other processes keep their state, queue and
  table entry.
\<close>

theorem spawn_functional:
  assumes "kernel_ok k" and "next_pid (supervisor k) \<noteq> all_ones" and "spawn_app e path k = Some (p, k')"
  shows "let n = next_pid (supervisor k) in
    states_of (supervisor k') n = Some (if get_preloaded_elf path (boot_assets k) = None then Created else Ready)
    \<and> ipc_pending (ipc_table k') = (ipc_pending (ipc_table k))(n \<mapsto> [])
    \<and> (\<forall>q. q \<noteq> n \<longrightarrow> states_of (supervisor k') q = states_of (supervisor k) q
          \<and> bt_get (ptable k') q = bt_get (ptable k) q)
    \<and> (if get_preloaded_elf path (boot_assets k) = None
       then p = 0 \<and> task_state k' = task_state k \<and> bt_get (ptable k') n = None
       else p = n \<and> p \<noteq> 0 \<and> length (tasks (task_state k')) = Suc (length (tasks (task_state k)))
         \<and> (\<exists>info. bt_get (ptable k') n = Some info \<and> app_path info = path
              \<and> aspace info = length (aspaces (task_state k))))"
proof -
  let ?n = "next_pid (supervisor k)"
  obtain pid k1 where np: "new_pid k = (pid, k1)" by (metis prod.exhaust)
  note ok1 = new_pid_ok [OF assms(1,2) np]
  have k1: "pid = ?n" "ptable k1 = ptable k" "task_state k1 = task_state k"
    "states_of (supervisor k1) = (states_of (supervisor k))(?n \<mapsto> Created)"
    "ipc_pending (ipc_table k1) = (ipc_pending (ipc_table k))(?n \<mapsto> [])"
    using np by (auto simp: new_pid_eq register_process_def allocate_pid_def ipc_pending_init states_of_def get_state_def
        lifecycle_new_def fun_eq_iff)
  show ?thesis
  proof (cases "get_preloaded_elf path (boot_assets k)")
    case None
    then have "p = 0" "k' = k1" using assms(3) np by (auto simp: spawn_app_eq)
    with None k1 ok1 show ?thesis by (simp add: Let_def)
  next
    case (Some elf)
    then have "finish_spawn path k1 (spawn_task_from_elf (cfg e) (mmu e) (elf_parse e) path pid elf (task_state k1))
      = Some (p, k')" using assms(3) np by (simp add: spawn_app_eq spawn_app_from_elf_def spawn_task_from_bytes_def)
    from finish_spawn_cases [OF this] obtain w a t where
      w: "p = pid" "k' = install_process path pid (length (aspaces (task_state k1))) (k1\<lparr>task_state := w\<rparr>)"
      "tasks w = tasks (task_state k1) @ [t]" by metis
    have st: "states_of (supervisor k') = set_if_known pid Ready (states_of (supervisor k1))"
      unfolding w by (simp add: install_process_def Let_def transition_state_def states_modify transition_to_def)
    have "ipc_table k' = ipc_table k1" "task_state k' = w"
      "\<exists>info. bt_get (ptable k') = (bt_get (ptable k1))(pid \<mapsto> info) \<and> app_path info = path
         \<and> aspace info = length (aspaces (task_state k1))"
      unfolding w by (simp_all add: install_process_def Let_def) (rule exI, rule conjI, rule refl, simp)
    with Some k1 ok1 w st show ?thesis by (auto simp: Let_def set_if_known_def)
  qed
qed

theorem spawn_functional_witness:
  "\<exists>k'. spawn_app demo_env (lit ''/boot/none'') (kernel_init {}) = Some (0, k')
     \<and> states_of (supervisor k') 1 = Some Created \<and> ipc_pending (ipc_table k') 1 = Some []"
proof -
  have np: "next_pid (supervisor (kernel_init {} :: (nat set, (usize \<times> usize) set) kernel)) = 1"
    by (simp add: kernel_init_def supervisor_init_def)
  have no: "get_preloaded_elf (lit ''/boot/none'') (boot_assets (kernel_init {} :: (nat set, (usize \<times> usize) set) kernel)) = None"
    by (simp add: kernel_init_def assets_init_def get_preloaded_elf_def)
  then obtain k' where run: "spawn_app demo_env (lit ''/boot/none'') (kernel_init {}) = Some (0, k')"
    by (simp add: spawn_app_eq)
  from spawn_functional [OF kernel_init_ok _ run] np no run show ?thesis by (simp add: Let_def)
qed

end
