(* ===== verification/Ulib.thy ===== *)
theory Ulib
  imports Abi
begin

text \<open>
  The user library (\<^verbatim>\<open>apps/ulib/src/lib.rs\<close>): the system-call wrappers and the client side of the control protocol. A
  user program is a function of its world \<open>'w\<close>; the trap instruction in \<^verbatim>\<open>syscall\<close> is a parameter that takes the call number
  and the four argument registers and returns the result register and the new contents of the slices the call may write. An
  argument register holds a plain value or the address of a slice.
\<close>

section \<open>The trap\<close>

datatype uarg = Val usize | InBuf bytes | OutBuf bytes

type_synonym 'w trap = "usize \<Rightarrow> uarg \<Rightarrow> uarg \<Rightarrow> uarg \<Rightarrow> uarg \<Rightarrow> 'w \<Rightarrow> usize \<times> bytes list \<times> 'w"

text \<open>A slice keeps its length whatever is written to it.\<close>

definition fit :: "bytes \<Rightarrow> bytes \<Rightarrow> bytes" where
  "fit old new = (if length new = length old then new else old)"

definition out_slice :: "bytes \<Rightarrow> bytes list \<Rightarrow> nat \<Rightarrow> bytes" where
  "out_slice old outs i = (if i < length outs then fit old (outs ! i) else old)"

lemma length_fit [simp]: "length (fit old new) = length old"
  by (simp add: fit_def)

lemma length_out_slice [simp]: "length (out_slice old outs i) = length old"
  by (simp add: out_slice_def)

abbreviation ulen :: "bytes \<Rightarrow> uarg" where
  "ulen bs \<equiv> Val (of_nat (length bs))"

section \<open>Wrappers\<close>

definition sys_spawn_u :: "'w trap \<Rightarrow> bytes \<Rightarrow> 'w \<Rightarrow> usize \<times> 'w" where
  "sys_spawn_u trap path w =
     (case trap (sysno_val Spawn) (InBuf path) (ulen path) (Val 0) (Val 0) w of (r, _, w') \<Rightarrow> (r, w'))"

definition sys_spawn_elf_u :: "'w trap \<Rightarrow> bytes \<Rightarrow> bytes \<Rightarrow> 'w \<Rightarrow> usize \<times> 'w" where
  "sys_spawn_elf_u trap path elf w =
     (case trap (sysno_val SpawnElf) (InBuf path) (ulen path) (InBuf elf) (ulen elf) w of (r, _, w') \<Rightarrow> (r, w'))"

definition sys_read_file_u :: "'w trap \<Rightarrow> bytes \<Rightarrow> bytes \<Rightarrow> 'w \<Rightarrow> usize \<times> bytes \<times> 'w" where
  "sys_read_file_u trap path buf w =
     (case trap (sysno_val ReadFile) (InBuf path) (ulen path) (OutBuf buf) (ulen buf) w of
        (r, outs, w') \<Rightarrow> (r, out_slice buf outs 0, w'))"

definition sys_get_boot_cfg_u :: "'w trap \<Rightarrow> bytes \<Rightarrow> 'w \<Rightarrow> usize \<times> bytes \<times> 'w" where
  "sys_get_boot_cfg_u trap buf w =
     (case trap (sysno_val GetBootCfg) (OutBuf buf) (ulen buf) (Val 0) (Val 0) w of
        (r, outs, w') \<Rightarrow> (r, out_slice buf outs 0, w'))"

definition passed_cap_usize :: "Handle option \<Rightarrow> usize" where
  "passed_cap_usize c = (case c of None \<Rightarrow> 0 | Some h \<Rightarrow> to_usize h)"

definition ipc_send_call :: "'w trap \<Rightarrow> Handle \<Rightarrow> bytes \<Rightarrow> Handle option \<Rightarrow> 'w \<Rightarrow> usize \<times> 'w" where
  "ipc_send_call trap h msg cap w =
     (case trap (sysno_val IpcSend) (Val (to_usize h)) (InBuf msg) (ulen msg) (Val (passed_cap_usize cap)) w of
        (r, _, w') \<Rightarrow> (r, w'))"

definition sys_ipc_send_u :: "'w trap \<Rightarrow> Handle \<Rightarrow> bytes \<Rightarrow> Handle option \<Rightarrow> 'w \<Rightarrow> 'w" where
  "sys_ipc_send_u trap h msg cap w = snd (ipc_send_call trap h msg cap w)"

definition sys_ipc_send_checked :: "'w trap \<Rightarrow> Handle \<Rightarrow> bytes \<Rightarrow> Handle option \<Rightarrow> 'w \<Rightarrow> bool \<times> 'w" where
  "sys_ipc_send_checked trap h msg cap w =
     (case ipc_send_call trap h msg cap w of (ret, w') \<Rightarrow> (0 \<le> sint ret, w'))"

definition sys_log :: "'w trap \<Rightarrow> string \<Rightarrow> 'w \<Rightarrow> 'w" where
  "sys_log trap msg w = sys_ipc_send_u trap SerialEndpoint (lit msg) None w"

definition cap_of :: "usize \<Rightarrow> Handle option" where
  "cap_of v = (if v \<noteq> 0 then Some (from_usize v) else None)"

text \<open>The receive calls return the result, the sender, the buffer, the received capability and the world.\<close>

definition sys_ipc_recv_u :: "'w trap \<Rightarrow> bytes \<Rightarrow> 'w \<Rightarrow> usize \<times> usize \<times> bytes \<times> Handle option \<times> 'w" where
  "sys_ipc_recv_u trap buf w =
     (case trap (sysno_val IpcRecv) (OutBuf buf) (ulen buf) (OutBuf (to_le 8 (0 :: usize))) (OutBuf (to_le 8 (0 :: usize))) w of
        (res, outs, w') \<Rightarrow>
          (let sender_pid = from_le (out_slice (to_le 8 (0 :: usize)) outs 1);
               recv_usize = from_le (out_slice (to_le 8 (0 :: usize)) outs 2)
           in (res, sender_pid, out_slice buf outs 0, cap_of recv_usize, w')))"

definition sys_ipc_recv_timeout_u ::
  "'w trap \<Rightarrow> bytes \<Rightarrow> usize \<Rightarrow> 'w \<Rightarrow> int \<times> usize \<times> bytes \<times> Handle option \<times> 'w" where
  "sys_ipc_recv_timeout_u trap buf timeout_ms w =
     (case trap (sysno_val IpcRecvTimeout) (OutBuf buf) (ulen buf) (OutBuf (replicate 16 0)) (Val timeout_ms) w of
        (r, outs, w') \<Rightarrow>
          (let res = sint r;
               meta = out_slice (replicate 16 0) outs 1;
               meta0 = from_le (slice 0 8 meta) :: usize;
               meta1 = from_le (slice 8 16 meta) :: usize;
               buf' = out_slice buf outs 0
           in if 0 \<le> res \<and> unat r \<le> length buf \<and> (res = 0 \<or> meta0 \<noteq> 0)
              then (res, meta0, buf', cap_of meta1, w')
              else (- 1, 0, buf', None, w')))"

definition sys_mmap :: "'w trap \<Rightarrow> usize \<Rightarrow> 'w \<Rightarrow> usize \<times> 'w" where
  "sys_mmap trap len w = (case trap (sysno_val MmapAnon) (Val len) (Val 0) (Val 0) (Val 0) w of (r, _, w') \<Rightarrow> (r, w'))"

definition sys_map_device_u :: "'w trap \<Rightarrow> usize \<Rightarrow> usize \<Rightarrow> 'w \<Rightarrow> usize \<times> 'w" where
  "sys_map_device_u trap paddr len w =
     (case trap (sysno_val MapDevice) (Val paddr) (Val len) (Val 0) (Val 0) w of (r, _, w') \<Rightarrow> (r, w'))"

definition sys_vmm_map_page_to_u :: "'w trap \<Rightarrow> usize \<Rightarrow> usize \<Rightarrow> usize \<Rightarrow> 'w \<Rightarrow> usize \<times> 'w" where
  "sys_vmm_map_page_to_u trap target_pid vaddr sz w =
     (case trap (sysno_val VmmMapPageTo) (Val target_pid) (Val vaddr) (Val sz) (Val 0) w of (r, _, w') \<Rightarrow> (r, w'))"

definition sys_dma_alloc_u :: "'w trap \<Rightarrow> usize \<Rightarrow> usize \<Rightarrow> 'w \<Rightarrow> usize \<times> usize \<times> 'w" where
  "sys_dma_alloc_u trap len paddr_out w =
     (case trap (sysno_val DmaAlloc) (Val len) (OutBuf (to_le 8 paddr_out)) (Val 0) (Val 0) w of
        (r, outs, w') \<Rightarrow> (r, from_le (out_slice (to_le 8 paddr_out) outs 0), w'))"

definition sys_dma_dealloc_u :: "'w trap \<Rightarrow> usize \<Rightarrow> usize \<Rightarrow> usize \<Rightarrow> 'w \<Rightarrow> usize \<times> 'w" where
  "sys_dma_dealloc_u trap vaddr paddr pages w =
     (case trap (sysno_val DmaDealloc) (Val vaddr) (Val paddr) (Val pages) (Val 0) w of (r, _, w') \<Rightarrow> (r, w'))"

definition sys_virt_to_phys_u :: "'w trap \<Rightarrow> usize \<Rightarrow> 'w \<Rightarrow> usize \<times> 'w" where
  "sys_virt_to_phys_u trap vaddr w =
     (case trap (sysno_val VirtToPhys) (Val vaddr) (Val 0) (Val 0) (Val 0) w of (r, _, w') \<Rightarrow> (r, w'))"

definition sys_pci_cfg_read_u :: "'w trap \<Rightarrow> usize \<Rightarrow> usize \<Rightarrow> usize \<Rightarrow> usize \<Rightarrow> 'w \<Rightarrow> usize \<times> 'w" where
  "sys_pci_cfg_read_u trap b dev fn off w =
     (case trap (sysno_val PciCfgRead) (Val b) (Val dev) (Val fn) (Val off) w of (r, _, w') \<Rightarrow> (r, w'))"

definition sys_sleep_ms :: "'w trap \<Rightarrow> usize \<Rightarrow> 'w \<Rightarrow> 'w" where
  "sys_sleep_ms trap ms w = (case trap (sysno_val SleepMs) (Val ms) (Val 0) (Val 0) (Val 0) w of (_, _, w') \<Rightarrow> w')"

definition sys_uptime_ms_u :: "'w trap \<Rightarrow> 'w \<Rightarrow> usize \<times> 'w" where
  "sys_uptime_ms_u trap w = (case trap (sysno_val UptimeMs) (Val 0) (Val 0) (Val 0) (Val 0) w of (r, _, w') \<Rightarrow> (r, w'))"

definition sys_system_off_u :: "'w trap \<Rightarrow> 'w \<Rightarrow> 'w" where
  "sys_system_off_u trap w = (case trap (sysno_val SystemOff) (Val 0) (Val 0) (Val 0) (Val 0) w of (_, _, w') \<Rightarrow> w')"

text \<open>\<open>exit_no\<close> is the Linux number of \<^verbatim>\<open>exit\<close>; the status is sign-extended to the register.\<close>

definition sys_exit_u :: "'w trap \<Rightarrow> usize \<Rightarrow> u32 \<Rightarrow> 'w \<Rightarrow> 'w" where
  "sys_exit_u trap exit_no code w = (case trap exit_no (Val (scast code)) (Val 0) (Val 0) (Val 0) w of (_, _, w') \<Rightarrow> w')"

definition user_panic :: "'w trap \<Rightarrow> usize \<Rightarrow> 'w \<Rightarrow> 'w" where
  "user_panic trap exit_no w = sys_exit_u trap exit_no (- 1) (sys_log trap ''User panic!'' w)"

definition alloc_error :: "'w trap \<Rightarrow> usize \<Rightarrow> 'w \<Rightarrow> 'w" where
  "alloc_error trap exit_no w = sys_exit_u trap exit_no (- 1) (sys_log trap ''User allocation error!'' w)"

section \<open>The control protocol, client side\<close>

definition ctl_request :: "u16 \<Rightarrow> bytes \<Rightarrow> bytes" where
  "ctl_request opc n =
     (let req = replicate (CTL_HDR_LEN + MAX_SERVICE_NAME) 0;
          req = blit req 0 (to_le 2 opc);
          req = blit req 2 (to_le 2 (of_nat (length n) :: u16));
          req = blit req 4 n
      in take (CTL_HDR_LEN + length n) req)"

definition ctl_register_service :: "'w trap \<Rightarrow> bytes \<Rightarrow> 'w \<Rightarrow> bool \<times> 'w" where
  "ctl_register_service trap n w =
     (if n = [] \<or> MAX_SERVICE_NAME < length n then (False, w)
      else sys_ipc_send_checked trap InitEndpoint (ctl_request REQ_REGISTER_SERVICE n) (Some LocalEndpoint) w)"

definition ctl_lookup_service :: "'w trap \<Rightarrow> bytes \<Rightarrow> usize \<Rightarrow> 'w \<Rightarrow> Handle option \<times> 'w" where
  "ctl_lookup_service trap n timeout_ms w =
     (if n = [] \<or> MAX_SERVICE_NAME < length n then (None, w)
      else case sys_ipc_send_checked trap InitEndpoint (ctl_request REQ_LOOKUP_SERVICE n) (Some LocalEndpoint) w of
             (False, w1) \<Rightarrow> (None, w1)
           | (True, w1) \<Rightarrow>
               (case sys_ipc_recv_timeout_u trap (replicate 16 0) timeout_ms w1 of
                  (m, _, resp, recv_cap, w2) \<Rightarrow>
                    (if m < 0 then (None, w2)
                     else if 2 \<le> nat m \<and> take 2 resp = lit ''OK'' then (recv_cap, w2)
                     else (None, w2))))"

definition ctl_device_query_usize :: "'w trap \<Rightarrow> bytes \<Rightarrow> usize \<Rightarrow> 'w \<Rightarrow> usize option \<times> 'w" where
  "ctl_device_query_usize trap key timeout_ms w =
     (if key = [] \<or> MAX_SERVICE_NAME < length key then (None, w)
      else case sys_ipc_send_checked trap InitEndpoint (ctl_request REQ_DEVICE_QUERY key) (Some LocalEndpoint) w of
             (False, w1) \<Rightarrow> (None, w1)
           | (True, w1) \<Rightarrow>
               (case sys_ipc_recv_timeout_u trap (replicate 16 0) timeout_ms w1 of
                  (m, _, resp, recv_cap, w2) \<Rightarrow>
                    (if m < 0 then (None, w2)
                     else if nat m < 10 \<or> take 2 resp \<noteq> lit ''OK'' then (None, w2)
                     else (Some (from_le (slice 2 10 resp)), w2))))"

text \<open>
  \<^verbatim>\<open>init_allocator\<close>: the heap area handed to the allocator, if any.
\<close>

definition init_allocator :: "'w trap \<Rightarrow> 'w \<Rightarrow> (usize \<times> usize) option \<times> 'w" where
  "init_allocator trap w =
     (let heap_size = 4 * 1024 * 1024 in
      case sys_mmap trap heap_size w of (heap_start, w1) \<Rightarrow>
        if heap_start \<noteq> all_ones then (Some (heap_start, heap_size), w1)
        else (None, sys_log trap ''Failed to initialize allocator: mmap failed'' w1))"

section \<open>Requests\<close>

lemma ctl_request_eq:
  assumes "length n \<le> MAX_SERVICE_NAME"
  shows "ctl_request opc n = to_le 2 opc @ to_le 2 (of_nat (length n) :: u16) @ n"
  using assms by (simp add: ctl_request_def blit_def)

lemma recv_timeout_result:
  assumes "sys_ipc_recv_timeout_u trap buf t w = (m, from, buf', cap, w')"
  shows "- 1 \<le> m" and "length buf' = length buf" and "0 \<le> m \<Longrightarrow> nat m \<le> length buf"
  using assms
  by (auto simp: sys_ipc_recv_timeout_u_def Let_def sint_nonneg_unat order_trans [OF _ uint_ge_0] split: prod.splits if_splits)

end
