(* ===== verification/RustStr.thy ===== *)
theory RustStr
  imports Prelude
begin

text \<open>
  String operations of the Rust core library that the user programs apply to \<^verbatim>\<open>&str\<close> values, on the UTF-8 bytes of the
  string: \<^verbatim>\<open>trim\<close>, \<^verbatim>\<open>lines\<close>, \<^verbatim>\<open>split\<close> and \<^verbatim>\<open>find\<close> of an ASCII character. White space is the Unicode property
  \<^verbatim>\<open>White_Space\<close>; as UTF-8 is self-synchronizing, removing the encodings of white-space characters from the ends of a
  valid string is removing the characters.
\<close>

section \<open>Trimming\<close>

definition ws_seqs :: "bytes list" where
  "ws_seqs =
     [[9], [10], [11], [12], [13], [32], [0xC2, 0x85], [0xC2, 0xA0], [0xE1, 0x9A, 0x80],
      [0xE2, 0x80, 0x80], [0xE2, 0x80, 0x81], [0xE2, 0x80, 0x82], [0xE2, 0x80, 0x83], [0xE2, 0x80, 0x84],
      [0xE2, 0x80, 0x85], [0xE2, 0x80, 0x86], [0xE2, 0x80, 0x87], [0xE2, 0x80, 0x88], [0xE2, 0x80, 0x89],
      [0xE2, 0x80, 0x8A], [0xE2, 0x80, 0xA8], [0xE2, 0x80, 0xA9], [0xE2, 0x80, 0xAF], [0xE2, 0x81, 0x9F],
      [0xE3, 0x80, 0x80]]"

definition strip_one :: "bytes list \<Rightarrow> bytes \<Rightarrow> bytes option" where
  "strip_one ws s =
     map_option (\<lambda>w. drop (length w) s) (find (\<lambda>w. w \<noteq> [] \<and> take (length w) s = w) ws)"

lemma strip_one_shorter: "strip_one ws s = Some t \<Longrightarrow> length t < length s"
proof -
  assume "strip_one ws s = Some t"
  then obtain w where w: "find (\<lambda>w. w \<noteq> [] \<and> take (length w) s = w) ws = Some w" "t = drop (length w) s"
    by (auto simp: strip_one_def)
  then have "w \<noteq> []" "take (length w) s = w" by (auto simp: find_Some_iff)
  with w(2) show ?thesis by (cases s) auto
qed

function strip_while :: "bytes list \<Rightarrow> bytes \<Rightarrow> bytes" where
  "strip_while ws s = (case strip_one ws s of None \<Rightarrow> s | Some t \<Rightarrow> strip_while ws t)"
  by pat_completeness auto
termination
  by (relation "measure (\<lambda>(ws, s). length s)") (simp_all add: strip_one_shorter)

declare strip_while.simps [simp del]

definition trim :: "bytes \<Rightarrow> bytes" where
  "trim s = (let t = strip_while ws_seqs s in rev (strip_while (map rev ws_seqs) (rev t)))"

section \<open>Lines and pieces\<close>

text \<open>A line loses its line feed and a carriage return right before it.\<close>

definition chomp :: "bytes \<Rightarrow> bytes" where
  "chomp l = (if l \<noteq> [] \<and> last l = 13 then butlast l else l)"

function lines_of :: "bytes \<Rightarrow> bytes list" where
  "lines_of s =
     (if s = [] then []
      else case dropWhile (\<lambda>c. c \<noteq> 10) s of
             [] \<Rightarrow> [s]
           | _ # r \<Rightarrow> chomp (takeWhile (\<lambda>c. c \<noteq> 10) s) # lines_of r)"
  by pat_completeness auto
termination
proof (relation "measure length")
  fix s :: bytes and x r
  assume "s \<noteq> []" and "dropWhile (\<lambda>c. c \<noteq> 10) s = x # r"
  then show "(r, s) \<in> measure length"
    using length_dropWhile_le [of "\<lambda>c. c \<noteq> 10" s] by simp
qed simp

declare lines_of.simps [simp del]

function split_on :: "u8 \<Rightarrow> bytes \<Rightarrow> bytes list" where
  "split_on c s =
     (case dropWhile (\<lambda>x. x \<noteq> c) s of
        [] \<Rightarrow> [s]
      | _ # r \<Rightarrow> takeWhile (\<lambda>x. x \<noteq> c) s # split_on c r)"
  by pat_completeness auto
termination
proof (relation "measure (length \<circ> snd)")
  fix c :: u8 and s x r
  assume "dropWhile (\<lambda>x. x \<noteq> c) s = x # r"
  then show "((c, r), (c, s)) \<in> measure (length \<circ> snd)"
    using length_dropWhile_le [of "\<lambda>x. x \<noteq> c" s] by simp
qed simp

declare split_on.simps [simp del]

section \<open>Laws\<close>

lemma lines_of_Nil [simp]: "lines_of [] = []"
  by (simp add: lines_of.simps)

lemma lines_of_line: "10 \<notin> set l \<Longrightarrow> lines_of (l @ 10 # r) = chomp l # lines_of r"
  by (subst lines_of.simps) (auto simp: takeWhile_append dropWhile_append)

lemma split_on_last: "c \<notin> set s \<Longrightarrow> split_on c s = [s]"
proof -
  assume "c \<notin> set s"
  then have "dropWhile (\<lambda>x. x \<noteq> c) s = []" by (auto simp: dropWhile_eq_Nil_conv)
  then show ?thesis by (subst split_on.simps) (simp only: list.case)
qed

lemma split_on_piece: "c \<notin> set p \<Longrightarrow> split_on c (p @ c # r) = p # split_on c r"
  by (subst split_on.simps) (auto simp: takeWhile_append dropWhile_append)

text \<open>Bytes that cannot start or end a white-space character: graphic ASCII.\<close>

definition graphic :: "u8 \<Rightarrow> bool" where
  "graphic b \<longleftrightarrow> 33 \<le> b \<and> b \<le> 126"

lemma strip_one_None:
  assumes "s = [] \<or> graphic (hd s)" and "\<forall>w \<in> set ws. w \<noteq> [] \<longrightarrow> \<not> graphic (hd w)"
  shows "strip_one ws s = None"
proof -
  have "\<not> (w \<noteq> [] \<and> take (length w) s = w)" if "w \<in> set ws" for w
    using assms that by (cases w; cases s) auto
  then have "find (\<lambda>w. w \<noteq> [] \<and> take (length w) s = w) ws = None" by (auto simp: find_None_iff)
  then show ?thesis by (simp add: strip_one_def)
qed

lemma ws_not_graphic: "\<forall>w \<in> set ws_seqs. w \<noteq> [] \<longrightarrow> \<not> graphic (hd w)"
  "\<forall>w \<in> set (map rev ws_seqs). w \<noteq> [] \<longrightarrow> \<not> graphic (hd w)"
  by (simp_all add: ws_seqs_def graphic_def)

lemma strip_while_idle: "strip_one ws s = None \<Longrightarrow> strip_while ws s = s"
  by (simp add: strip_while.simps)

lemma trim_graphic:
  assumes "s = [] \<or> (graphic (hd s) \<and> graphic (last s))"
  shows "trim s = s"
proof -
  have "strip_one ws_seqs s = None" using assms by (intro strip_one_None ws_not_graphic) auto
  moreover have "strip_one (map rev ws_seqs) (rev s) = None"
    using assms by (intro strip_one_None ws_not_graphic) (auto simp: hd_rev)
  ultimately show ?thesis by (simp add: trim_def strip_while_idle)
qed

lemma strip_space: "strip_one ws_seqs (32 # s) = Some s"
  by (simp add: strip_one_def ws_seqs_def)

lemma strip_space_end: "strip_one (map rev ws_seqs) (32 # s) = Some s"
  by (simp add: strip_one_def ws_seqs_def)

lemma trim_space_left: "trim (32 # s) = trim s"
  by (simp add: trim_def strip_while.simps [of ws_seqs "32 # s"] strip_space)

lemma trim_space_right:
  assumes "s \<noteq> []" and "graphic (hd s)"
  shows "trim (s @ [32]) = trim s"
proof -
  have "strip_one ws_seqs (s @ [32]) = None" "strip_one ws_seqs s = None"
    using assms by (intro strip_one_None ws_not_graphic; auto)+
  then show ?thesis
    by (simp add: trim_def strip_while_idle strip_while.simps [of "map rev ws_seqs" "32 # rev s"] strip_space_end)
qed

end
