(* ===== verification/Init.thy ===== *)
theory Init
  imports Ulib RustStr Utf8 Directory
begin

text \<open>
  The init server (\<^verbatim>\<open>apps/init/src/main.rs\<close>): the parser of the boot configuration, the service directory, the control
  protocol, launching of the service graph and the supervisor. Its only effects are system calls through the trap of the
  user library. A \<^verbatim>\<open>&str\<close> is its bytes. Fixed arrays are lists of that length; \<open>None\<close> is a panic.
\<close>

section \<open>Data\<close>

definition INIT_MAX_SERVICES :: nat where [simp]: "INIT_MAX_SERVICES = 16"
definition MAX_DEPS :: nat where [simp]: "MAX_DEPS = 4"
definition SUPERVISOR_TICK_MS :: usize where [simp]: "SUPERVISOR_TICK_MS = 100"
definition SUPERVISOR_PROBE_INTERVAL_TICKS :: usize where [simp]: "SUPERVISOR_PROBE_INTERVAL_TICKS = 10"
definition MAX_NAME :: nat where [simp]: "MAX_NAME = MAX_SERVICE_NAME"
definition MAX_BINARY :: nat where [simp]: "MAX_BINARY = MAX_PATH"
definition DEV_PCI_ECAM_BASE :: usize where [simp]: "DEV_PCI_ECAM_BASE = 0x4010000000"
definition DEV_VIRTIO_BLK_MMIO_BASE :: usize where [simp]: "DEV_VIRTIO_BLK_MMIO_BASE = 0x0a000000"
definition DEV_VIRTIO_BLK_MMIO_SIZE :: usize where [simp]: "DEV_VIRTIO_BLK_MMIO_SIZE = 0x1000"

datatype RestartPolicy = Always | OnFailure | OneShot
datatype HealthProbe = NoProbe | FsPing | BlkPing
datatype LaunchMode = LaunchSpawn | LaunchFsExec

record ServiceSpec =
  valid :: bool
  spec_name_len :: nat
  spec_name :: bytes
  binary_len :: nat
  binary :: bytes
  dep_count :: nat
  dep_name_lens :: "nat list"
  dep_names :: "bytes list"
  dep_mask :: u32
  restart_policy :: RestartPolicy
  health_probe :: HealthProbe
  launch_mode :: LaunchMode

definition spec_empty :: ServiceSpec where
  "spec_empty =
     \<lparr>valid = False, spec_name_len = 0, spec_name = replicate MAX_NAME 0, binary_len = 0, binary = replicate MAX_BINARY 0,
      dep_count = 0, dep_name_lens = replicate MAX_DEPS 0, dep_names = replicate MAX_DEPS (replicate MAX_NAME 0),
      dep_mask = 0, restart_policy = OneShot, health_probe = NoProbe, launch_mode = LaunchSpawn\<rparr>"

definition spec_name_bytes :: "ServiceSpec \<Rightarrow> bytes" where
  "spec_name_bytes s = take (spec_name_len s) (spec_name s)"

definition binary_str :: "ServiceSpec \<Rightarrow> bytes option" where
  "binary_str s = from_utf8 (take (binary_len s) (binary s))"

record ServiceRuntime =
  started :: bool
  attempted :: bool
  healthy_once :: bool
  probe_fail_streak :: u8
  next_probe_tick :: usize
  next_retry_tick :: usize

definition runtime_empty :: ServiceRuntime where
  "runtime_empty = \<lparr>started = False, attempted = False, healthy_once = False, probe_fail_streak = 0,
     next_probe_tick = 0, next_retry_tick = 0\<rparr>"

section \<open>The service directory\<close>

record RegistrySlot =
  slot_in_use :: bool
  slot_owner_pid :: usize
  slot_cap_handle :: usize
  slot_name_len :: nat
  slot_name :: bytes

definition slot_empty :: RegistrySlot where
  "slot_empty = \<lparr>slot_in_use = False, slot_owner_pid = 0, slot_cap_handle = 0, slot_name_len = 0,
     slot_name = replicate MAX_NAME 0\<rparr>"

definition name_eq :: "RegistrySlot \<Rightarrow> bytes \<Rightarrow> bool" where
  "name_eq s n \<longleftrightarrow> slot_in_use s \<and> slot_name_len s = length n \<and> take (slot_name_len s) (slot_name s) = n"

type_synonym directory = "RegistrySlot list"

definition directory_new :: directory where
  "directory_new = replicate INIT_MAX_SERVICES slot_empty"

definition fill_slot :: "bytes \<Rightarrow> usize \<Rightarrow> usize \<Rightarrow> RegistrySlot \<Rightarrow> RegistrySlot" where
  "fill_slot n pid cap s = s\<lparr>slot_in_use := True, slot_owner_pid := pid, slot_cap_handle := cap,
     slot_name_len := length n, slot_name := blit (slot_name s) 0 n\<rparr>"

definition dir_register :: "directory \<Rightarrow> bytes \<Rightarrow> usize \<Rightarrow> usize \<Rightarrow> bool \<times> directory" where
  "dir_register d n pid cap =
     (if n = [] \<or> MAX_NAME < length n \<or> cap = 0 then (False, d)
      else case upd_first (\<lambda>s. name_eq s n) (\<lambda>s. s\<lparr>slot_owner_pid := pid, slot_cap_handle := cap\<rparr>) d of
             Some d' \<Rightarrow> (True, d')
           | None \<Rightarrow>
               (case upd_first (\<lambda>s. \<not> slot_in_use s) (fill_slot n pid cap) d of
                  Some d' \<Rightarrow> (True, d')
                | None \<Rightarrow> (False, d)))"

definition dir_lookup :: "directory \<Rightarrow> bytes \<Rightarrow> usize option" where
  "dir_lookup d n = map_option slot_cap_handle (find (\<lambda>s. name_eq s n) d)"

section \<open>The boot configuration\<close>

definition clean_line :: "bytes \<Rightarrow> bytes" where
  "clean_line raw = trim (takeWhile (\<lambda>c. c \<noteq> of_char CHR ''#'') raw)"

definition parse_kv :: "bytes \<Rightarrow> (bytes \<times> bytes) option" where
  "parse_kv line =
     (case dropWhile (\<lambda>c. c \<noteq> of_char CHR ''='') line of
        [] \<Rightarrow> None
      | _ # rest \<Rightarrow>
          (let k = trim (takeWhile (\<lambda>c. c \<noteq> of_char CHR ''='') line);
               v = trim rest;
               v = (if 2 \<le> length v \<and> v ! 0 = 34 \<and> v ! (length v - 1) = 34 then slice 1 (length v - 1) v else v)
           in Some (k, v)))"

definition parse_service_section_name :: "bytes \<Rightarrow> bytes option" where
  "parse_service_section_name line =
     (if take 9 line \<noteq> lit ''[service.'' \<or> (line = [] \<or> last line \<noteq> of_char CHR '']'') then None
      else let n = slice 9 (length line - 1) line in if n = [] then None else Some n)"

definition copy_bytes :: "bytes \<Rightarrow> bytes \<Rightarrow> nat \<times> bytes" where
  "copy_bytes dst src = (let n = min (length dst) (length src) in (n, blit dst 0 (take n src)))"

definition add_dep :: "bytes \<Rightarrow> ServiceSpec \<Rightarrow> ServiceSpec" where
  "add_dep dep spec =
     (let dep = trim dep in
      if dep = [] \<or> MAX_DEPS \<le> dep_count spec then spec
      else let i = dep_count spec in
           case copy_bytes (dep_names spec ! i) dep of (n, buf) \<Rightarrow>
             spec\<lparr>dep_names := (dep_names spec)[i := buf], dep_name_lens := (dep_name_lens spec)[i := n],
                  dep_count := i + 1\<rparr>)"

definition parse_dep_list :: "ServiceSpec \<Rightarrow> bytes \<Rightarrow> ServiceSpec" where
  "parse_dep_list spec v = fold add_dep (split_on (of_char CHR '','') v) (spec\<lparr>dep_count := 0\<rparr>)"

definition parse_policy :: "bytes \<Rightarrow> RestartPolicy" where
  "parse_policy v =
     (if v = lit ''always'' then Always else if v = lit ''on-failure'' then OnFailure else OneShot)"

definition parse_probe :: "bytes \<Rightarrow> HealthProbe" where
  "parse_probe v = (if v = lit ''fs_ping'' then FsPing else if v = lit ''blk_ping'' then BlkPing else NoProbe)"

text \<open>The output array together with the number of entries filled.\<close>

type_synonym spec_table = "ServiceSpec list \<times> nat"

definition finish_spec :: "ServiceSpec \<Rightarrow> spec_table \<Rightarrow> spec_table" where
  "finish_spec cur t =
     (case t of (out, count) \<Rightarrow>
        if \<not> valid cur \<or> spec_name_len cur = 0 \<or> binary_len cur = 0 \<or> INIT_MAX_SERVICES \<le> count then (out, count)
        else (out[count := cur], count + 1))"

definition dep_bytes :: "ServiceSpec \<Rightarrow> nat \<Rightarrow> bytes" where
  "dep_bytes s di = take (dep_name_lens s ! di) (dep_names s ! di)"

definition dep_bit :: "ServiceSpec list \<Rightarrow> nat \<Rightarrow> bytes \<Rightarrow> u32" where
  "dep_bit specs count dname =
     (case find (\<lambda>j. spec_name_bytes (specs ! j) = dname) [0..<count] of
        Some j \<Rightarrow> push_bit j 1
      | None \<Rightarrow> 0)"

definition dep_mask_of :: "ServiceSpec list \<Rightarrow> nat \<Rightarrow> nat \<Rightarrow> u32" where
  "dep_mask_of specs count i =
     fold (\<lambda>di m. m OR dep_bit specs count (dep_bytes (specs ! i) di)) [0..<dep_count (specs ! i)] 0"

definition resolve_dep_mask :: "ServiceSpec list \<Rightarrow> nat \<Rightarrow> ServiceSpec list" where
  "resolve_dep_mask specs count =
     fold (\<lambda>i ss. ss[i := (ss ! i)\<lparr>dep_mask := dep_mask_of ss count i\<rparr>]) [0..<count] specs"

record parse_state =
  ps_table :: spec_table
  ps_cur :: ServiceSpec
  ps_in_service :: bool

definition apply_kv :: "bytes \<Rightarrow> bytes \<Rightarrow> ServiceSpec \<Rightarrow> ServiceSpec" where
  "apply_kv k v cur =
     (if k = lit ''binary'' then
        (case copy_bytes (binary cur) v of (n, b) \<Rightarrow> cur\<lparr>binary_len := n, binary := b\<rparr>)
      else if k = lit ''depends_on'' then parse_dep_list cur v
      else if k = lit ''restart_policy'' then cur\<lparr>restart_policy := parse_policy v\<rparr>
      else if k = lit ''health_probe'' then cur\<lparr>health_probe := parse_probe v\<rparr>
      else if k = lit ''launch'' then
        cur\<lparr>launch_mode := (if v = lit ''fs_exec'' then LaunchFsExec else LaunchSpawn)\<rparr>
      else cur)"

definition new_section :: "bytes \<Rightarrow> ServiceSpec" where
  "new_section n =
     (let cur = spec_empty\<lparr>valid := True, launch_mode := LaunchSpawn, restart_policy := OneShot, health_probe := NoProbe\<rparr>
      in case copy_bytes (spec_name cur) n of (len, b) \<Rightarrow> cur\<lparr>spec_name_len := len, spec_name := b\<rparr>)"

definition parse_line :: "bytes \<Rightarrow> parse_state \<Rightarrow> parse_state" where
  "parse_line raw ps =
     (let line = clean_line raw in
      if line = [] then ps
      else case parse_service_section_name line of
             Some n \<Rightarrow>
               \<lparr>ps_table = (if ps_in_service ps then finish_spec (ps_cur ps) (ps_table ps) else ps_table ps),
                ps_cur = new_section n, ps_in_service = True\<rparr>
           | None \<Rightarrow>
               (if \<not> ps_in_service ps then ps
                else case parse_kv line of
                       None \<Rightarrow> ps
                     | Some (k, v) \<Rightarrow> ps\<lparr>ps_cur := apply_kv k v (ps_cur ps)\<rparr>))"

definition parse_boot_graph :: "bytes \<Rightarrow> ServiceSpec list \<Rightarrow> spec_table" where
  "parse_boot_graph config out =
     (let ps = fold parse_line (lines_of config) \<lparr>ps_table = (out, 0), ps_cur = spec_empty, ps_in_service = False\<rparr>;
          t = (if ps_in_service ps then finish_spec (ps_cur ps) (ps_table ps) else ps_table ps)
      in case t of (specs, count) \<Rightarrow> (resolve_dep_mask specs count, count))"

section \<open>The control protocol, server side\<close>

definition parse_control_req :: "bytes \<Rightarrow> (u16 \<times> bytes) option" where
  "parse_control_req req =
     (if length req < CTL_HDR_LEN then None
      else
        let opc = from_le [req ! 0, req ! 1];
            name_len = unat (from_le [req ! 2, req ! 3] :: u16)
        in if name_len = 0 \<or> MAX_SERVICE_NAME < name_len then None
           else if length req < CTL_HDR_LEN + name_len then None
           else Some (opc, slice 4 (4 + name_len) req))"

definition device_query_value :: "bytes \<Rightarrow> usize option" where
  "device_query_value key =
     (if key = lit ''pci.ecam_base'' then Some DEV_PCI_ECAM_BASE
      else if key = lit ''virtio_blk.mmio_base'' then Some DEV_VIRTIO_BLK_MMIO_BASE
      else if key = lit ''virtio_blk.mmio_size'' then Some DEV_VIRTIO_BLK_MMIO_SIZE
      else None)"

definition handle_control_plane_msg ::
  "'w trap \<Rightarrow> usize \<Rightarrow> bytes \<Rightarrow> Handle option \<Rightarrow> directory \<times> 'w \<Rightarrow> bool \<times> directory \<times> 'w" where
  "handle_control_plane_msg trap from_pid msg recv_cap = (\<lambda>(reg, w).
     case parse_control_req msg of
       None \<Rightarrow> (False, reg, w)
     | Some (opc, n) \<Rightarrow>
         if opc = REQ_REGISTER_SERVICE then
           (case recv_cap of
              Some cap \<Rightarrow> (True, snd (dir_register reg n from_pid (to_usize cap)), w)
            | None \<Rightarrow> (True, reg, w))
         else if opc = REQ_LOOKUP_SERVICE then
           (case recv_cap of
              None \<Rightarrow> (True, reg, w)
            | Some reply_ep \<Rightarrow>
                (case dir_lookup reg n of
                   Some service_cap \<Rightarrow> (True, reg, sys_ipc_send_u trap reply_ep (lit ''OK'') (Some (Dynamic service_cap)) w)
                 | None \<Rightarrow> (True, reg, sys_ipc_send_u trap reply_ep (lit ''ENOENT'') None w)))
         else if opc = REQ_DEVICE_QUERY then
           (case recv_cap of
              None \<Rightarrow> (True, reg, w)
            | Some reply_ep \<Rightarrow>
                (case device_query_value n of
                   Some v \<Rightarrow>
                     (let out = replicate 10 0;
                          out = blit out 0 (lit ''OK'');
                          out = blit out 2 (to_le 8 v)
                      in (True, reg, sys_ipc_send_u trap reply_ep out None w))
                 | None \<Rightarrow> (True, reg, sys_ipc_send_u trap reply_ep (lit ''ENOENT'') None w)))
         else (False, reg, w))"

fun wait_for_reply_or_control ::
  "'w trap \<Rightarrow> bytes \<Rightarrow> usize \<Rightarrow> nat \<Rightarrow> bytes \<Rightarrow> directory \<times> 'w \<Rightarrow> bool \<times> directory \<times> 'w" where
  "wait_for_reply_or_control trap expected timeout_ms 0 buf st = (False, st)"
| "wait_for_reply_or_control trap expected timeout_ms (Suc tries) buf (reg, w) =
     (case sys_ipc_recv_timeout_u trap buf timeout_ms w of
        (n, from_pid, buf', recv_cap, w') \<Rightarrow>
          if n < 0 then wait_for_reply_or_control trap expected timeout_ms tries buf' (reg, w')
          else if recv_cap = None \<and> nat n = length expected \<and> take (nat n) buf' = expected then (True, reg, w')
          else case handle_control_plane_msg trap from_pid (take (nat n) buf') recv_cap (reg, w') of
                 (_, st') \<Rightarrow> wait_for_reply_or_control trap expected timeout_ms tries buf' st')"

definition send_ping_and_wait ::
  "'w trap \<Rightarrow> usize \<Rightarrow> bytes \<Rightarrow> bytes \<Rightarrow> directory \<times> 'w \<Rightarrow> bool \<times> directory \<times> 'w" where
  "send_ping_and_wait trap target req expected = (\<lambda>(reg, w).
     case sys_ipc_send_checked trap (Dynamic target) req (Some LocalEndpoint) w of
       (False, w') \<Rightarrow> (False, reg, w')
     | (True, w') \<Rightarrow> wait_for_reply_or_control trap expected 20 20 (replicate 64 0) (reg, w'))"

definition fs_exec :: "'w trap \<Rightarrow> bytes \<Rightarrow> directory \<times> 'w \<Rightarrow> bool \<times> directory \<times> 'w" where
  "fs_exec trap p = (\<lambda>(reg, w).
     if p = [] \<or> MAX_PATH < length p then (False, reg, w)
     else
       let req = replicate (PATH_HDR_LEN + MAX_PATH) 0;
           req = blit req 0 (to_le 2 FS_REQ_EXEC);
           req = blit req 2 (to_le 2 (of_nat (length p) :: u16));
           req = blit req 4 p
       in case sys_ipc_send_checked trap FsEndpoint (take (4 + length p) req) (Some LocalEndpoint) w of
            (False, w') \<Rightarrow> (False, reg, w')
          | (True, w') \<Rightarrow> wait_for_reply_or_control trap (lit ''OK'') 20 250 (replicate 64 0) (reg, w'))"

definition probe_service :: "'w trap \<Rightarrow> ServiceSpec \<Rightarrow> directory \<times> 'w \<Rightarrow> bool \<times> directory \<times> 'w" where
  "probe_service trap spec = (\<lambda>(reg, w).
     case health_probe spec of
       NoProbe \<Rightarrow> (True, reg, w)
     | FsPing \<Rightarrow>
         (case dir_lookup reg (spec_name_bytes spec) of
            None \<Rightarrow> (False, reg, w)
          | Some h \<Rightarrow> send_ping_and_wait trap h (to_le 2 FS_REQ_PING) (lit ''PONG'') (reg, w))
     | BlkPing \<Rightarrow>
         (case dir_lookup reg (spec_name_bytes spec) of
            None \<Rightarrow> (False, reg, w)
          | Some h \<Rightarrow> send_ping_and_wait trap h (to_le 2 BLK_REQ_PING) (lit ''PONG'') (reg, w)))"

definition spawn_service :: "'w trap \<Rightarrow> ServiceSpec \<Rightarrow> directory \<times> 'w \<Rightarrow> bool \<times> directory \<times> 'w" where
  "spawn_service trap spec = (\<lambda>(reg, w).
     case launch_mode spec of
       LaunchSpawn \<Rightarrow>
         (case binary_str spec of
            None \<Rightarrow> (False, reg, w)
          | Some path \<Rightarrow> (case sys_spawn_u trap path w of (r, w') \<Rightarrow> (r \<noteq> 0, reg, w')))
     | LaunchFsExec \<Rightarrow>
         (case binary_str spec of
            None \<Rightarrow> (False, reg, w)
          | Some path \<Rightarrow> fs_exec trap path (reg, w)))"

section \<open>Launching the service graph\<close>

text \<open>
  The state of a launch: the mask of started services, the progress flag, the runtime table, the directory and the world.
\<close>

record 'w launch =
  started_mask :: usize
  progress :: bool
  l_runtime :: "ServiceRuntime list"
  l_dir :: directory
  l_world :: 'w

definition all_mask :: "nat \<Rightarrow> usize" where
  "all_mask count = (if count = 32 then all_ones else push_bit count 1 - 1)"

definition launch_one :: "'w trap \<Rightarrow> ServiceSpec list \<Rightarrow> nat \<Rightarrow> 'w launch \<Rightarrow> 'w launch" where
  "launch_one trap specs i l =
     (if started_mask l AND push_bit i 1 \<noteq> 0 then l
      else if ucast (dep_mask (specs ! i)) AND NOT (started_mask l) \<noteq> 0 then l
      else
        let rt = (l_runtime l)[i := (l_runtime l ! i)\<lparr>attempted := True\<rparr>] in
        case spawn_service trap (specs ! i) (l_dir l, l_world l) of
          (True, reg, w) \<Rightarrow>
            \<lparr>started_mask = started_mask l OR push_bit i 1, progress = True,
             l_runtime = rt[i := (rt ! i)\<lparr>started := True\<rparr>], l_dir = reg, l_world = w\<rparr>
        | (False, reg, w) \<Rightarrow> l\<lparr>l_runtime := rt, l_dir := reg, l_world := w\<rparr>)"

definition launch_pass :: "'w trap \<Rightarrow> ServiceSpec list \<Rightarrow> nat \<Rightarrow> 'w launch \<Rightarrow> 'w launch" where
  "launch_pass trap specs count l = fold (launch_one trap specs) [0..<count] (l\<lparr>progress := False\<rparr>)"

text \<open>A clear bit of the mask is set by every pass that makes progress.\<close>

definition clear_bits :: "usize \<Rightarrow> nat" where
  "clear_bits m = card {j. j < 64 \<and> \<not> bit m j}"

lemma bit_one_shift: "bit (push_bit i (1 :: 'a::len word)) j \<longleftrightarrow> j = i \<and> i < LENGTH('a)"
  by (auto simp: bit_simps)

lemma and_bit_zero: "m AND push_bit i 1 = 0 \<longleftrightarrow> \<not> bit m i" if "i < LENGTH('a)" for m :: "'a::len word"
  using that unfolding bit_eq_iff [of "m AND push_bit i 1"] by (auto simp: bit_and_iff bit_exp_iff)

lemma clear_bits_set: "i < 64 \<Longrightarrow> \<not> bit m i \<Longrightarrow> clear_bits (m OR push_bit i 1) < clear_bits m"
  unfolding clear_bits_def by (rule psubset_card_mono) (auto simp: bit_simps)

lemma launch_one_mask:
  assumes "i < 64"
  shows "(started_mask (launch_one trap specs i l) = started_mask l \<and> progress (launch_one trap specs i l) = progress l)
    \<or> (\<not> bit (started_mask l) i \<and> started_mask (launch_one trap specs i l) = started_mask l OR push_bit i 1)"
proof (cases "started_mask l AND push_bit i 1 = 0 \<and> ucast (dep_mask (specs ! i)) AND NOT (started_mask l) = 0")
  case True
  moreover from True have "\<not> bit (started_mask l) i" using and_bit_zero [of i "started_mask l"] assms by simp
  ultimately show ?thesis
    by (cases "spawn_service trap (specs ! i) (l_dir l, l_world l)") (auto simp: launch_one_def Let_def split: bool.split)
next
  case False
  then have "launch_one trap specs i l = l" by (auto simp: launch_one_def)
  then show ?thesis by simp
qed

lemma launch_one_clear:
  assumes "i < 64"
  shows "clear_bits (started_mask (launch_one trap specs i l)) \<le> clear_bits (started_mask l)"
    and "progress (launch_one trap specs i l) \<Longrightarrow> \<not> progress l \<Longrightarrow>
      clear_bits (started_mask (launch_one trap specs i l)) < clear_bits (started_mask l)"
  using launch_one_mask [OF assms, of trap specs l] clear_bits_set [OF assms, of "started_mask l"] by auto

lemma launch_fold_clear:
  assumes "\<forall>i \<in> set is. i < 64"
  shows "clear_bits (started_mask (fold (launch_one trap specs) is l)) \<le> clear_bits (started_mask l)
    \<and> (progress (fold (launch_one trap specs) is l) \<longrightarrow> \<not> progress l \<longrightarrow>
        clear_bits (started_mask (fold (launch_one trap specs) is l)) < clear_bits (started_mask l))"
  using assms
proof (induction "is" arbitrary: l)
  case Nil
  then show ?case by simp
next
  case (Cons i "is")
  let ?l = "launch_one trap specs i l"
  have i: "i < 64" using Cons.prems by simp
  have IH: "clear_bits (started_mask (fold (launch_one trap specs) is ?l)) \<le> clear_bits (started_mask ?l)
    \<and> (progress (fold (launch_one trap specs) is ?l) \<longrightarrow> \<not> progress ?l \<longrightarrow>
        clear_bits (started_mask (fold (launch_one trap specs) is ?l)) < clear_bits (started_mask ?l))"
    using Cons by simp
  show ?case using IH launch_one_clear [OF i, of trap specs l] by (cases "progress ?l") auto
qed

function launch_loop :: "'w trap \<Rightarrow> ServiceSpec list \<Rightarrow> nat \<Rightarrow> 'w launch \<Rightarrow> 'w launch option" where
  "launch_loop trap specs count l =
     (if INIT_MAX_SERVICES < count then None
      else
        let l' = launch_pass trap specs count l in
        if started_mask l' = all_mask count \<or> \<not> progress l' then Some l'
        else launch_loop trap specs count l')"
  by pat_completeness auto
termination
proof (relation "measure (\<lambda>(trap, specs, count, l). clear_bits (started_mask l))")
  fix trap :: "'w trap" and specs count and l x :: "'w launch"
  assume a: "\<not> INIT_MAX_SERVICES < count" "x = launch_pass trap specs count l"
    "\<not> (started_mask x = all_mask count \<or> \<not> progress x)"
  have "\<forall>i \<in> set [0..<count]. i < 64" using a(1) by auto
  from launch_fold_clear [OF this, of trap specs "l\<lparr>progress := False\<rparr>"] a
  show "((trap, specs, count, x), trap, specs, count, l) \<in> measure (\<lambda>(trap, specs, count, l). clear_bits (started_mask l))"
    by (simp add: launch_pass_def)
qed simp

declare launch_loop.simps [simp del]

definition launch_graph ::
  "'w trap \<Rightarrow> ServiceSpec list \<Rightarrow> nat \<Rightarrow> ServiceRuntime list \<Rightarrow> directory \<Rightarrow> 'w
     \<Rightarrow> (ServiceRuntime list \<times> directory \<times> 'w) option" where
  "launch_graph trap specs count rt reg w =
     map_option (\<lambda>l. (l_runtime l, l_dir l, l_world l))
       (launch_loop trap specs count
          \<lparr>started_mask = 0, progress = False, l_runtime = rt, l_dir = reg, l_world = w\<rparr>)"

section \<open>The supervisor\<close>

type_synonym 'w sup_state = "ServiceRuntime list \<times> directory \<times> 'w"

definition mask_of_started :: "nat \<Rightarrow> ServiceRuntime list \<Rightarrow> u32" where
  "mask_of_started count rt = fold (\<lambda>i m. if started (rt ! i) then m OR push_bit i 1 else m) [0..<count] 0"

definition needs_restart :: "RestartPolicy \<Rightarrow> ServiceRuntime \<Rightarrow> bool" where
  "needs_restart p r =
     (case p of
        Always \<Rightarrow> 3 \<le> probe_fail_streak r
      | OnFailure \<Rightarrow> healthy_once r \<and> 3 \<le> probe_fail_streak r
      | OneShot \<Rightarrow> False)"

definition probe_step :: "'w trap \<Rightarrow> usize \<Rightarrow> ServiceSpec \<Rightarrow> ServiceRuntime \<Rightarrow> directory \<times> 'w
    \<Rightarrow> ServiceRuntime \<times> directory \<times> 'w" where
  "probe_step trap tick spec r st =
     (let r = r\<lparr>next_probe_tick := sat_add tick SUPERVISOR_PROBE_INTERVAL_TICKS\<rparr> in
      case probe_service trap spec st of
        (False, reg, w) \<Rightarrow>
          (let r = r\<lparr>probe_fail_streak := sat_add (probe_fail_streak r) 1\<rparr> in
           if needs_restart (restart_policy spec) r then
             (r\<lparr>started := False, healthy_once := False, probe_fail_streak := 0,
                next_probe_tick := sat_add tick SUPERVISOR_PROBE_INTERVAL_TICKS, next_retry_tick := tick + 10\<rparr>,
              reg, sys_log trap ''init: supervisor restarting unhealthy service'' w)
           else (r, reg, w))
      | (True, reg, w) \<Rightarrow> (r\<lparr>healthy_once := True, probe_fail_streak := 0\<rparr>, reg, w))"

definition supervise_one ::
  "'w trap \<Rightarrow> usize \<Rightarrow> u32 \<Rightarrow> ServiceSpec \<Rightarrow> ServiceRuntime \<Rightarrow> directory \<times> 'w \<Rightarrow> ServiceRuntime \<times> directory \<times> 'w" where
  "supervise_one trap tick sm spec r st =
     (if \<not> started r then
        (if restart_policy spec = OneShot \<and> attempted r then (r, st)
         else if dep_mask spec AND NOT sm = 0 \<and> next_retry_tick r \<le> tick then
           (case spawn_service trap spec st of
              (True, st') \<Rightarrow> (r\<lparr>attempted := True, started := True\<rparr>, st')
            | (False, st') \<Rightarrow> (r\<lparr>attempted := True\<rparr>, st'))
         else (r, st))
      else if restart_policy spec = OneShot \<or> health_probe spec = NoProbe then (r, st)
      else if tick < next_probe_tick r then (r, st)
      else probe_step trap tick spec r st)"

definition supervise_at ::
  "'w trap \<Rightarrow> usize \<Rightarrow> u32 \<Rightarrow> ServiceSpec list \<Rightarrow> nat \<Rightarrow> 'w sup_state \<Rightarrow> 'w sup_state" where
  "supervise_at trap tick sm specs i s =
     (case s of (rt, st) \<Rightarrow>
        (case supervise_one trap tick sm (specs ! i) (rt ! i) st of (r, st') \<Rightarrow> (rt[i := r], st')))"

definition supervisor_tick ::
  "'w trap \<Rightarrow> usize \<Rightarrow> ServiceSpec list \<Rightarrow> nat \<Rightarrow> 'w sup_state \<Rightarrow> 'w sup_state option" where
  "supervisor_tick trap tick specs count s =
     (if INIT_MAX_SERVICES < count then None
      else let sm = mask_of_started count (fst s)
           in Some (fold (supervise_at trap tick sm specs) [0..<count] s))"

section \<open>The main loop\<close>

record 'w init_state =
  i_tick :: usize
  i_buf :: bytes
  i_sup :: "'w sup_state"

definition control_plane_step :: "'w trap \<Rightarrow> ServiceSpec list \<Rightarrow> nat \<Rightarrow> 'w init_state \<Rightarrow> 'w init_state option" where
  "control_plane_step trap specs count s =
     (case i_sup s of (rt, reg, w) \<Rightarrow>
        (case sys_ipc_recv_timeout_u trap (i_buf s) SUPERVISOR_TICK_MS w of
           (n, from_pid, buf, recv_cap, w1) \<Rightarrow>
             (let st = (if 0 \<le> n \<and> 0 < nat n
                        then snd (handle_control_plane_msg trap from_pid (take (nat n) buf) recv_cap (reg, w1))
                        else (reg, w1));
                  tick = sat_add (i_tick s) 1
              in map_option (\<lambda>s'. \<lparr>i_tick = tick, i_buf = buf, i_sup = s'\<rparr>)
                   (supervisor_tick trap tick specs count (rt, st)))))"

text \<open>The server never returns; its state after \<open>n\<close> rounds of the loop.\<close>

fun control_plane_loop :: "'w trap \<Rightarrow> ServiceSpec list \<Rightarrow> nat \<Rightarrow> nat \<Rightarrow> 'w init_state \<Rightarrow> 'w init_state option" where
  "control_plane_loop trap specs count 0 s = Some s"
| "control_plane_loop trap specs count (Suc n) s =
     (case control_plane_step trap specs count s of
        None \<Rightarrow> None
      | Some s' \<Rightarrow> control_plane_loop trap specs count n s')"

definition loop_entry :: "'w sup_state \<Rightarrow> 'w init_state" where
  "loop_entry s = \<lparr>i_tick = 0, i_buf = replicate (CTL_HDR_LEN + MAX_SERVICE_NAME + 8) 0, i_sup = s\<rparr>"

text \<open>\<^verbatim>\<open>_start\<close> up to the main loop: the services, their number and the state in which the loop is entered.\<close>

definition initial_directory :: directory where
  "initial_directory =
     (let d = snd (dir_register directory_new (lit ''init'') 1 (to_usize LocalEndpoint))
      in snd (dir_register d (lit ''device_manager'') 1 (to_usize LocalEndpoint)))"

definition init_start :: "'w trap \<Rightarrow> 'w \<Rightarrow> (ServiceSpec list \<times> nat \<times> 'w init_state) option" where
  "init_start trap w =
     (case init_allocator trap w of (_, w) \<Rightarrow>
      let w = sys_log trap ''init: control plane started'' w;
          specs = replicate INIT_MAX_SERVICES spec_empty;
          rt = replicate INIT_MAX_SERVICES runtime_empty
      in case sys_get_boot_cfg_u trap (replicate 2048 0) w of (cfg_len, cfg_buf, w) \<Rightarrow>
           if cfg_len = 0 then
             Some (specs, 0, loop_entry (rt, initial_directory, sys_log trap ''init: missing boot cfg'' w))
           else if length cfg_buf < unat cfg_len then None
           else
             let (specs, count) = (case from_utf8 (take (unat cfg_len) cfg_buf) of
                    Some s \<Rightarrow> parse_boot_graph s specs
                  | None \<Rightarrow> (specs, 0))
             in case launch_graph trap specs count rt initial_directory w of
                  None \<Rightarrow> None
                | Some (rt, reg, w) \<Rightarrow>
                    Some (specs, count,
                      loop_entry (rt, reg, sys_log trap ''init: boot graph launched, supervisor running'' w)))"

end
