(* ===== verification/BootConfig.thy ===== *)
theory BootConfig
  imports Init
begin

text \<open>
  Properties of the boot configuration parser of the init server: every table it produces is well formed with exact dependency
  masks, and parsing inverts printing.
\<close>

section \<open>Well-formed specifications\<close>

definition spec_ok :: "ServiceSpec \<Rightarrow> bool" where
  "spec_ok s \<longleftrightarrow>
     length (spec_name s) = MAX_NAME \<and> spec_name_len s \<le> MAX_NAME
     \<and> length (binary s) = MAX_BINARY \<and> binary_len s \<le> MAX_BINARY
     \<and> length (dep_names s) = MAX_DEPS \<and> list_all (\<lambda>b. length b = MAX_NAME) (dep_names s)
     \<and> length (dep_name_lens s) = MAX_DEPS \<and> list_all (\<lambda>n. n \<le> MAX_NAME) (dep_name_lens s)
     \<and> dep_count s \<le> MAX_DEPS"

definition table_ok :: "spec_table \<Rightarrow> bool" where
  "table_ok t \<longleftrightarrow> (case t of (out, count) \<Rightarrow>
     length out = INIT_MAX_SERVICES \<and> count \<le> INIT_MAX_SERVICES
     \<and> (\<forall>i < count. spec_ok (out ! i) \<and> valid (out ! i) \<and> 0 < spec_name_len (out ! i) \<and> 0 < binary_len (out ! i)))"

lemma copy_bytes_length: "copy_bytes dst src = (n, b) \<Longrightarrow> length b = length dst \<and> n \<le> length dst"
  by (auto simp: copy_bytes_def Let_def slice_simps)

lemma copy_bytes_take: "length src \<le> length dst \<Longrightarrow> copy_bytes dst src = (n, b) \<Longrightarrow> n = length src \<and> take n b = src"
  by (auto simp: copy_bytes_def Let_def slice_simps)

lemma spec_ok_empty: "spec_ok spec_empty"
  by (simp add: spec_ok_def spec_empty_def list_all_iff)

lemma spec_ok_section: "spec_ok (new_section n)"
  by (auto simp: new_section_def spec_ok_def spec_empty_def Let_def list_all_iff dest: copy_bytes_length split: prod.splits)

lemma spec_ok_add_dep: "spec_ok s \<Longrightarrow> spec_ok (add_dep d s)"
  by (auto simp: add_dep_def spec_ok_def Let_def list_all_length nth_list_update dest!: copy_bytes_length split: prod.splits)

lemma spec_ok_deps: "spec_ok s \<Longrightarrow> spec_ok (fold add_dep ds s)"
  by (induction ds arbitrary: s) (simp_all add: spec_ok_add_dep)

lemma spec_ok_dep_list: "spec_ok s \<Longrightarrow> spec_ok (parse_dep_list s v)"
  unfolding parse_dep_list_def by (rule spec_ok_deps) (simp add: spec_ok_def)

lemma spec_ok_binary: "spec_ok s \<Longrightarrow> copy_bytes (binary s) v = (n, b) \<Longrightarrow> spec_ok (s\<lparr>binary_len := n, binary := b\<rparr>)"
  using copy_bytes_length [of "binary s" v n b] by (simp add: spec_ok_def)

lemma spec_ok_modes:
  "spec_ok s \<Longrightarrow> spec_ok (s\<lparr>restart_policy := p\<rparr>)" "spec_ok s \<Longrightarrow> spec_ok (s\<lparr>health_probe := h\<rparr>)"
  "spec_ok s \<Longrightarrow> spec_ok (s\<lparr>launch_mode := m\<rparr>)"
  by (simp_all add: spec_ok_def)

lemma spec_ok_kv: "spec_ok s \<Longrightarrow> spec_ok (apply_kv k v s)"
  unfolding apply_kv_def
  by (simp only: spec_ok_dep_list spec_ok_modes spec_ok_binary if_split split: prod.split) (simp add: spec_ok_binary)

lemma table_ok_finish: "table_ok t \<Longrightarrow> spec_ok cur \<Longrightarrow> table_ok (finish_spec cur t)"
  by (auto simp: table_ok_def finish_spec_def nth_list_update split: prod.splits)

definition parse_ok :: "parse_state \<Rightarrow> bool" where
  "parse_ok ps \<longleftrightarrow> table_ok (ps_table ps) \<and> spec_ok (ps_cur ps)"

lemma parse_ok_line: "parse_ok ps \<Longrightarrow> parse_ok (parse_line raw ps)"
  by (auto simp: parse_ok_def parse_line_def Let_def table_ok_finish spec_ok_section spec_ok_kv split: option.splits)

lemma parse_ok_lines: "parse_ok ps \<Longrightarrow> parse_ok (fold parse_line ls ps)"
  by (induction ls arbitrary: ps) (simp_all add: parse_ok_line)

section \<open>Dependency masks\<close>

lemma resolve_prefix:
  assumes "k \<le> count" and "count \<le> length specs"
  shows "fold (\<lambda>i ss. ss[i := (ss ! i)\<lparr>dep_mask := dep_mask_of ss count i\<rparr>]) [0..<k] specs
    = map (\<lambda>i. if i < k then (specs ! i)\<lparr>dep_mask := dep_mask_of specs count i\<rparr> else specs ! i) [0..<length specs]"
  using assms
proof (induction k)
  case 0
  then show ?case by (simp add: map_nth)
next
  case (Suc k)
  let ?f = "\<lambda>k i. if i < k then (specs ! i)\<lparr>dep_mask := dep_mask_of specs count i\<rparr> else specs ! i"
  let ?ss = "map (?f k) [0..<length specs]"
  have nth: "?ss ! j = ?f k j" if "j < length specs" for j using that by simp
  have names: "spec_name_bytes (?ss ! j) = spec_name_bytes (specs ! j)" if "j < count" for j
    using that Suc.prems by (simp add: spec_name_bytes_def)
  have "dep_bit ?ss count d = dep_bit specs count d" for d
    unfolding dep_bit_def using names by (auto intro!: arg_cong [of _ _ "case_option 0 (\<lambda>j. push_bit j 1)"] find_cong)
  then have mask: "dep_mask_of ?ss count k = dep_mask_of specs count k"
    using Suc.prems by (simp add: dep_mask_of_def dep_bytes_def)
  have "fold (\<lambda>i ss. ss[i := (ss ! i)\<lparr>dep_mask := dep_mask_of ss count i\<rparr>]) [0..<Suc k] specs
      = ?ss[k := (?ss ! k)\<lparr>dep_mask := dep_mask_of ?ss count k\<rparr>]"
    using Suc by simp
  also have "\<dots> = map (?f (Suc k)) [0..<length specs]"
    using Suc.prems by (intro nth_equalityI) (auto simp: mask nth_list_update less_Suc_eq)
  finally show ?case .
qed

lemma resolve_eq:
  assumes "count \<le> length specs"
  shows "resolve_dep_mask specs count
    = map (\<lambda>i. if i < count then (specs ! i)\<lparr>dep_mask := dep_mask_of specs count i\<rparr> else specs ! i) [0..<length specs]"
  unfolding resolve_dep_mask_def using resolve_prefix [of count count specs] assms by simp

lemma bit_fold_or:
  "bit (fold (\<lambda>x m. m OR f x) xs a) j \<longleftrightarrow> bit a j \<or> (\<exists>x \<in> set xs. bit (f x) j)" for a :: u32
  by (induction xs arbitrary: a) (auto simp: bit_simps)

lemma find_first_index:
  "find P [0..<n] = Some j \<longleftrightarrow> j < n \<and> P j \<and> (\<forall>j' < j. \<not> P j')"
proof
  assume "find P [0..<n] = Some j"
  then show "j < n \<and> P j \<and> (\<forall>j' < j. \<not> P j')" by (auto simp: find_Some_iff)
next
  assume "j < n \<and> P j \<and> (\<forall>j' < j. \<not> P j')"
  then show "find P [0..<n] = Some j" by (auto simp: find_Some_iff intro!: exI [of _ j])
qed

lemma bit_dep_bit:
  assumes "count \<le> 16"
  shows "bit (dep_bit specs count d) j \<longleftrightarrow>
    j < count \<and> spec_name_bytes (specs ! j) = d \<and> (\<forall>j' < j. spec_name_bytes (specs ! j') \<noteq> d)"
proof (cases "find (\<lambda>j. spec_name_bytes (specs ! j) = d) [0..<count]")
  case None
  then have "dep_bit specs count d = 0" by (simp add: dep_bit_def)
  moreover from None have "\<forall>j < count. spec_name_bytes (specs ! j) \<noteq> d" by (auto simp: find_None_iff)
  ultimately show ?thesis by auto
next
  case (Some k)
  with assms find_first_index [of "\<lambda>j. spec_name_bytes (specs ! j) = d" count] show ?thesis
    by (auto simp: dep_bit_def bit_exp_iff) (metis nat_neq_iff)
qed

lemma bit_dep_mask:
  assumes "count \<le> 16"
  shows "bit (dep_mask_of specs count i) j \<longleftrightarrow>
    j < count \<and> (\<exists>di < dep_count (specs ! i). dep_bytes (specs ! i) di = spec_name_bytes (specs ! j)
       \<and> (\<forall>j' < j. spec_name_bytes (specs ! j') \<noteq> dep_bytes (specs ! i) di))"
  unfolding dep_mask_of_def bit_fold_or bit_dep_bit [OF assms] by (auto simp: atLeast0LessThan Bex_def)

lemma parse_table_ok:
  fixes config :: bytes
  assumes "length out = INIT_MAX_SERVICES"
  defines "ps \<equiv> fold parse_line (lines_of config) \<lparr>ps_table = (out, 0), ps_cur = spec_empty, ps_in_service = False\<rparr>"
  shows "table_ok (if ps_in_service ps then finish_spec (ps_cur ps) (ps_table ps) else ps_table ps)"
proof -
  have "parse_ok ps" unfolding ps_def using assms(1)
    by (intro parse_ok_lines) (simp add: parse_ok_def table_ok_def spec_ok_empty)
  then show ?thesis by (simp add: parse_ok_def table_ok_finish)
qed

lemma parse_count:
  assumes "length out = INIT_MAX_SERVICES"
  shows "snd (parse_boot_graph config out) \<le> INIT_MAX_SERVICES"
  using parse_table_ok [OF assms, of config]
  by (auto simp: parse_boot_graph_def table_ok_def Let_def split: prod.splits)

section \<open>Printing\<close>

record svc =
  sv_name :: bytes
  sv_binary :: bytes
  sv_deps :: "bytes list"
  sv_policy :: RestartPolicy
  sv_probe :: HealthProbe
  sv_mode :: LaunchMode

primrec show_policy :: "RestartPolicy \<Rightarrow> bytes" where
  "show_policy Always = lit ''always''"
| "show_policy OnFailure = lit ''on-failure''"
| "show_policy OneShot = lit ''one-shot''"

primrec show_probe :: "HealthProbe \<Rightarrow> bytes" where
  "show_probe NoProbe = lit ''none''"
| "show_probe FsPing = lit ''fs_ping''"
| "show_probe BlkPing = lit ''blk_ping''"

primrec show_mode :: "LaunchMode \<Rightarrow> bytes" where
  "show_mode LaunchSpawn = lit ''spawn''"
| "show_mode LaunchFsExec = lit ''fs_exec''"

fun show_deps :: "bytes list \<Rightarrow> bytes" where
  "show_deps [] = []"
| "show_deps [d] = d"
| "show_deps (d # ds) = d @ [44] @ show_deps ds"

definition show_kv :: "string \<Rightarrow> bytes \<Rightarrow> bytes" where
  "show_kv k v = lit k @ [32, 61, 32, 34] @ v @ [34]"

definition show_svc :: "svc \<Rightarrow> bytes list" where
  "show_svc s =
     [lit ''[service.'' @ sv_name s @ [93],
      show_kv ''binary'' (sv_binary s),
      show_kv ''depends_on'' (show_deps (sv_deps s)),
      show_kv ''restart_policy'' (show_policy (sv_policy s)),
      show_kv ''health_probe'' (show_probe (sv_probe s)),
      show_kv ''launch'' (show_mode (sv_mode s))]"

definition show_boot_graph :: "svc list \<Rightarrow> bytes" where
  "show_boot_graph ss = concat (map (\<lambda>l. l @ [10]) (concat (map show_svc ss)))"

text \<open>Tokens: graphic ASCII without the comment sign; names of dependencies contain no comma either.\<close>

definition token :: "bytes \<Rightarrow> bool" where
  "token t \<longleftrightarrow> t \<noteq> [] \<and> list_all graphic t \<and> 35 \<notin> set t"

definition svc_ok :: "svc \<Rightarrow> bool" where
  "svc_ok s \<longleftrightarrow>
     token (sv_name s) \<and> length (sv_name s) \<le> MAX_NAME \<and> token (sv_binary s) \<and> length (sv_binary s) \<le> MAX_BINARY
     \<and> length (sv_deps s) \<le> MAX_DEPS \<and> list_all (\<lambda>d. token d \<and> 44 \<notin> set d \<and> length d \<le> MAX_NAME) (sv_deps s)"

text \<open>A line of a printed configuration: graphic at both ends, no control characters, no comment sign.\<close>

definition plain_line :: "bytes \<Rightarrow> bool" where
  "plain_line l \<longleftrightarrow> l \<noteq> [] \<and> graphic (hd l) \<and> graphic (last l) \<and> 35 \<notin> set l \<and> 10 \<notin> set l \<and> 13 \<notin> set l"

lemma plain_clean: "plain_line l \<Longrightarrow> clean_line l = l"
proof -
  assume l: "plain_line l"
  then have "\<forall>c \<in> set l. c \<noteq> 35" by (auto simp: plain_line_def)
  then have all: "takeWhile (\<lambda>c. c \<noteq> 35) l = l" unfolding takeWhile_eq_all_conv .
  have "clean_line l = trim l" by (simp add: clean_line_def all)
  then show ?thesis using l trim_graphic [of l] by (simp add: plain_line_def)
qed

lemma plain_chomp: "plain_line l \<Longrightarrow> chomp l = l"
  by (auto simp: plain_line_def chomp_def graphic_def)

lemma lines_of_plain: "list_all plain_line ls \<Longrightarrow> lines_of (concat (map (\<lambda>l. l @ [10]) ls)) = ls"
proof (induction ls)
  case Nil
  then show ?case by simp
next
  case (Cons l ls)
  then have "10 \<notin> set l" "chomp l = l" by (auto simp: plain_line_def plain_chomp)
  then show ?case using Cons lines_of_line [of l "concat (map (\<lambda>l. l @ [10]) ls)"] by simp
qed

lemma graphic_not_control: "graphic b \<Longrightarrow> b \<noteq> 10 \<and> b \<noteq> 13 \<and> b \<noteq> 32"
  by (auto simp: graphic_def)

lemma kv_plain:
  assumes "list_all graphic (lit k)" and "k \<noteq> []" and "35 \<notin> set (lit k)" and "list_all graphic v" and "35 \<notin> set v"
  shows "plain_line (show_kv k v)"
proof -
  have "10 \<notin> set (lit k)" "13 \<notin> set (lit k)" "10 \<notin> set v" "13 \<notin> set v"
    using assms(1,4) graphic_not_control by (auto simp: list_all_iff)
  moreover have "graphic (hd (lit k))" using assms(1,2) by (cases k) simp_all
  ultimately show ?thesis using assms(2,3,5) by (simp add: plain_line_def show_kv_def graphic_def lit_def)
qed

section \<open>Parsing what was printed\<close>

lemma trim_key:
  assumes "k \<noteq> []" and "list_all graphic k"
  shows "trim (k @ [32]) = k"
proof -
  have "graphic (hd k)" "graphic (last k)" using assms by (auto simp: list_all_iff)
  with trim_space_right [OF assms(1)] trim_graphic [of k] show ?thesis by simp
qed

lemma parse_kv_show:
  assumes "k \<noteq> []" and "list_all graphic (lit k)" and "61 \<notin> set (lit k)"
  shows "parse_kv (show_kv k v) = Some (lit k, v)"
proof -
  have no: "\<forall>c \<in> set (lit k @ [32]). c \<noteq> 61" using assms(3) by auto
  have split: "show_kv k v = (lit k @ [32]) @ 61 # 32 # 34 # v @ [34]" by (simp add: show_kv_def)
  have "dropWhile (\<lambda>c. c \<noteq> 61) (show_kv k v) = 61 # 32 # 34 # v @ [34]"
    unfolding split using no by (subst dropWhile_append2) auto
  moreover have "takeWhile (\<lambda>c. c \<noteq> 61) (show_kv k v) = lit k @ [32]"
    unfolding split using no by (subst takeWhile_append2) auto
  moreover have "trim (lit k @ [32]) = lit k" using assms by (intro trim_key) (auto simp: lit_def)
  moreover have "trim (32 # 34 # v @ [34]) = 34 # v @ [34]"
    unfolding trim_space_left by (rule trim_graphic) (simp add: graphic_def)
  ultimately show ?thesis by (simp add: parse_kv_def slice_def nth_append)
qed

lemma section_show:
  assumes "n \<noteq> []"
  shows "parse_service_section_name (lit ''[service.'' @ n @ [93]) = Some n"
  using assms by (simp add: parse_service_section_name_def slice_def)

lemma section_kv: "k \<noteq> [] \<Longrightarrow> hd k \<noteq> CHR ''['' \<Longrightarrow> parse_service_section_name (show_kv k v) = None"
  by (cases k) (auto simp: parse_service_section_name_def show_kv_def)

lemma parse_line_kv:
  assumes "k \<in> {''binary'', ''depends_on'', ''restart_policy'', ''health_probe'', ''launch''}"
    and "list_all graphic v" and "35 \<notin> set v" and "ps_in_service ps"
  shows "parse_line (show_kv k v) ps = ps\<lparr>ps_cur := apply_kv (lit k) v (ps_cur ps)\<rparr>"
proof -
  have k: "k \<noteq> []" "list_all graphic (lit k)" "61 \<notin> set (lit k)" "35 \<notin> set (lit k)" "hd k \<noteq> CHR ''[''"
    using assms(1) by (auto simp: graphic_def)
  have "clean_line (show_kv k v) = show_kv k v" using k assms by (intro plain_clean kv_plain)
  moreover have "show_kv k v \<noteq> []" by (simp add: show_kv_def)
  ultimately show ?thesis
    using assms(4) parse_kv_show [OF k(1,2,3)] section_kv [OF k(1,5)] by (simp add: parse_line_def)
qed

lemma parse_line_section:
  assumes "token n"
  shows "parse_line (lit ''[service.'' @ n @ [93]) ps =
    \<lparr>ps_table = (if ps_in_service ps then finish_spec (ps_cur ps) (ps_table ps) else ps_table ps),
     ps_cur = new_section n, ps_in_service = True\<rparr>"
proof -
  have "10 \<notin> set n" "13 \<notin> set n" using assms graphic_not_control by (auto simp: token_def list_all_iff)
  then have "plain_line (lit ''[service.'' @ n @ [93])"
    using assms by (simp add: plain_line_def token_def graphic_def)
  from plain_clean [OF this] section_show [of n] assms show ?thesis
    by (simp add: parse_line_def token_def)
qed

definition spec_of :: "svc \<Rightarrow> ServiceSpec" where
  "spec_of s = apply_kv (lit ''launch'') (show_mode (sv_mode s)) (apply_kv (lit ''health_probe'') (show_probe (sv_probe s))
     (apply_kv (lit ''restart_policy'') (show_policy (sv_policy s)) (apply_kv (lit ''depends_on'') (show_deps (sv_deps s))
     (apply_kv (lit ''binary'') (sv_binary s) (new_section (sv_name s))))))"

lemma show_deps_chars:
  assumes "list_all (\<lambda>d. token d \<and> 44 \<notin> set d \<and> length d \<le> MAX_NAME) ds"
  shows "list_all graphic (show_deps ds) \<and> 35 \<notin> set (show_deps ds)"
  using assms by (induction ds rule: show_deps.induct) (auto simp: token_def graphic_def)

lemma show_word_chars:
  "list_all graphic (show_policy p) \<and> 35 \<notin> set (show_policy p)"
  "list_all graphic (show_probe h) \<and> 35 \<notin> set (show_probe h)"
  "list_all graphic (show_mode m) \<and> 35 \<notin> set (show_mode m)"
  by ((cases p; simp add: graphic_def), (cases h; simp add: graphic_def), (cases m; simp add: graphic_def))

lemma parse_svc:
  assumes "svc_ok s"
  shows "fold parse_line (show_svc s) ps =
    \<lparr>ps_table = (if ps_in_service ps then finish_spec (ps_cur ps) (ps_table ps) else ps_table ps),
     ps_cur = spec_of s, ps_in_service = True\<rparr>"
proof -
  have "list_all graphic (sv_binary s)" "35 \<notin> set (sv_binary s)" "token (sv_name s)"
    using assms by (auto simp: svc_ok_def token_def)
  moreover have "list_all graphic (show_deps (sv_deps s))" "35 \<notin> set (show_deps (sv_deps s))"
    using show_deps_chars [of "sv_deps s"] assms by (auto simp: svc_ok_def)
  ultimately show ?thesis
    using show_word_chars by (simp add: show_svc_def parse_line_section parse_line_kv spec_of_def del: lit_Cons)
qed

text \<open>The service a specification describes.\<close>

definition deps_of :: "ServiceSpec \<Rightarrow> bytes list" where
  "deps_of s = map (dep_bytes s) [0..<dep_count s]"

definition svc_of :: "ServiceSpec \<Rightarrow> svc" where
  "svc_of s = \<lparr>sv_name = spec_name_bytes s, sv_binary = take (binary_len s) (binary s), sv_deps = deps_of s,
     sv_policy = restart_policy s, sv_probe = health_probe s, sv_mode = launch_mode s\<rparr>"

lemma deps_add:
  assumes "spec_ok s" and "dep_count s < MAX_DEPS" and "token d" and "length d \<le> MAX_NAME"
  shows "deps_of (add_dep d s) = deps_of s @ [d] \<and> dep_count (add_dep d s) = Suc (dep_count s)
    \<and> svc_of (add_dep d s) = (svc_of s)\<lparr>sv_deps := deps_of s @ [d]\<rparr>
    \<and> valid (add_dep d s) = valid s \<and> spec_name_len (add_dep d s) = spec_name_len s \<and> binary_len (add_dep d s) = binary_len s"
proof -
  have "graphic (hd d)" "graphic (last d)" using assms(3) by (auto simp: token_def list_all_iff)
  then have trim: "trim d = d" "d \<noteq> []" using trim_graphic [of d] assms(3) by (auto simp: token_def)
  let ?i = "dep_count s"
  obtain n b where cp: "copy_bytes (dep_names s ! ?i) d = (n, b)" by (metis prod.exhaust)
  have i: "?i < length (dep_names s)" "?i < length (dep_name_lens s)" "length (dep_names s ! ?i) = MAX_NAME"
    using assms(1,2) by (auto simp: spec_ok_def list_all_length)
  have nb: "n = length d" "take n b = d" using copy_bytes_take [OF _ cp] assms(4) i(3) by auto
  have add: "add_dep d s = s\<lparr>dep_names := (dep_names s)[?i := b], dep_name_lens := (dep_name_lens s)[?i := n], dep_count := ?i + 1\<rparr>"
    using assms(2) trim by (simp add: add_dep_def cp Let_def)
  have "deps_of (add_dep d s) = deps_of s @ [d]"
    using i nb by (auto simp: add deps_of_def dep_bytes_def)
  then show ?thesis by (simp add: add svc_of_def spec_name_bytes_def)
qed

lemma deps_fold:
  assumes "spec_ok s" and "dep_count s + length ds \<le> MAX_DEPS"
    and "list_all (\<lambda>d. token d \<and> 44 \<notin> set d \<and> length d \<le> MAX_NAME) ds"
  shows "svc_of (fold add_dep ds s) = (svc_of s)\<lparr>sv_deps := deps_of s @ ds\<rparr>
    \<and> valid (fold add_dep ds s) = valid s \<and> spec_name_len (fold add_dep ds s) = spec_name_len s
    \<and> binary_len (fold add_dep ds s) = binary_len s"
  using assms
proof (induction ds arbitrary: s)
  case Nil
  then show ?case by (simp add: svc_of_def)
next
  case (Cons d ds)
  then have d: "dep_count s < MAX_DEPS" "token d" "length d \<le> MAX_NAME" by auto
  note step = deps_add [OF Cons.prems(1) d]
  have "dep_count (add_dep d s) + length ds \<le> MAX_DEPS" using step Cons.prems(2) by simp
  from Cons.IH [OF spec_ok_add_dep [OF Cons.prems(1)] this] Cons.prems(3) step show ?case by simp
qed

lemma split_show_deps:
  assumes "list_all (\<lambda>d. token d \<and> 44 \<notin> set d \<and> length d \<le> MAX_NAME) ds"
  shows "split_on 44 (show_deps ds) = (if ds = [] then [[]] else ds)"
  using assms
proof (induction ds rule: show_deps.induct)
  case (3 d d' ds)
  then show ?case using split_on_piece [of 44 d "show_deps (d' # ds)"] by simp
qed (simp_all add: split_on_last)

lemma add_dep_nil: "add_dep [] s = s"
  using trim_graphic [of "[]"] by (simp add: add_dep_def)

lemma svc_of_dep_list:
  assumes "spec_ok s" and "length ds \<le> MAX_DEPS" and "list_all (\<lambda>d. token d \<and> 44 \<notin> set d \<and> length d \<le> MAX_NAME) ds"
  shows "svc_of (parse_dep_list s (show_deps ds)) = (svc_of s)\<lparr>sv_deps := ds\<rparr>
    \<and> valid (parse_dep_list s (show_deps ds)) = valid s
    \<and> spec_name_len (parse_dep_list s (show_deps ds)) = spec_name_len s
    \<and> binary_len (parse_dep_list s (show_deps ds)) = binary_len s"
proof -
  let ?s = "s\<lparr>dep_count := 0\<rparr>"
  have ok: "spec_ok ?s" using assms(1) by (simp add: spec_ok_def)
  have parse: "parse_dep_list s (show_deps ds) = fold add_dep ds ?s"
    using split_show_deps [OF assms(3)] by (simp add: parse_dep_list_def add_dep_nil)
  have "svc_of ?s = (svc_of s)\<lparr>sv_deps := []\<rparr>" "deps_of ?s = []"
    by (simp_all add: svc_of_def deps_of_def spec_name_bytes_def)
  with deps_fold [OF ok _ assms(3)] assms(2) show ?thesis unfolding parse by simp
qed

lemma parse_show_words:
  "parse_policy (show_policy p) = p" "parse_probe (show_probe h) = h"
  "(if show_mode m = lit ''fs_exec'' then LaunchFsExec else LaunchSpawn) = m"
  by ((cases p; simp add: parse_policy_def), (cases h; simp add: parse_probe_def), (cases m; simp))

lemma svc_of_modes:
  "svc_of (x\<lparr>restart_policy := p, health_probe := h, launch_mode := m\<rparr>) = (svc_of x)\<lparr>sv_policy := p, sv_probe := h, sv_mode := m\<rparr>"
  by (simp add: svc_of_def deps_of_def dep_bytes_def spec_name_bytes_def)

lemma set_deps_of: "d \<in> set (deps_of s) \<longleftrightarrow> (\<exists>di < dep_count s. d = dep_bytes s di)"
  by (auto simp: deps_of_def)

lemma show_svc_plain: "svc_ok s \<Longrightarrow> list_all plain_line (show_svc s)"
proof -
  assume s: "svc_ok s"
  have tok: "list_all graphic (sv_binary s)" "35 \<notin> set (sv_binary s)" "token (sv_name s)"
    using s by (auto simp: svc_ok_def token_def)
  have deps: "list_all graphic (show_deps (sv_deps s))" "35 \<notin> set (show_deps (sv_deps s))"
    using show_deps_chars [of "sv_deps s"] s by (auto simp: svc_ok_def)
  have keys: "plain_line (show_kv k v)" if "k \<in> {''binary'', ''depends_on'', ''restart_policy'', ''health_probe'', ''launch''}"
    and "list_all graphic v" "35 \<notin> set v" for k v
    using that by (intro kv_plain) (auto simp: graphic_def)
  have "10 \<notin> set (sv_name s)" "13 \<notin> set (sv_name s)"
    using tok(3) graphic_not_control by (auto simp: token_def list_all_iff)
  then have "plain_line (lit ''[service.'' @ sv_name s @ [93])"
    using tok(3) by (simp add: plain_line_def token_def graphic_def)
  then show ?thesis
    using tok(1,2) deps show_word_chars by (simp add: show_svc_def keys del: lit_Cons)
qed

lemma spec_of_svc:
  assumes "svc_ok s"
  shows "svc_of (spec_of s) = s \<and> valid (spec_of s) \<and> 0 < spec_name_len (spec_of s) \<and> 0 < binary_len (spec_of s)"
proof -
  obtain n b where nm: "copy_bytes (replicate MAX_NAME 0) (sv_name s) = (n, b)" by (metis prod.exhaust)
  obtain m c where bin: "copy_bytes (replicate MAX_BINARY 0) (sv_binary s) = (m, c)" by (metis prod.exhaust)
  have name: "n = length (sv_name s)" "take n b = sv_name s" "0 < n"
    using copy_bytes_take [OF _ nm] assms by (auto simp: svc_ok_def token_def)
  have bins: "m = length (sv_binary s)" "take m c = sv_binary s" "0 < m"
    using copy_bytes_take [OF _ bin] assms by (auto simp: svc_ok_def token_def)
  let ?a = "new_section (sv_name s)"
  have a: "?a = spec_empty\<lparr>valid := True, spec_name_len := n, spec_name := b\<rparr>"
    using nm by (simp add: new_section_def spec_empty_def)
  let ?b = "?a\<lparr>binary_len := m, binary := c\<rparr>"
  have ok: "spec_ok ?b" using spec_ok_binary [OF spec_ok_section, of "sv_name s" "sv_binary s"] bin
    by (simp add: a spec_empty_def)
  have b: "apply_kv (lit ''binary'') (sv_binary s) ?a = ?b" using bin by (simp add: apply_kv_def a spec_empty_def)
  let ?c = "parse_dep_list ?b (show_deps (sv_deps s))"
  have c: "apply_kv (lit ''depends_on'') (show_deps (sv_deps s)) ?b = ?c" by (simp add: apply_kv_def)
  have sp: "spec_of s = ?c\<lparr>restart_policy := sv_policy s, health_probe := sv_probe s, launch_mode := sv_mode s\<rparr>"
    unfolding spec_of_def b c by (cases "sv_mode s") (simp_all add: apply_kv_def parse_show_words)
  have "svc_of ?c = (svc_of ?b)\<lparr>sv_deps := sv_deps s\<rparr> \<and> valid ?c = valid ?b
      \<and> spec_name_len ?c = spec_name_len ?b \<and> binary_len ?c = binary_len ?b"
    using assms by (intro svc_of_dep_list ok) (simp_all add: svc_ok_def)
  moreover have "svc_of ?b = \<lparr>sv_name = sv_name s, sv_binary = sv_binary s, sv_deps = [], sv_policy = OneShot,
      sv_probe = NoProbe, sv_mode = LaunchSpawn\<rparr>" "valid ?b" "0 < spec_name_len ?b" "0 < binary_len ?b"
    using name bins by (simp_all add: svc_of_def a spec_name_bytes_def deps_of_def spec_empty_def)
  ultimately show ?thesis unfolding sp by (simp add: svc_of_modes)
qed

definition flush :: "parse_state \<Rightarrow> spec_table" where
  "flush ps = (if ps_in_service ps then finish_spec (ps_cur ps) (ps_table ps) else ps_table ps)"

lemma flush_services:
  assumes "list_all svc_ok ss"
  shows "flush (fold parse_line (concat (map show_svc ss)) ps) = fold (\<lambda>s. finish_spec (spec_of s)) ss (flush ps)"
  using assms
proof (induction ss arbitrary: ps)
  case (Cons s ss)
  then show ?case by (simp add: parse_svc) (simp add: flush_def)
qed simp

lemma finish_services:
  assumes "list_all svc_ok ss" and "c + length ss \<le> INIT_MAX_SERVICES" and "length out = INIT_MAX_SERVICES"
  shows "fold (\<lambda>s. finish_spec (spec_of s)) ss (out, c) = (take c out @ map spec_of ss @ drop (c + length ss) out, c + length ss)"
  using assms
proof (induction ss arbitrary: out c)
  case (Cons s ss)
  then have "finish_spec (spec_of s) (out, c) = (out[c := spec_of s], c + 1)"
    using spec_of_svc [of s] by (simp add: finish_spec_def)
  with Cons show ?case by (simp add: take_Suc_conv_app_nth drop_update_cancel take_update_cancel)
qed simp

section \<open>Properties\<close>

text \<open>
  C24. Whatever the configuration text, the parsed graph is well formed: at most 16 services, each with a non-empty name and
  binary that fit their arrays and at most four dependencies, and the dependency mask of a service has exactly the bits of
  those services that are the first to carry the name of one of its dependencies. A dependency on an unknown name
  therefore contributes nothing.
\<close>

theorem parse_well_formed:
  "case parse_boot_graph config (replicate INIT_MAX_SERVICES spec_empty) of (specs, count) \<Rightarrow>
     length specs = INIT_MAX_SERVICES \<and> count \<le> INIT_MAX_SERVICES
     \<and> (\<forall>i < count. spec_ok (specs ! i) \<and> spec_name_bytes (specs ! i) \<noteq> [] \<and> 0 < binary_len (specs ! i)
          \<and> (\<forall>j. bit (dep_mask (specs ! i)) j \<longleftrightarrow>
                j < count \<and> (\<exists>d \<in> set (deps_of (specs ! i)).
                  d = spec_name_bytes (specs ! j) \<and> (\<forall>j' < j. spec_name_bytes (specs ! j') \<noteq> d))))"
proof -
  let ?out = "replicate INIT_MAX_SERVICES spec_empty"
  let ?ps = "fold parse_line (lines_of config) \<lparr>ps_table = (?out, 0), ps_cur = spec_empty, ps_in_service = False\<rparr>"
  obtain out count where t: "(if ps_in_service ?ps then finish_spec (ps_cur ?ps) (ps_table ?ps) else ps_table ?ps) = (out, count)"
    by (metis prod.exhaust)
  have "table_ok (out, count)" unfolding t [symmetric] by (rule parse_table_ok) simp
  then have ok: "length out = INIT_MAX_SERVICES" "count \<le> INIT_MAX_SERVICES"
    "\<And>i. i < count \<Longrightarrow> spec_ok (out ! i) \<and> 0 < spec_name_len (out ! i) \<and> 0 < binary_len (out ! i)"
    by (auto simp: table_ok_def)
  have p: "parse_boot_graph config ?out = (resolve_dep_mask out count, count)"
    unfolding parse_boot_graph_def Let_def t by simp
  have r: "resolve_dep_mask out count ! i = (out ! i)\<lparr>dep_mask := dep_mask_of out count i\<rparr>" if "i < count" for i
    using that ok by (simp add: resolve_eq)
  have names: "spec_name_bytes (resolve_dep_mask out count ! i) = spec_name_bytes (out ! i)" if "i < count" for i
    using r [OF that] by (simp add: spec_name_bytes_def)
  have deps: "deps_of (resolve_dep_mask out count ! i) = deps_of (out ! i)" if "i < count" for i
    using r [OF that] by (simp add: deps_of_def dep_bytes_def)
  have "bit (dep_mask (resolve_dep_mask out count ! i)) j \<longleftrightarrow>
      j < count \<and> (\<exists>d \<in> set (deps_of (out ! i)). d = spec_name_bytes (out ! j) \<and> (\<forall>j' < j. spec_name_bytes (out ! j') \<noteq> d))"
    if "i < count" for i j
    using that ok(2) bit_dep_mask [of count out i j] by (auto simp: r set_deps_of Bex_def)
  moreover have "spec_ok (resolve_dep_mask out count ! i) \<and> spec_name_bytes (resolve_dep_mask out count ! i) \<noteq> []
      \<and> 0 < binary_len (resolve_dep_mask out count ! i)" if "i < count" for i
    using ok(3) [OF that] names [OF that] r [OF that] by (auto simp: spec_ok_def spec_name_bytes_def)
  moreover have "length (resolve_dep_mask out count) = INIT_MAX_SERVICES" using ok by (simp add: resolve_eq)
  ultimately show ?thesis unfolding p using ok(2) names deps by auto
qed

theorem parse_well_formed_witness:
  "snd (parse_boot_graph (lit ''[service.a]'' @ [10] @ lit ''binary=b'') (replicate INIT_MAX_SERVICES spec_empty)) = 1
    \<and> spec_ok (fst (parse_boot_graph (lit ''[service.a]'' @ [10] @ lit ''binary=b'') (replicate INIT_MAX_SERVICES spec_empty)) ! 0)"
proof -
  have "snd (parse_boot_graph (lit ''[service.a]'' @ [10] @ lit ''binary=b'') (replicate INIT_MAX_SERVICES spec_empty)) = 1"
    by code_simp
  with parse_well_formed [of "lit ''[service.a]'' @ [10] @ lit ''binary=b''"] show ?thesis
    by (simp add: split_beta del: INIT_MAX_SERVICES_def)
qed

text \<open>
  C9. Parsing inverts printing: for at most 16 services whose names, binaries and dependencies fit and consist of graphic ASCII
  characters other than the comment sign (and, in dependencies, the comma), the configuration text that describes them is
  parsed to exactly these services, in order, with all their settings.
\<close>

theorem parse_show_roundtrip:
  assumes "list_all svc_ok ss" and "length ss \<le> INIT_MAX_SERVICES"
  shows "\<exists>specs. parse_boot_graph (show_boot_graph ss) (replicate INIT_MAX_SERVICES spec_empty) = (specs, length ss)
    \<and> map svc_of (take (length ss) specs) = ss"
proof -
  let ?out = "replicate INIT_MAX_SERVICES spec_empty"
  let ?ps0 = "\<lparr>ps_table = (?out, 0), ps_cur = spec_empty, ps_in_service = False\<rparr>"
  have "list_all plain_line (concat (map show_svc ss))"
    using assms(1) show_svc_plain by (auto simp: list_all_iff)
  from lines_of_plain [OF this] have lines: "lines_of (show_boot_graph ss) = concat (map show_svc ss)"
    by (simp add: show_boot_graph_def)
  let ?t = "map spec_of ss @ drop (length ss) ?out"
  have "flush (fold parse_line (concat (map show_svc ss)) ?ps0) = (?t, length ss)"
    using finish_services [OF assms(1), of 0 ?out] assms(2)
    by (simp add: flush_services [OF assms(1)]) (simp add: flush_def)
  then have p: "parse_boot_graph (show_boot_graph ss) ?out = (resolve_dep_mask ?t (length ss), length ss)"
    unfolding parse_boot_graph_def lines Let_def flush_def [symmetric] by simp
  have "map svc_of (take (length ss) (resolve_dep_mask ?t (length ss))) = ss"
  proof (rule nth_equalityI)
    fix i assume "i < length (map svc_of (take (length ss) (resolve_dep_mask ?t (length ss))))"
    then have i: "i < length ss" by simp
    then have "resolve_dep_mask ?t (length ss) ! i = (spec_of (ss ! i))\<lparr>dep_mask := dep_mask_of ?t (length ss) i\<rparr>"
      using assms(2) by (simp add: resolve_eq nth_append)
    moreover have "svc_of (x\<lparr>dep_mask := y\<rparr>) = svc_of x" for x y
      by (simp add: svc_of_def deps_of_def dep_bytes_def spec_name_bytes_def)
    ultimately show "map svc_of (take (length ss) (resolve_dep_mask ?t (length ss))) ! i = ss ! i"
      using i spec_of_svc [of "ss ! i"] assms by (simp add: list_all_length resolve_eq)
  qed (use assms(2) in \<open>simp add: resolve_eq\<close>)
  with p show ?thesis by simp
qed

definition demo_svcs :: "svc list" where
  "demo_svcs =
     [\<lparr>sv_name = lit ''serial'', sv_binary = lit ''/boot/serial'', sv_deps = [], sv_policy = Always, sv_probe = NoProbe,
       sv_mode = LaunchSpawn\<rparr>,
      \<lparr>sv_name = lit ''fs'', sv_binary = lit ''/boot/fs'', sv_deps = [lit ''serial'', lit ''virtio_blk''], sv_policy = OnFailure,
       sv_probe = FsPing, sv_mode = LaunchSpawn\<rparr>]"

theorem parse_show_roundtrip_witness:
  "\<exists>specs. parse_boot_graph (show_boot_graph demo_svcs) (replicate INIT_MAX_SERVICES spec_empty) = (specs, 2)
     \<and> map svc_of (take 2 specs) = demo_svcs"
proof -
  have "list_all svc_ok demo_svcs" by (simp add: demo_svcs_def svc_ok_def token_def graphic_def)
  from parse_show_roundtrip [OF this] show ?thesis by (simp add: demo_svcs_def numeral_2_eq_2)
qed

end
