(* ===== verification/InitRun.thy ===== *)
theory InitRun
  imports BootConfig
begin

text \<open>
  Properties of the init server at run time: launching the service graph terminates, respects dependencies and gives up only on
  services whose own start failed or that wait for one that did not start; the supervisor follows the restart policies.
\<close>

section \<open>Launching\<close>

definition deps_started :: "ServiceSpec \<Rightarrow> usize \<Rightarrow> bool" where
  "deps_started spec sm \<longleftrightarrow> (\<forall>j. bit (dep_mask spec) j \<longrightarrow> bit sm j)"

lemma deps_started_iff: "ucast (dep_mask spec) AND NOT sm = 0 \<longleftrightarrow> deps_started spec sm" for sm :: usize
proof -
  have "ucast (dep_mask spec) AND NOT sm = 0 \<longleftrightarrow> (\<forall>n < 64. bit (dep_mask spec) n \<longrightarrow> bit sm n)"
    unfolding bit_eq_iff [of "ucast (dep_mask spec) AND NOT sm"] by (auto simp: bit_simps)
  also have "\<dots> \<longleftrightarrow> deps_started spec sm"
    unfolding deps_started_def using bit_imp_le_length [of "dep_mask spec"] by force
  finally show ?thesis .
qed

lemma deps_started_mono: "deps_started spec sm \<Longrightarrow> (\<And>j. bit sm j \<Longrightarrow> bit sm' j) \<Longrightarrow> deps_started spec sm'"
  by (simp add: deps_started_def)

definition launch_ok :: "ServiceSpec list \<Rightarrow> nat \<Rightarrow> 'w launch \<Rightarrow> bool" where
  "launch_ok specs count l \<longleftrightarrow>
     count \<le> length (l_runtime l)
     \<and> (\<forall>j. bit (started_mask l) j \<longrightarrow> j < count)
     \<and> (\<forall>i < count. (bit (started_mask l) i \<longleftrightarrow> started (l_runtime l ! i))
          \<and> (started (l_runtime l ! i) \<longrightarrow> attempted (l_runtime l ! i))
          \<and> (attempted (l_runtime l ! i) \<longrightarrow> deps_started (specs ! i) (started_mask l)))"

text \<open>One step: the service is skipped, or all its dependencies run and it is attempted.\<close>

lemma launch_one_cases:
  assumes "i < 64"
  obtains (skip) "launch_one trap specs i l = l" "bit (started_mask l) i \<or> \<not> deps_started (specs ! i) (started_mask l)"
  | (fail) reg w where "\<not> bit (started_mask l) i" "deps_started (specs ! i) (started_mask l)"
      "launch_one trap specs i l = l\<lparr>l_runtime := (l_runtime l)[i := (l_runtime l ! i)\<lparr>attempted := True\<rparr>],
         l_dir := reg, l_world := w\<rparr>"
  | (ok) rt reg w where "\<not> bit (started_mask l) i" "deps_started (specs ! i) (started_mask l)"
      "rt = (l_runtime l)[i := (l_runtime l ! i)\<lparr>attempted := True\<rparr>]"
      "launch_one trap specs i l = \<lparr>started_mask = started_mask l OR push_bit i 1, progress = True,
         l_runtime = rt[i := (rt ! i)\<lparr>started := True\<rparr>], l_dir = reg, l_world = w\<rparr>"
proof (cases "bit (started_mask l) i \<or> \<not> deps_started (specs ! i) (started_mask l)")
  case True
  then have "launch_one trap specs i l = l"
    using assms by (auto simp: launch_one_def deps_started_iff and_bit_zero simp del: push_bit_of_1)
  with True skip show thesis by blast
next
  case False
  obtain b reg w where s: "spawn_service trap (specs ! i) (l_dir l, l_world l) = (b, reg, w)" by (metis prod.exhaust)
  have run: "launch_one trap specs i l =
      (let rt = (l_runtime l)[i := (l_runtime l ! i)\<lparr>attempted := True\<rparr>] in
        if b then \<lparr>started_mask = started_mask l OR push_bit i 1, progress = True,
             l_runtime = rt[i := (rt ! i)\<lparr>started := True\<rparr>], l_dir = reg, l_world = w\<rparr>
        else l\<lparr>l_runtime := rt, l_dir := reg, l_world := w\<rparr>)"
    using assms False s
    by (cases b) (simp_all add: launch_one_def deps_started_iff and_bit_zero Let_def del: push_bit_of_1)
  show thesis
  proof (cases b)
    case True
    with run False ok show thesis by (simp add: Let_def)
  next
    case nb: False
    with run False fail show thesis by (simp add: Let_def)
  qed
qed

lemma launch_one_ok:
  assumes "launch_ok specs count l" and "i < count" and "count \<le> 16"
  shows "launch_ok specs count (launch_one trap specs i l)"
proof -
  have i: "i < 64" "i < length (l_runtime l)" using assms by (auto simp: launch_ok_def)
  from i(1) show ?thesis
  proof (cases rule: launch_one_cases [where trap = trap and specs = specs and l = l])
    case skip
    with assms(1) show ?thesis by simp
  next
    case (fail reg w)
    with assms(1) i show ?thesis unfolding fail(3) by (auto simp: launch_ok_def nth_list_update)
  next
    case (ok rt reg w)
    have "deps_started s (started_mask l OR push_bit i 1)" if "deps_started s (started_mask l)" for s
      using that by (rule deps_started_mono) (simp add: bit_or_iff)
    moreover have "bit (started_mask l OR push_bit i 1) j \<longleftrightarrow> bit (started_mask l) j \<or> j = i" for j
      using i(1) by (auto simp: bit_or_iff bit_one_shift simp del: push_bit_of_1)
    ultimately show ?thesis
      using assms i ok(1,2) unfolding ok(3,4)
      by (auto simp: launch_ok_def nth_list_update simp del: push_bit_of_1)
  qed
qed

lemma launch_fold_ok:
  assumes "launch_ok specs count l" and "\<forall>i \<in> set is. i < count" and "count \<le> 16"
  shows "launch_ok specs count (fold (launch_one trap specs) is l)"
  using assms by (induction "is" arbitrary: l) (simp_all add: launch_one_ok)

text \<open>A pass without progress has attempted every service that was neither started nor waiting.\<close>

definition settled :: "ServiceSpec list \<Rightarrow> 'w launch \<Rightarrow> nat \<Rightarrow> bool" where
  "settled specs l i \<longleftrightarrow> bit (started_mask l) i \<or> attempted (l_runtime l ! i) \<or> \<not> deps_started (specs ! i) (started_mask l)"

lemma launch_one_settles:
  assumes "i < count" "count \<le> 16" "count \<le> length (l_runtime l)" "\<not> progress (launch_one trap specs i l)"
  shows "settled specs (launch_one trap specs i l) i
    \<and> started_mask (launch_one trap specs i l) = started_mask l \<and> \<not> progress l
    \<and> (\<forall>j. settled specs l j \<longrightarrow> settled specs (launch_one trap specs i l) j)
    \<and> length (l_runtime (launch_one trap specs i l)) = length (l_runtime l)"
proof -
  have i: "i < 64" "i < length (l_runtime l)" using assms by auto
  from i(1) show ?thesis
  proof (cases rule: launch_one_cases [where trap = trap and specs = specs and l = l])
    case skip
    then show ?thesis using assms(4) by (auto simp: settled_def)
  next
    case (fail reg w)
    then show ?thesis using assms(4) i unfolding fail(3) by (auto simp: settled_def nth_list_update)
  next
    case (ok rt reg w)
    with assms(4) show ?thesis by simp
  qed
qed

lemma launch_fold_settles:
  assumes "\<forall>i \<in> set is. i < count" "count \<le> 16" "count \<le> length (l_runtime l)"
    and "\<not> progress (fold (launch_one trap specs) is l)"
  shows "(\<forall>i \<in> set is. settled specs (fold (launch_one trap specs) is l) i)
    \<and> \<not> progress l \<and> (\<forall>j. settled specs l j \<longrightarrow> settled specs (fold (launch_one trap specs) is l) j)"
  using assms
proof (induction "is" arbitrary: l)
  case Nil
  then show ?case by simp
next
  case (Cons i "is")
  let ?l = "launch_one trap specs i l"
  have i: "i < count" "i < 64" using Cons.prems by auto
  have len: "length (l_runtime ?l) = length (l_runtime l)"
    using i(2) by (cases rule: launch_one_cases [where trap = trap and specs = specs and l = l]) simp_all
  have IH: "(\<forall>i \<in> set is. settled specs (fold (launch_one trap specs) is ?l) i)
    \<and> \<not> progress ?l \<and> (\<forall>j. settled specs ?l j \<longrightarrow> settled specs (fold (launch_one trap specs) is ?l) j)"
    using Cons.prems len by (intro Cons.IH) simp_all
  then have "\<not> progress ?l" by blast
  from launch_one_settles [OF i(1) Cons.prems(2,3) this] IH show ?case by auto
qed

lemma launch_loop_result:
  assumes "launch_ok specs count l" and "count \<le> 16"
  shows "\<exists>l'. launch_loop trap specs count l = Some l' \<and> launch_ok specs count l'
    \<and> (\<forall>i < count. settled specs l' i)"
  using assms
proof (induction trap specs count l rule: launch_loop.induct)
  case (1 trap specs count l)
  let ?l = "launch_pass trap specs count l"
  have start: "launch_ok specs count (l\<lparr>progress := False\<rparr>)" using "1.prems"(1) by (simp add: launch_ok_def)
  have ok: "launch_ok specs count ?l"
    unfolding launch_pass_def using launch_fold_ok [OF start, of "[0..<count]" trap] "1.prems"(2) by simp
  have bound: "\<not> INIT_MAX_SERVICES < count" using "1.prems"(2) by simp
  show ?case
  proof (cases "started_mask ?l = all_mask count \<or> \<not> progress ?l")
    case True
    then have run: "launch_loop trap specs count l = Some ?l"
      using bound by (subst launch_loop.simps) (simp add: Let_def)
    have "settled specs ?l i" if i: "i < count" for i
    proof (cases "progress ?l")
      case True
      with \<open>started_mask ?l = all_mask count \<or> \<not> progress ?l\<close> have "started_mask ?l = all_mask count" by simp
      moreover have "all_mask count = mask count" using "1.prems"(2) by (simp add: all_mask_def mask_eq_exp_minus_1)
      ultimately have "bit (started_mask ?l) i" using i "1.prems"(2) by (simp add: bit_mask_iff)
      then show ?thesis by (simp add: settled_def)
    next
      case False
      have "count \<le> length (l_runtime (l\<lparr>progress := False\<rparr>))" using "1.prems"(1) by (simp add: launch_ok_def)
      with False launch_fold_settles [of "[0..<count]" count "l\<lparr>progress := False\<rparr>" trap specs] "1.prems"(2) i
      show ?thesis unfolding launch_pass_def by simp
    qed
    with run ok show ?thesis by blast
  next
    case False
    have "launch_loop trap specs count l = launch_loop trap specs count ?l"
      using bound False by (subst launch_loop.simps) (simp add: Let_def)
    with "1.IH" [OF bound refl False ok "1.prems"(2)] show ?thesis by simp
  qed
qed


section \<open>The supervisor\<close>

lemma mask_of_started_fold:
  fixes m :: u32
  assumes "\<forall>i \<in> set is. i < 32"
  shows "bit (fold (\<lambda>i m. if started (rt ! i) then m OR push_bit i 1 else m) is m) j
    \<longleftrightarrow> bit m j \<or> j \<in> set is \<and> started (rt ! j)"
  using assms
  by (induction "is" arbitrary: m) (auto simp: bit_or_iff bit_one_shift simp del: push_bit_of_1)

lemma bit_mask_of_started: "count \<le> 16 \<Longrightarrow> bit (mask_of_started count rt) j \<longleftrightarrow> j < count \<and> started (rt ! j)"
  unfolding mask_of_started_def using mask_of_started_fold [of "[0..<count]" rt 0] by auto

lemma deps_masked_iff: "dep_mask spec AND NOT sm = 0 \<longleftrightarrow> (\<forall>j. bit (dep_mask spec) j \<longrightarrow> bit sm j)"
proof -
  have "dep_mask spec AND NOT sm = 0 \<longleftrightarrow> (\<forall>n < 32. bit (dep_mask spec) n \<longrightarrow> bit sm n)"
    unfolding bit_eq_iff [of "dep_mask spec AND NOT sm"] by (auto simp: bit_simps)
  then show ?thesis using bit_imp_le_length [of "dep_mask spec"] by force
qed

text \<open>What one tick may do to one service.\<close>

definition tick_rule :: "usize \<Rightarrow> bool \<Rightarrow> ServiceSpec \<Rightarrow> ServiceRuntime \<Rightarrow> ServiceRuntime \<Rightarrow> bool" where
  "tick_rule tick ready spec r r' \<longleftrightarrow>
     (attempted r \<longrightarrow> attempted r')
     \<and> (restart_policy spec = OneShot \<and> attempted r \<longrightarrow> r' = r)
     \<and> (\<not> started r \<and> r' \<noteq> r \<longrightarrow> ready \<and> next_retry_tick r \<le> tick \<and> attempted r')
     \<and> (\<not> started r \<and> ready \<and> next_retry_tick r \<le> tick \<longrightarrow> attempted r')
     \<and> (started r \<and> \<not> started r' \<longrightarrow>
          restart_policy spec \<noteq> OneShot \<and> health_probe spec \<noteq> NoProbe \<and> next_probe_tick r \<le> tick
          \<and> 2 \<le> probe_fail_streak r \<and> (restart_policy spec = OnFailure \<longrightarrow> healthy_once r)
          \<and> next_retry_tick r' = tick + 10 \<and> probe_fail_streak r' = 0 \<and> \<not> healthy_once r')"

lemma streak_step: "3 \<le> sat_add (s :: u8) 1 \<Longrightarrow> 2 \<le> s"
  by (auto simp: sat_add_def word_le_nat_alt unat_word_ariths split: if_splits)

lemma probe_step_rule:
  assumes "started r" and "restart_policy spec \<noteq> OneShot" "health_probe spec \<noteq> NoProbe" "\<not> tick < next_probe_tick r"
  shows "tick_rule tick ready spec r (fst (probe_step trap tick spec r st))"
proof -
  obtain b reg w where "probe_service trap spec st = (b, reg, w)" by (metis prod.exhaust)
  then show ?thesis
    using assms streak_step [of "probe_fail_streak r"]
    by (cases b; cases "restart_policy spec")
      (auto simp: probe_step_def tick_rule_def needs_restart_def Let_def not_less)
qed

lemma supervise_one_rule:
  "tick_rule tick (dep_mask spec AND NOT sm = 0) spec r (fst (supervise_one trap tick sm spec r st))"
proof (cases "started r")
  case True
  consider "restart_policy spec = OneShot \<or> health_probe spec = NoProbe \<or> tick < next_probe_tick r"
    | "restart_policy spec \<noteq> OneShot" "health_probe spec \<noteq> NoProbe" "\<not> tick < next_probe_tick r" by blast
  then show ?thesis
  proof cases
    case 1
    with True have "fst (supervise_one trap tick sm spec r st) = r" by (auto simp: supervise_one_def)
    with True show ?thesis by (simp add: tick_rule_def)
  next
    case 2
    with True probe_step_rule [OF True 2] show ?thesis by (simp add: supervise_one_def)
  qed
next
  case False
  obtain b st' where "spawn_service trap spec st = (b, st')" by (metis prod.exhaust)
  with False show ?thesis by (cases b) (auto simp: supervise_one_def tick_rule_def)
qed

text \<open>The tick visits each service once, with its state at the start of the tick.\<close>

lemma supervise_fold:
  assumes "distinct is" and "\<forall>i \<in> set is. i < length rt"
    and "fold (supervise_at trap tick sm specs) is (rt, st) = (rt', st')"
  shows "length rt' = length rt \<and>
    (\<forall>i. if i \<in> set is then \<exists>st. rt' ! i = fst (supervise_one trap tick sm (specs ! i) (rt ! i) st) else rt' ! i = rt ! i)"
  using assms
proof (induction "is" arbitrary: rt st)
  case Nil
  then show ?case by simp
next
  case (Cons i "is")
  obtain r st1 where one: "supervise_one trap tick sm (specs ! i) (rt ! i) st = (r, st1)" by (metis prod.exhaust)
  with Cons.prems(3) have rest: "fold (supervise_at trap tick sm specs) is (rt[i := r], st1) = (rt', st')"
    by (simp add: supervise_at_def [of _ _ _ _ i])
  have r: "r = fst (supervise_one trap tick sm (specs ! i) (rt ! i) st)" by (simp add: one)
  have IH: "length rt' = length (rt[i := r]) \<and> (\<forall>k. if k \<in> set is
      then \<exists>st. rt' ! k = fst (supervise_one trap tick sm (specs ! k) (rt[i := r] ! k) st) else rt' ! k = rt[i := r] ! k)"
    using Cons.prems(1,2) rest by (intro Cons.IH) auto
  show ?case
  proof (intro conjI allI)
    show "length rt' = length rt" using IH by simp
    fix k
    show "if k \<in> set (i # is) then \<exists>st. rt' ! k = fst (supervise_one trap tick sm (specs ! k) (rt ! k) st) else rt' ! k = rt ! k"
      using IH [THEN conjunct2, rule_format, of k] Cons.prems(1,2) r by (cases "k = i") (auto simp del: split_paired_Ex)
  qed
qed

section \<open>No panics\<close>

lemma supervisor_tick_total:
  assumes "count \<le> INIT_MAX_SERVICES" and "count \<le> length rt"
  shows "\<exists>rt' st'. supervisor_tick trap tick specs count (rt, st) = Some (rt', st') \<and> length rt' = length rt"
proof -
  obtain rt' st' where f: "fold (supervise_at trap tick (mask_of_started count rt) specs) [0..<count] (rt, st) = (rt', st')"
    by (metis prod.exhaust)
  have "length rt' = length rt" using supervise_fold [OF _ _ f] assms(2) by simp
  with f assms(1) show ?thesis by (simp add: supervisor_tick_def)
qed

lemma control_plane_step_total:
  assumes "count \<le> INIT_MAX_SERVICES" and "count \<le> length (fst (i_sup s))"
  shows "\<exists>s'. control_plane_step trap specs count s = Some s' \<and> length (fst (i_sup s')) = length (fst (i_sup s))"
proof -
  obtain rt reg w where s: "i_sup s = (rt, reg, w)" by (metis prod.exhaust)
  obtain n from_pid buf cap w1 where "sys_ipc_recv_timeout_u trap (i_buf s) SUPERVISOR_TICK_MS w = (n, from_pid, buf, cap, w1)"
    by (metis prod.exhaust)
  then show ?thesis
    using supervisor_tick_total [OF assms(1), of rt trap "sat_add (i_tick s) 1" specs
        "if 0 \<le> n \<and> 0 < nat n then snd (handle_control_plane_msg trap from_pid (take (nat n) buf) cap (reg, w1)) else (reg, w1)"]
      assms(2)
    by (auto simp: control_plane_step_def s Let_def simp del: SUPERVISOR_TICK_MS_def)
qed

lemma control_plane_loop_total:
  assumes "count \<le> INIT_MAX_SERVICES" and "count \<le> length (fst (i_sup s))"
  shows "control_plane_loop trap specs count n s \<noteq> None"
  using assms(2)
proof (induction n arbitrary: s)
  case (Suc n)
  from control_plane_step_total [OF assms(1) Suc.prems, of trap specs]
  obtain s' where "control_plane_step trap specs count s = Some s'" "length (fst (i_sup s')) = length (fst (i_sup s))" by blast
  with Suc show ?case by simp
qed simp

lemma init_start_total:
  assumes "\<And>w. unat (fst (sys_get_boot_cfg_u trap (replicate 2048 0) w)) \<le> 2048"
  shows "\<exists>specs count s. init_start trap w = Some (specs, count, s) \<and> count \<le> INIT_MAX_SERVICES
    \<and> count \<le> length (fst (i_sup s))"
proof -
  let ?specs = "replicate INIT_MAX_SERVICES spec_empty"
  let ?rt = "replicate INIT_MAX_SERVICES runtime_empty"
  define w1 where "w1 = sys_log trap ''init: control plane started'' (snd (init_allocator trap w))"
  obtain n buf w2 where cfg: "sys_get_boot_cfg_u trap (replicate 2048 0) w1 = (n, buf, w2)" by (metis prod.exhaust)
  have len: "unat n \<le> 2048" "length buf = 2048"
    using assms [of w1] cfg by (auto simp: sys_get_boot_cfg_u_def split: prod.splits)
  define g where "g = (case from_utf8 (take (unat n) buf) of Some s \<Rightarrow> parse_boot_graph s ?specs | None \<Rightarrow> (?specs, 0))"
  have g: "snd g \<le> INIT_MAX_SERVICES"
    unfolding g_def using parse_count [of ?specs] by (simp split: option.split)
  have "launch_ok (fst g) (snd g) \<lparr>started_mask = 0, progress = False, l_runtime = ?rt, l_dir = initial_directory, l_world = w2\<rparr>"
    using g by (simp add: launch_ok_def runtime_empty_def)
  from launch_loop_result [OF this, of trap] g obtain l where
    loop: "launch_loop trap (fst g) (snd g)
      \<lparr>started_mask = 0, progress = False, l_runtime = ?rt, l_dir = initial_directory, l_world = w2\<rparr> = Some l"
      "launch_ok (fst g) (snd g) l"
    by auto
  then have l: "launch_graph trap (fst g) (snd g) ?rt initial_directory w2 = Some (l_runtime l, l_dir l, l_world l)"
    "snd g \<le> length (l_runtime l)"
    by (simp_all add: launch_graph_def launch_ok_def)
  show ?thesis
  proof (cases "n = 0")
    case True
    with cfg show ?thesis
      by (auto simp: init_start_def w1_def loop_entry_def Let_def split: prod.splits)
  next
    case False
    have "init_start trap w = Some (fst g, snd g, loop_entry (l_runtime l, l_dir l,
        sys_log trap ''init: boot graph launched, supervisor running'' (l_world l)))"
      using False cfg len l(1) unfolding init_start_def w1_def g_def
      by (simp add: Let_def split_beta del: INIT_MAX_SERVICES_def)
    with g l(2) show ?thesis by (simp add: loop_entry_def)
  qed
qed

section \<open>Properties\<close>

text \<open>
  C7. Launching the service graph always ends, whatever the kernel answers, and settles every service: a service was attempted
  exactly if all services it depends on were started, and only attempted services are started. So no service is started before
  its dependencies, and none is left behind while its dependencies run.
\<close>

theorem launch_graph_correct:
  assumes "count \<le> INIT_MAX_SERVICES" and "count \<le> length rt"
    and "\<forall>i < count. \<not> started (rt ! i) \<and> \<not> attempted (rt ! i)"
  shows "\<exists>rt' reg' w'. launch_graph trap specs count rt reg w = Some (rt', reg', w')
    \<and> (\<forall>i < count.
         (attempted (rt' ! i) \<longleftrightarrow> (\<forall>j. bit (dep_mask (specs ! i)) j \<longrightarrow> j < count \<and> started (rt' ! j)))
         \<and> (started (rt' ! i) \<longrightarrow> attempted (rt' ! i)))"
proof -
  have "launch_ok specs count \<lparr>started_mask = 0, progress = False, l_runtime = rt, l_dir = reg, l_world = w\<rparr>"
    using assms by (simp add: launch_ok_def)
  from launch_loop_result [OF this, of trap] assms(1) obtain l where
    run: "launch_graph trap specs count rt reg w = Some (l_runtime l, l_dir l, l_world l)"
    and ok: "launch_ok specs count l" and settled: "\<forall>i < count. settled specs l i"
    by (auto simp: launch_graph_def)
  have mask: "bit (started_mask l) j \<longleftrightarrow> j < count \<and> started (l_runtime l ! j)" for j
    using ok by (auto simp: launch_ok_def)
  have "(attempted (l_runtime l ! i) \<longleftrightarrow> deps_started (specs ! i) (started_mask l))
      \<and> (started (l_runtime l ! i) \<longrightarrow> attempted (l_runtime l ! i))" if "i < count" for i
    using ok settled that by (auto simp: launch_ok_def settled_def)
  with run show ?thesis unfolding deps_started_def mask by blast
qed

theorem launch_graph_correct_witness:
  "\<exists>rt' reg' w'. launch_graph (\<lambda>_ _ _ _ _ w. (3, [], w)) [spec_empty, spec_empty\<lparr>dep_mask := 1\<rparr>] 2
      (replicate 2 runtime_empty) directory_new () = Some (rt', reg', w')
    \<and> (attempted (rt' ! 1) \<longrightarrow> started (rt' ! 0))"
proof -
  have "\<forall>i < 2. \<not> started (replicate 2 runtime_empty ! i) \<and> \<not> attempted (replicate 2 runtime_empty ! i)"
    by (simp add: runtime_empty_def)
  with launch_graph_correct [of 2 "replicate 2 runtime_empty" "\<lambda>_ _ _ _ _ w. (3, [], w)"
      "[spec_empty, spec_empty\<lparr>dep_mask := 1\<rparr>]" directory_new "()"]
  obtain rt' reg' w' where
    "launch_graph (\<lambda>_ _ _ _ _ w. (3, [], w)) [spec_empty, spec_empty\<lparr>dep_mask := 1\<rparr>] 2
      (replicate 2 runtime_empty) directory_new () = Some (rt', reg', w')"
    and r: "\<forall>i < 2. (attempted (rt' ! i) \<longleftrightarrow>
        (\<forall>j. bit (dep_mask ([spec_empty, spec_empty\<lparr>dep_mask := 1\<rparr>] ! i)) j \<longrightarrow> j < 2 \<and> started (rt' ! j)))
      \<and> (started (rt' ! i) \<longrightarrow> attempted (rt' ! i))"
    by auto
  moreover have "attempted (rt' ! 1) \<longrightarrow> started (rt' ! 0)" using r [rule_format, of 1] by simp
  ultimately show ?thesis by blast
qed


definition demo_spec :: ServiceSpec where
  "demo_spec = spec_empty\<lparr>restart_policy := Always, health_probe := FsPing\<rparr>"




end
