(* ===== verification/InitControl.thy ===== *)
theory InitControl
  imports Init
begin

text \<open>
  The service directory of the init server and the control protocol spoken over it. The directory refines slot tables and is
  a second instance of \<open>name_directory\<close>; requests built by the user library are what the server parses; a registered
  service is found by a later lookup.
\<close>

section \<open>The directory\<close>

definition slot_view :: "RegistrySlot \<Rightarrow> (bytes \<times> usize) option" where
  "slot_view s = (if slot_in_use s then Some (take (slot_name_len s) (slot_name s), slot_cap_handle s) else None)"

definition slot_ok :: "RegistrySlot \<Rightarrow> bool" where
  "slot_ok s \<longleftrightarrow> length (slot_name s) = MAX_NAME \<and> slot_name_len s \<le> MAX_NAME"

definition directory_ok :: "directory \<Rightarrow> bool" where
  "directory_ok d \<longleftrightarrow> length d = INIT_MAX_SERVICES \<and> list_all slot_ok d \<and> distinct (slot_keys (map slot_view d))"

lemma name_eq_view: "slot_ok s \<Longrightarrow> name_eq s n = slot_is n (slot_view s)"
  by (auto simp: name_eq_def slot_view_def slot_ok_def)

lemma slot_ok_fill: "slot_ok s \<Longrightarrow> length n \<le> MAX_NAME \<Longrightarrow> slot_ok (fill_slot n pid cap s)"
  by (simp add: slot_ok_def fill_slot_def slice_simps)

lemma slot_view_fill: "slot_view (fill_slot n pid cap s) = Some (n, cap)"
  by (simp add: slot_view_def fill_slot_def slice_simps)

lemma slot_view_None: "slot_view s = None \<longleftrightarrow> \<not> slot_in_use s"
  by (simp add: slot_view_def)

lemma view_update_slots:
  assumes "list_all slot_ok d"
  shows "map_option (map slot_view) (upd_first (\<lambda>s. name_eq s n) (\<lambda>s. s\<lparr>slot_owner_pid := pid, slot_cap_handle := cap\<rparr>) d)
         = upd_first (slot_is n) (\<lambda>_. Some (n, cap)) (map slot_view d)"
  using assms by (intro upd_first_map) (auto simp: list_all_iff name_eq_view slot_view_def split: if_splits)

lemma view_fill_slots:
  "map_option (map slot_view) (upd_first (\<lambda>s. \<not> slot_in_use s) (fill_slot n pid cap) d)
     = upd_first (\<lambda>s. s = None) (\<lambda>_. Some (n, cap)) (map slot_view d)"
  by (intro upd_first_map) (simp_all add: slot_view_fill slot_view_None)

lemma dir_register_refines:
  assumes "directory_ok d" and "n \<noteq> []" and "length n \<le> MAX_NAME" and "cap \<noteq> 0"
  shows "case slot_put n cap (map slot_view d) of
           Some s \<Rightarrow> fst (dir_register d n pid cap) \<and> map slot_view (snd (dir_register d n pid cap)) = s
         | None \<Rightarrow> dir_register d n pid cap = (False, d)"
proof -
  have ok: "list_all slot_ok d" using assms(1) by (simp add: directory_ok_def)
  note loops = view_update_slots [OF ok, where n = n and pid = pid and cap = cap, symmetric]
    view_fill_slots [where n = n and pid = pid and cap = cap and d = d, symmetric]
  show ?thesis using assms(2-4)
    unfolding slot_put_def loops by (simp add: dir_register_def split: option.split)
qed

lemma dir_register_ok:
  assumes "directory_ok d"
  shows "directory_ok (snd (dir_register d n pid cap))"
proof (cases "n = [] \<or> MAX_NAME < length n \<or> cap = 0")
  case True
  then show ?thesis using assms by (auto simp: dir_register_def)
next
  case False
  then have valid: "n \<noteq> []" "length n \<le> MAX_NAME" "cap \<noteq> 0" by auto
  have "length (snd (dir_register d n pid cap)) = INIT_MAX_SERVICES \<and> list_all slot_ok (snd (dir_register d n pid cap))"
    using valid assms
    by (auto simp: dir_register_def directory_ok_def dest: upd_first_length split: option.splits
        elim!: upd_first_list_all intro: slot_ok_fill) (auto simp: slot_ok_def)
  moreover have "distinct (slot_keys (map slot_view (snd (dir_register d n pid cap))))"
    using dir_register_refines [OF assms valid, of pid] assms
    by (auto simp: directory_ok_def dest: slot_put_Some(3) split: option.splits)
  ultimately show ?thesis by (simp add: directory_ok_def)
qed

lemma dir_lookup_view: "directory_ok d \<Longrightarrow> dir_lookup d = slot_lookup (map slot_view d)"
proof -
  have "map_option slot_cap_handle (find (\<lambda>s. name_eq s n) d) = slot_lookup (map slot_view d) n"
    if "list_all slot_ok d" for n d
    using that
  proof (induction d)
    case (Cons s d)
    then show ?case by (cases "slot_in_use s") (auto simp: name_eq_view slot_view_def)
  qed simp
  then show "directory_ok d \<Longrightarrow> ?thesis" by (simp add: fun_eq_iff dir_lookup_def directory_ok_def)
qed

definition dir_add :: "directory \<Rightarrow> bytes \<Rightarrow> usize \<Rightarrow> usize \<Rightarrow> directory option" where
  "dir_add d n pid cap = (case dir_register d n pid cap of (True, d') \<Rightarrow> Some d' | (False, _) \<Rightarrow> None)"

lemma dir_add_invalid: "n = [] \<or> MAX_NAME < length n \<or> cap = 0 \<Longrightarrow> dir_add d n pid cap = None"
  by (auto simp: dir_add_def dir_register_def)

lemma dir_add_cases:
  assumes "directory_ok d" and "n \<noteq> []" "length n \<le> MAX_NAME" "cap \<noteq> 0"
  shows "map_option (map slot_view) (dir_add d n pid cap) = slot_put n cap (map slot_view d)"
  using dir_register_refines [OF assms, of pid]
  by (auto simp: dir_add_def split: prod.splits bool.splits option.splits)

interpretation idir: name_directory directory_new dir_lookup dir_add directory_ok INIT_MAX_SERVICES MAX_NAME
proof unfold_locales
  show new: "directory_ok directory_new"
    by (simp add: directory_ok_def directory_new_def slot_ok_def slot_empty_def slot_view_def list_all_length)
  show "dir_lookup directory_new = Map.empty"
    unfolding dir_lookup_view [OF new] by (simp add: directory_new_def slot_empty_def slot_view_def)
next
  fix d n pid cap d' assume ok: "directory_ok d" and add: "dir_add d n pid cap = Some d'"
  then have valid: "n \<noteq> []" "length n \<le> MAX_NAME" "cap \<noteq> 0" using dir_add_invalid [of n cap d pid] by fastforce+
  have "d' = snd (dir_register d n pid cap)" using add by (auto simp: dir_add_def split: prod.splits bool.splits)
  with dir_register_ok [OF ok] have ok': "directory_ok d'" by blast
  from dir_add_cases [OF ok valid, of pid] add have "slot_put n cap (map slot_view d) = Some (map slot_view d')" by simp
  from slot_put_Some(1) [OF this] ok ok' show "directory_ok d' \<and> dir_lookup d' = (dir_lookup d)(n \<mapsto> cap)"
    by (simp add: dir_lookup_view)
next
  fix d n pid cap assume ok: "directory_ok d"
  have full: "None \<notin> set (map slot_view d) \<longleftrightarrow> card (dom (dir_lookup d)) = INIT_MAX_SERVICES"
    using ok slots_full_iff [of "map slot_view d"] by (simp add: directory_ok_def dir_lookup_view del: set_map)
  show "dir_add d n pid cap = None \<longleftrightarrow> n = [] \<or> MAX_NAME < length n \<or> cap = 0
      \<or> (dir_lookup d n = None \<and> card (dom (dir_lookup d)) = INIT_MAX_SERVICES)"
  proof (cases "n = [] \<or> MAX_NAME < length n \<or> cap = 0")
    case True
    then show ?thesis by (auto simp: dir_add_invalid)
  next
    case False
    then have "dir_add d n pid cap = None \<longleftrightarrow> slot_put n cap (map slot_view d) = None"
      using dir_add_cases [OF ok, of n cap pid] by (metis map_option_is_None not_le_imp_less)
    with False full show ?thesis by (simp add: slot_put_None dir_lookup_view [OF ok] del: set_map)
  qed
next
  fix d assume "directory_ok d"
  then show "finite (dom (dir_lookup d))" and "card (dom (dir_lookup d)) \<le> INIT_MAX_SERVICES"
    using card_slot_le [of "map slot_view d"] by (simp_all add: dir_lookup_view dom_slot_lookup directory_ok_def)
qed

section \<open>Requests\<close>

lemma parse_ctl_request:
  assumes "n \<noteq> []" and "length n \<le> MAX_SERVICE_NAME"
  shows "parse_control_req (ctl_request opc n @ rest) = Some (opc, n)"
proof -
  obtain a b where op: "to_le 2 opc = [a, b]"
    using length_to_le [of 2 opc] by (auto simp: numeral_eq_Suc length_Suc_conv simp del: length_to_le)
  obtain c d where ln: "to_le 2 (of_nat (length n) :: u16) = [c, d]"
    using length_to_le [of 2 "of_nat (length n) :: u16"] by (auto simp: numeral_eq_Suc length_Suc_conv simp del: length_to_le)
  have "from_le [a, b] = opc" "from_le [c, d] = (of_nat (length n) :: u16)"
    using from_le_u16 [of opc] from_le_u16 [of "of_nat (length n)"] by (simp_all add: op ln)
  moreover have "unat (of_nat (length n) :: u16) = length n" using assms(2) by (simp add: unat_of_nat)
  ultimately show ?thesis
    using assms by (simp add: parse_control_req_def ctl_request_eq op ln slice_def)
qed

section \<open>Properties\<close>

text \<open>
  C23. Registering and looking up services over the control protocol: with a capability, a registration request as the user
  library builds it enters the name (replacing an earlier entry) unless the directory is full, answers nothing and keeps all
  other entries; a later lookup request from any process is answered on the capability it carries, with the
  registered handle for a known name and with \<^verbatim>\<open>ENOENT\<close> otherwise, and changes no entry.
\<close>

theorem control_register_lookup:
  assumes "directory_ok reg" and "n \<noteq> []" and "length n \<le> MAX_SERVICE_NAME" and "to_usize cap \<noteq> 0"
    and "dir_lookup reg n \<noteq> None \<or> card (dom (dir_lookup reg)) < INIT_MAX_SERVICES"
  shows "\<exists>reg1. handle_control_plane_msg trap pid (ctl_request REQ_REGISTER_SERVICE n) (Some cap) (reg, w) = (True, reg1, w)
    \<and> directory_ok reg1 \<and> dir_lookup reg1 = (dir_lookup reg)(n \<mapsto> to_usize cap)
    \<and> (\<forall>pid' ep m w'. m \<noteq> [] \<and> length m \<le> MAX_SERVICE_NAME \<longrightarrow>
         handle_control_plane_msg trap pid' (ctl_request REQ_LOOKUP_SERVICE m) (Some ep) (reg1, w')
         = (True, reg1,
            case dir_lookup reg1 m of
              Some h \<Rightarrow> sys_ipc_send_u trap ep (lit ''OK'') (Some (Dynamic h)) w'
            | None \<Rightarrow> sys_ipc_send_u trap ep (lit ''ENOENT'') None w'))"
proof -
  have len: "length n \<le> MAX_NAME" using assms(3) by simp
  obtain reg1 where add: "dir_add reg n pid (to_usize cap) = Some reg1"
    using idir.register_refused [OF assms(1), of n pid "to_usize cap"] assms(2,4,5) len by fastforce
  then have reg1: "snd (dir_register reg n pid (to_usize cap)) = reg1"
    by (auto simp: dir_add_def split: prod.splits bool.splits)
  note parse = parse_ctl_request [where rest = "[]", simplified]
  have "handle_control_plane_msg trap pid (ctl_request REQ_REGISTER_SERVICE n) (Some cap) (reg, w) = (True, reg1, w)"
    using assms(2,3) by (simp add: handle_control_plane_msg_def parse reg1)
  moreover have "handle_control_plane_msg trap pid' (ctl_request REQ_LOOKUP_SERVICE m) (Some ep) (reg1, w')
         = (True, reg1,
            case dir_lookup reg1 m of
              Some h \<Rightarrow> sys_ipc_send_u trap ep (lit ''OK'') (Some (Dynamic h)) w'
            | None \<Rightarrow> sys_ipc_send_u trap ep (lit ''ENOENT'') None w')"
    if "m \<noteq> []" "length m \<le> MAX_SERVICE_NAME" for pid' ep m w'
    using that by (simp add: handle_control_plane_msg_def parse split: option.split)
  ultimately show ?thesis using idir.register_ok [OF assms(1) add] by blast
qed

theorem control_register_lookup_witness:
  "\<exists>reg1. handle_control_plane_msg (\<lambda>_ _ _ _ _ w. (0, [], w)) 4 (ctl_request REQ_REGISTER_SERVICE (lit ''fs'')) (Some (Dynamic 9))
      (directory_new, ()) = (True, reg1, ()) \<and> dir_lookup reg1 (lit ''fs'') = Some 9"
proof -
  from control_register_lookup [OF idir.invar_empty, of "lit ''fs''" "Dynamic 9" "\<lambda>_ _ _ _ _ w. (0, [], w)" 4 "()"]
  show ?thesis by (auto simp: idir.lookup_empty)
qed

lemma control_without_cap: "snd (handle_control_plane_msg trap pid msg None st) = st"
  by (cases st) (auto simp: handle_control_plane_msg_def split: option.split)

end
