(* ===== verification/BlkServer.thy ===== *)
theory BlkServer
  imports Ulib
begin

text \<open>
  The block server (\<^verbatim>\<open>apps/virtio_blk/src/main.rs\<close>): the hardware layer it gives to the virtio driver, the search for a
  device, the three backends and the request loop. The driver crate \<^verbatim>\<open>virtio-drivers\<close> is a parameter: a record of the
  operations the server calls, acting on the world of the server. Its constants are the documented ones (4096-byte pages, 512-byte
  sectors). \<open>None\<close> is a panic.
\<close>

section \<open>The driver crate\<close>

definition VIRTIO_PAGE_SIZE :: usize where [simp]: "VIRTIO_PAGE_SIZE = 4096"
definition SECTOR_SIZE :: nat where [simp]: "SECTOR_SIZE = 512"

record pci_info =
  hdr_standard :: bool
  vendor_id :: u16
  device_id :: u16

text \<open>
  \<open>'t\<close> are transports, \<open>'d\<close> block devices, \<open>'b\<close> the device-function addresses of the PCI bus. The iterator over a bus is the sequence
  of its steps, each of which may yield a device.
\<close>

record ('t, 'd, 'b, 'w) virtio =
  mmio_new :: "usize \<Rightarrow> 'w \<Rightarrow> 't option \<times> 'w"
  pci_new :: "usize \<Rightarrow> 'b \<Rightarrow> 'w \<Rightarrow> 't option \<times> 'w"
  is_block :: "'t \<Rightarrow> 'w \<Rightarrow> bool"
  drop_transport :: "'t \<Rightarrow> 'w \<Rightarrow> 'w"
  blk_new :: "'t \<Rightarrow> 'w \<Rightarrow> 'd option \<times> 'w"
  enumerate_bus :: "usize \<Rightarrow> u8 \<Rightarrow> ('w \<Rightarrow> ('b \<times> pci_info) option \<times> 'w) list"
  get_command :: "usize \<Rightarrow> 'b \<Rightarrow> 'w \<Rightarrow> u16 \<times> 'w"
  set_command :: "usize \<Rightarrow> 'b \<Rightarrow> u16 \<Rightarrow> 'w \<Rightarrow> 'w"
  IO_SPACE :: u16
  MEMORY_SPACE :: u16
  BUS_MASTER :: u16
  drv_capacity :: "'d \<Rightarrow> u64"
  drv_read :: "'d \<Rightarrow> usize \<Rightarrow> bytes \<Rightarrow> 'w \<Rightarrow> bool \<times> bytes \<times> 'd \<times> 'w"
  drv_write :: "'d \<Rightarrow> usize \<Rightarrow> bytes \<Rightarrow> 'w \<Rightarrow> bool \<times> 'd \<times> 'w"
  drv_flush :: "'d \<Rightarrow> 'w \<Rightarrow> bool \<times> 'd \<times> 'w"

section \<open>Constants\<close>

definition PAGE_MASK :: usize where [simp]: "PAGE_MASK = VIRTIO_PAGE_SIZE - 1"
definition MOCK_BLOCK_SIZE :: nat where [simp]: "MOCK_BLOCK_SIZE = SECTOR_SIZE"
definition MOCK_BLOCK_COUNT :: nat where [simp]: "MOCK_BLOCK_COUNT = 256"
definition FALLBACK_VIRTIO_BLK_MMIO_PADDR :: usize where [simp]: "FALLBACK_VIRTIO_BLK_MMIO_PADDR = 0x0a000000"
definition FALLBACK_VIRTIO_BLK_MMIO_SIZE :: usize where [simp]: "FALLBACK_VIRTIO_BLK_MMIO_SIZE = 0x1000"
definition FALLBACK_PCI_ECAM_BASE :: usize where [simp]: "FALLBACK_PCI_ECAM_BASE = 0x4010000000"
definition PCI_ECAM_SIZE :: usize where [simp]: "PCI_ECAM_SIZE = 0x10000000"
definition PCI_VENDOR_VIRTIO :: usize where [simp]: "PCI_VENDOR_VIRTIO = 0x1af4"
definition PCI_DEVICE_VIRTIO_BLK_LEGACY :: usize where [simp]: "PCI_DEVICE_VIRTIO_BLK_LEGACY = 0x1001"
definition PCI_DEVICE_VIRTIO_BLK_MODERN :: usize where [simp]: "PCI_DEVICE_VIRTIO_BLK_MODERN = 0x1042"

section \<open>The hardware layer\<close>

text \<open>\<^verbatim>\<open>NonNull::dangling()\<close> of bytes is address 1.\<close>

definition non_null :: "usize \<Rightarrow> usize" where
  "non_null p = (if p = 0 then 1 else p)"

definition hal_dma_alloc :: "'w trap \<Rightarrow> usize \<Rightarrow> 'w \<Rightarrow> (usize \<times> usize) \<times> 'w" where
  "hal_dma_alloc trap pages w =
     (if pages = 0 then ((0, 1), w)
      else case sys_dma_alloc_u trap (sat_mul pages VIRTIO_PAGE_SIZE) 0 w of
             (vaddr, paddr, w') \<Rightarrow>
               if vaddr = all_ones \<or> paddr = 0 then ((0, 1), w') else ((paddr, non_null vaddr), w'))"

definition hal_dma_dealloc :: "'w trap \<Rightarrow> usize \<Rightarrow> usize \<Rightarrow> usize \<Rightarrow> 'w \<Rightarrow> int \<times> 'w" where
  "hal_dma_dealloc trap paddr vaddr pages w =
     (case sys_dma_dealloc_u trap vaddr paddr pages w of (ret, w') \<Rightarrow> (if ret = 0 then 0 else - 1, w'))"

definition hal_mmio_phys_to_virt :: "'w trap \<Rightarrow> usize \<Rightarrow> usize \<Rightarrow> 'w \<Rightarrow> usize \<times> 'w" where
  "hal_mmio_phys_to_virt trap pa sz w =
     (let base = pa AND NOT PAGE_MASK;
          off = pa AND PAGE_MASK;
          need = sat_add off (max sz 1);
          map_size = (need + PAGE_MASK) AND NOT PAGE_MASK
      in case sys_map_device_u trap base map_size w of
           (mapped, w') \<Rightarrow> (if mapped = all_ones then 1 else non_null (mapped + off), w'))"

text \<open>The loop of \<^verbatim>\<open>share\<close>, which checks page by page that the buffer is physically contiguous.\<close>

function share_loop :: "'w trap \<Rightarrow> usize \<Rightarrow> usize \<Rightarrow> nat \<Rightarrow> nat \<Rightarrow> 'w \<Rightarrow> usize \<times> 'w" where
  "share_loop trap vaddr first_paddr len covered w =
     (if len \<le> covered then (first_paddr, w)
      else
        let cur_v = vaddr + of_nat covered;
            expected = (first_paddr + of_nat covered) AND NOT PAGE_MASK
        in case sys_virt_to_phys_u trap cur_v w of
             (cur_p, w') \<Rightarrow>
               if cur_p = all_ones \<or> cur_p AND NOT PAGE_MASK \<noteq> expected then (0, w')
               else share_loop trap vaddr first_paddr len (covered + min (len - covered) (unat VIRTIO_PAGE_SIZE)) w')"
  by pat_completeness auto
termination
  by (relation "measure (\<lambda>(trap, vaddr, first_paddr, len, covered, w). len - covered)") auto

declare share_loop.simps [simp del]

definition hal_share :: "'w trap \<Rightarrow> usize \<Rightarrow> nat \<Rightarrow> 'w \<Rightarrow> usize \<times> 'w" where
  "hal_share trap vaddr len w =
     (if len = 0 then (0, w)
      else case sys_virt_to_phys_u trap vaddr w of
             (first_paddr, w') \<Rightarrow>
               if first_paddr = all_ones then (0, w')
               else
                 let first_page_rem = VIRTIO_PAGE_SIZE - (vaddr AND PAGE_MASK);
                     covered = min len (unat first_page_rem)
                 in share_loop trap vaddr first_paddr len covered w')"

section \<open>Backends\<close>

datatype 'd Backend = RealMmio 'd | RealPci 'd | Mock

definition backend_info :: "('t, 'd, 'b, 'w) virtio \<Rightarrow> 'd Backend \<Rightarrow> u64 \<times> u64" where
  "backend_info V b =
     (case b of
        RealMmio dev \<Rightarrow> (of_nat SECTOR_SIZE, drv_capacity V dev)
      | RealPci dev \<Rightarrow> (of_nat SECTOR_SIZE, drv_capacity V dev)
      | Mock \<Rightarrow> (of_nat MOCK_BLOCK_SIZE, of_nat MOCK_BLOCK_COUNT))"

text \<open>The backend, the static mock disk and the world.\<close>

type_synonym ('d, 'w) store = "'d Backend \<times> bytes \<times> 'w"

definition mock_range :: "usize \<Rightarrow> nat \<Rightarrow> (nat \<times> nat) option" where
  "mock_range sector len =
     (let start = sat_mul sector (of_nat MOCK_BLOCK_SIZE); fin = sat_add start (of_nat len)
      in if MOCK_BLOCK_SIZE * MOCK_BLOCK_COUNT < unat fin then None else Some (unat start, unat fin))"

definition read_blocks ::
  "('t, 'd, 'b, 'w) virtio \<Rightarrow> usize \<Rightarrow> bytes \<Rightarrow> ('d, 'w) store \<Rightarrow> bool \<times> bytes \<times> ('d, 'w) store" where
  "read_blocks V sector out = (\<lambda>(b, mock, w).
     if out = [] \<or> length out mod SECTOR_SIZE \<noteq> 0 then (False, out, b, mock, w)
     else case b of
            RealMmio dev \<Rightarrow> (case drv_read V dev sector out w of (ok, out', dev', w') \<Rightarrow> (ok, fit out out', RealMmio dev', mock, w'))
          | RealPci dev \<Rightarrow> (case drv_read V dev sector out w of (ok, out', dev', w') \<Rightarrow> (ok, fit out out', RealPci dev', mock, w'))
          | Mock \<Rightarrow>
              (case mock_range sector (length out) of
                 None \<Rightarrow> (False, out, b, mock, w)
               | Some (start, fin) \<Rightarrow> (True, slice start fin mock, b, mock, w)))"

definition write_blocks ::
  "('t, 'd, 'b, 'w) virtio \<Rightarrow> usize \<Rightarrow> bytes \<Rightarrow> ('d, 'w) store \<Rightarrow> bool \<times> ('d, 'w) store" where
  "write_blocks V sector data = (\<lambda>(b, mock, w).
     if data = [] \<or> length data mod SECTOR_SIZE \<noteq> 0 then (False, b, mock, w)
     else case b of
            RealMmio dev \<Rightarrow> (case drv_write V dev sector data w of (ok, dev', w') \<Rightarrow> (ok, RealMmio dev', mock, w'))
          | RealPci dev \<Rightarrow> (case drv_write V dev sector data w of (ok, dev', w') \<Rightarrow> (ok, RealPci dev', mock, w'))
          | Mock \<Rightarrow>
              (case mock_range sector (length data) of
                 None \<Rightarrow> (False, b, mock, w)
               | Some (start, fin) \<Rightarrow> (True, b, blit mock start data, w)))"

definition backend_flush :: "('t, 'd, 'b, 'w) virtio \<Rightarrow> ('d, 'w) store \<Rightarrow> bool \<times> ('d, 'w) store" where
  "backend_flush V = (\<lambda>(b, mock, w).
     case b of
       RealMmio dev \<Rightarrow> (case drv_flush V dev w of (ok, dev', w') \<Rightarrow> (ok, RealMmio dev', mock, w'))
     | RealPci dev \<Rightarrow> (case drv_flush V dev w of (ok, dev', w') \<Rightarrow> (ok, RealPci dev', mock, w'))
     | Mock \<Rightarrow> (True, b, mock, w))"

section \<open>Finding a device\<close>

definition try_init_virtio_at ::
  "('t, 'd, 'b, 'w) virtio \<Rightarrow> 'w trap \<Rightarrow> usize \<Rightarrow> usize \<Rightarrow> 'w \<Rightarrow> 'd option \<times> 'w" where
  "try_init_virtio_at V trap mmio_paddr mmio_size w =
     (case sys_map_device_u trap mmio_paddr mmio_size w of (mapped, w) \<Rightarrow>
        if mapped = all_ones then (None, w)
        else if mapped = 0 then (None, w)
        else case mmio_new V mapped w of
               (None, w) \<Rightarrow> (None, w)
             | (Some t, w) \<Rightarrow> if \<not> is_block V t w then (None, drop_transport V t w) else blk_new V t w)"

definition try_pci_function ::
  "('t, 'd, 'b, 'w) virtio \<Rightarrow> usize \<Rightarrow> 'b \<Rightarrow> pci_info \<Rightarrow> 'w \<Rightarrow> 'd option \<times> 'w" where
  "try_pci_function V root bdf info w =
     (if \<not> hdr_standard info then (None, w)
      else if ucast (vendor_id info) \<noteq> PCI_VENDOR_VIRTIO then (None, w)
      else if ucast (device_id info) \<noteq> PCI_DEVICE_VIRTIO_BLK_LEGACY
              \<and> ucast (device_id info) \<noteq> PCI_DEVICE_VIRTIO_BLK_MODERN then (None, w)
      else
        case get_command V root bdf w of (cmd, w) \<Rightarrow>
        let w = set_command V root bdf (cmd OR IO_SPACE V OR MEMORY_SPACE V OR BUS_MASTER V) w in
        case pci_new V root bdf w of
          (None, w) \<Rightarrow> (None, w)
        | (Some t, w) \<Rightarrow> if \<not> is_block V t w then (None, drop_transport V t w) else blk_new V t w)"

fun try_pci_functions ::
  "('t, 'd, 'b, 'w) virtio \<Rightarrow> usize \<Rightarrow> ('w \<Rightarrow> ('b \<times> pci_info) option \<times> 'w) list \<Rightarrow> 'w \<Rightarrow> 'd option \<times> 'w" where
  "try_pci_functions V root [] w = (None, w)"
| "try_pci_functions V root (step # steps) w =
     (case step w of
        (None, w) \<Rightarrow> try_pci_functions V root steps w
      | (Some (bdf, info), w) \<Rightarrow>
          (case try_pci_function V root bdf info w of
             (Some dev, w) \<Rightarrow> (Some dev, w)
           | (None, w) \<Rightarrow> try_pci_functions V root steps w))"

fun try_pci_buses :: "('t, 'd, 'b, 'w) virtio \<Rightarrow> usize \<Rightarrow> u8 list \<Rightarrow> 'w \<Rightarrow> 'd option \<times> 'w" where
  "try_pci_buses V root [] w = (None, w)"
| "try_pci_buses V root (b # bs) w =
     (case try_pci_functions V root (enumerate_bus V root b) w of
        (Some dev, w) \<Rightarrow> (Some dev, w)
      | (None, w) \<Rightarrow> try_pci_buses V root bs w)"

definition try_init_virtio_pci :: "('t, 'd, 'b, 'w) virtio \<Rightarrow> 'w trap \<Rightarrow> usize \<Rightarrow> 'w \<Rightarrow> 'd option \<times> 'w" where
  "try_init_virtio_pci V trap ecam_base w =
     (case sys_map_device_u trap ecam_base PCI_ECAM_SIZE w of (ecam_vaddr, w) \<Rightarrow>
        if ecam_vaddr = all_ones then (None, sys_log trap ''virtio-blk: map PCI ECAM failed'' w)
        else try_pci_buses V ecam_vaddr (map of_nat [0..<8]) w)"

definition unwrap_or :: "'a option \<Rightarrow> 'a \<Rightarrow> 'a" where
  "unwrap_or x d = (case x of Some y \<Rightarrow> y | None \<Rightarrow> d)"

definition init_backend :: "('t, 'd, 'b, 'w) virtio \<Rightarrow> 'w trap \<Rightarrow> 'w \<Rightarrow> 'd Backend \<times> 'w" where
  "init_backend V trap w =
     (case ctl_device_query_usize trap (lit ''pci.ecam_base'') 100 w of (q, w) \<Rightarrow>
      case try_init_virtio_pci V trap (unwrap_or q FALLBACK_PCI_ECAM_BASE) w of
        (Some dev, w) \<Rightarrow> (RealPci dev, sys_log trap ''virtio-blk: using PCI transport backend'' w)
      | (None, w) \<Rightarrow>
          let w = sys_log trap ''virtio-blk: PCI transport init failed, trying fixed MMIO path'' w in
          case ctl_device_query_usize trap (lit ''virtio_blk.mmio_base'') 100 w of (q1, w) \<Rightarrow>
          case ctl_device_query_usize trap (lit ''virtio_blk.mmio_size'') 100 w of (q2, w) \<Rightarrow>
          case try_init_virtio_at V trap (unwrap_or q1 FALLBACK_VIRTIO_BLK_MMIO_PADDR)
                 (unwrap_or q2 FALLBACK_VIRTIO_BLK_MMIO_SIZE) w of
            (Some dev, w) \<Rightarrow> (RealMmio dev, sys_log trap ''virtio-blk: using fixed MMIO backend'' w)
          | (None, w) \<Rightarrow> (Mock, sys_log trap ''virtio-blk: transport init failed, fallback to mock backend'' w))"

section \<open>The request loop\<close>

record ('d, 'w) blk_state =
  backend :: "'d Backend"
  mock_disk :: bytes
  req_buf :: bytes
  io_buf :: bytes
  blk_world :: 'w

record req_head =
  opcode :: u16
  tagged :: bool
  req_tag :: u32
  rw_hdr_len :: nat
  payload_off :: nat

definition blk_req_head :: "usize \<Rightarrow> bytes \<Rightarrow> req_head" where
  "blk_req_head req_len buf =
     (let tagged = (TAGGED_HDR_LEN \<le> unat req_len) in
      \<lparr>opcode = from_le [buf ! 0, buf ! 1], tagged = tagged,
       req_tag = (if tagged then from_le [buf ! 2, buf ! 3, buf ! 4, buf ! 5] else 0),
       rw_hdr_len = (if tagged then RW_TAGGED_HDR_LEN else RW_HDR_LEN),
       payload_off = (if tagged then TAGGED_HDR_LEN else 2)\<rparr>)"

definition send_reply :: "'w trap \<Rightarrow> req_head \<Rightarrow> Handle \<Rightarrow> bytes \<Rightarrow> ('d, 'w) blk_state \<Rightarrow> ('d, 'w) blk_state" where
  "send_reply trap h cap payload s =
     (if tagged h then
        let out = replicate (MAX_IO_BYTES + 16) 0;
            n = length payload;
            out = blit out 0 (to_le 4 (req_tag h));
            out = blit out 4 payload
        in s\<lparr>blk_world := sys_ipc_send_u trap cap (take (4 + n) out) None (blk_world s)\<rparr>
      else s\<lparr>blk_world := sys_ipc_send_u trap cap payload None (blk_world s)\<rparr>)"

definition req_sector :: "req_head \<Rightarrow> bytes \<Rightarrow> u64" where
  "req_sector h buf = from_le (slice (payload_off h) (payload_off h + 8) buf)"

definition req_bytes :: "req_head \<Rightarrow> bytes \<Rightarrow> nat" where
  "req_bytes h buf = unat (from_le (slice (payload_off h + 8) (payload_off h + 12) buf) :: u32)"

definition blk_on_info ::
  "('t, 'd, 'b, 'w) virtio \<Rightarrow> 'w trap \<Rightarrow> req_head \<Rightarrow> Handle \<Rightarrow> ('d, 'w) blk_state \<Rightarrow> ('d, 'w) blk_state" where
  "blk_on_info V trap h cap s =
     (case backend_info V (backend s) of (block_size, block_count) \<Rightarrow>
        let resp = replicate 16 0;
            resp = blit resp 0 (to_le 8 block_size);
            resp = blit resp 8 (to_le 8 block_count)
        in send_reply trap h cap resp s)"

definition blk_on_read ::
  "('t, 'd, 'b, 'w) virtio \<Rightarrow> 'w trap \<Rightarrow> usize \<Rightarrow> req_head \<Rightarrow> Handle \<Rightarrow> ('d, 'w) blk_state \<Rightarrow> ('d, 'w) blk_state" where
  "blk_on_read V trap req_len h cap s =
     (if unat req_len < rw_hdr_len h then send_reply trap h cap (lit ''EINVAL'') s
      else
        let sector = req_sector h (req_buf s); n = req_bytes h (req_buf s) in
        if n = 0 \<or> MAX_IO_BYTES < n \<or> n mod SECTOR_SIZE \<noteq> 0 then send_reply trap h cap (lit ''EINVAL'') s
        else case read_blocks V sector (take n (io_buf s)) (backend s, mock_disk s, blk_world s) of
               (ok, out, b, mock, w) \<Rightarrow>
                 let s' = s\<lparr>backend := b, mock_disk := mock, io_buf := blit (io_buf s) 0 out, blk_world := w\<rparr>
                 in if ok then send_reply trap h cap (take n (io_buf s')) s'
                    else send_reply trap h cap (lit ''EIO'') s')"

definition blk_on_write ::
  "('t, 'd, 'b, 'w) virtio \<Rightarrow> 'w trap \<Rightarrow> usize \<Rightarrow> req_head \<Rightarrow> Handle \<Rightarrow> ('d, 'w) blk_state \<Rightarrow> ('d, 'w) blk_state option" where
  "blk_on_write V trap req_len h cap s =
     (if unat req_len < rw_hdr_len h then Some (send_reply trap h cap (lit ''EINVAL'') s)
      else
        let sector = req_sector h (req_buf s); n = req_bytes h (req_buf s) in
        if n = 0 \<or> MAX_IO_BYTES < n \<or> n mod SECTOR_SIZE \<noteq> 0 \<or> unat req_len < rw_hdr_len h + n
        then Some (send_reply trap h cap (lit ''EINVAL'') s)
        else if \<not> slice_ok (rw_hdr_len h) (rw_hdr_len h + n) (req_buf s) then None
        else case write_blocks V sector (slice (rw_hdr_len h) (rw_hdr_len h + n) (req_buf s))
                    (backend s, mock_disk s, blk_world s) of
               (ok, b, mock, w) \<Rightarrow>
                 let s' = s\<lparr>backend := b, mock_disk := mock, blk_world := w\<rparr>
                 in Some (send_reply trap h cap (if ok then lit ''OK'' else lit ''EIO'') s'))"

definition blk_on_flush ::
  "('t, 'd, 'b, 'w) virtio \<Rightarrow> 'w trap \<Rightarrow> req_head \<Rightarrow> Handle \<Rightarrow> ('d, 'w) blk_state \<Rightarrow> ('d, 'w) blk_state" where
  "blk_on_flush V trap h cap s =
     (case backend_flush V (backend s, mock_disk s, blk_world s) of
        (ok, b, mock, w) \<Rightarrow>
          send_reply trap h cap (if ok then lit ''OK'' else lit ''EIO'') (s\<lparr>backend := b, mock_disk := mock, blk_world := w\<rparr>))"

definition blk_request ::
  "('t, 'd, 'b, 'w) virtio \<Rightarrow> 'w trap \<Rightarrow> usize \<Rightarrow> Handle option \<Rightarrow> ('d, 'w) blk_state \<Rightarrow> ('d, 'w) blk_state option" where
  "blk_request V trap req_len reply_cap s =
     (let h = blk_req_head req_len (req_buf s) in
      case reply_cap of
        None \<Rightarrow> Some s
      | Some cap \<Rightarrow>
          if opcode h = BLK_REQ_PING then Some (send_reply trap h cap (lit ''PONG'') s)
          else if opcode h = BLK_REQ_GET_INFO then Some (blk_on_info V trap h cap s)
          else if opcode h = BLK_REQ_READ then Some (blk_on_read V trap req_len h cap s)
          else if opcode h = BLK_REQ_WRITE then blk_on_write V trap req_len h cap s
          else if opcode h = BLK_REQ_FLUSH then Some (blk_on_flush V trap h cap s)
          else Some (send_reply trap h cap (lit ''EINVAL'') s))"

definition blk_step ::
  "('t, 'd, 'b, 'w) virtio \<Rightarrow> 'w trap \<Rightarrow> ('d, 'w) blk_state \<Rightarrow> ('d, 'w) blk_state option" where
  "blk_step V trap s =
     (case sys_ipc_recv_u trap (req_buf s) (blk_world s) of
        (req_len, _, buf, reply_cap, w) \<Rightarrow>
          let s = s\<lparr>req_buf := buf, blk_world := w\<rparr> in
          if req_len < 2 then Some s else blk_request V trap req_len reply_cap s)"

definition blk_start :: "('t, 'd, 'b, 'w) virtio \<Rightarrow> 'w trap \<Rightarrow> 'w \<Rightarrow> ('d, 'w) blk_state" where
  "blk_start V trap w =
     (let w = sys_log trap ''virtio-blk: service started'' w in
      case init_allocator trap w of (_, w) \<Rightarrow>
      case ctl_register_service trap (lit ''virtio_blk'') w of (_, w) \<Rightarrow>
      case init_backend V trap w of (b, w) \<Rightarrow>
        \<lparr>backend = b, mock_disk = replicate (MOCK_BLOCK_SIZE * MOCK_BLOCK_COUNT) 0,
         req_buf = replicate (2 + 8 + 4 + MAX_IO_BYTES) 0, io_buf = replicate MAX_IO_BYTES 0, blk_world = w\<rparr>)"

section \<open>Physical contiguity of shared buffers\<close>

text \<open>
  What the hardware layer relies on: the translation call answers with a fixed function \<open>tr\<close> and keeps no other state, and within a
  page the translation is defined everywhere or nowhere and keeps the offset.
\<close>

definition translates :: "'w trap \<Rightarrow> (usize \<Rightarrow> usize) \<Rightarrow> bool" where
  "translates trap tr \<longleftrightarrow> (\<forall>v w. sys_virt_to_phys_u trap v w = (tr v, w))"

definition pagewise :: "(usize \<Rightarrow> usize) \<Rightarrow> bool" where
  "pagewise tr \<longleftrightarrow> (\<forall>v. tr v \<noteq> all_ones \<longleftrightarrow> tr (v AND NOT 0xFFF) \<noteq> all_ones)
     \<and> (\<forall>v. tr v \<noteq> all_ones \<longrightarrow> tr v = tr (v AND NOT 0xFFF) + (v AND 0xFFF) \<and> tr (v AND NOT 0xFFF) AND 0xFFF = 0)"

lemma pagewise_within:
  assumes "pagewise tr" and "b AND 0xFFF = 0" and "j < 4096"
  shows "tr (b + of_nat j) \<noteq> all_ones \<longleftrightarrow> tr b \<noteq> all_ones"
    and "tr b \<noteq> all_ones \<Longrightarrow> tr (b + of_nat j) = tr b + of_nat j \<and> tr b AND 0xFFF = 0"
proof -
  note page_within [OF assms(2,3)]
  then show "tr (b + of_nat j) \<noteq> all_ones \<longleftrightarrow> tr b \<noteq> all_ones"
    and "tr b \<noteq> all_ones \<Longrightarrow> tr (b + of_nat j) = tr b + of_nat j \<and> tr b AND 0xFFF = 0"
    using assms(1) unfolding pagewise_def by metis+
qed

definition contiguous :: "(usize \<Rightarrow> usize) \<Rightarrow> usize \<Rightarrow> usize \<Rightarrow> nat \<Rightarrow> nat \<Rightarrow> bool" where
  "contiguous tr v p lo hi \<longleftrightarrow>
     (\<forall>k. lo \<le> k \<and> k < hi \<longrightarrow> tr (v + of_nat k) \<noteq> all_ones \<and> tr (v + of_nat k) = p + of_nat k)"

lemma contiguous_page:
  assumes "pagewise tr" and "(v + of_nat c) AND 0xFFF = 0" and "(p + of_nat c) AND 0xFFF = 0" and "0 < n" "n \<le> 4096"
  shows "contiguous tr v p c (c + n) \<longleftrightarrow>
    tr (v + of_nat c) \<noteq> all_ones \<and> tr (v + of_nat c) AND NOT 0xFFF = (p + of_nat c) AND NOT 0xFFF"
    (is "_ \<longleftrightarrow> ?ok")
proof
  assume "contiguous tr v p c (c + n)"
  with assms(4) show ?ok by (auto simp: contiguous_def)
next
  let ?b = "v + of_nat c"
  assume ok: ?ok
  then have al: "tr ?b AND 0xFFF = 0" using pagewise_within(2) [OF assms(1,2), of 0] by simp
  have "tr ?b = p + of_nat c"
    using page_split [of "tr ?b"] page_split [of "p + of_nat c"] ok al assms(3) by metis
  moreover have "v + of_nat (c + j) = ?b + of_nat j" "p + of_nat (c + j) = p + of_nat c + of_nat j" for j
    by (simp_all add: add.assoc)
  ultimately have "tr (v + of_nat (c + j)) \<noteq> all_ones \<and> tr (v + of_nat (c + j)) = p + of_nat (c + j)" if "j < n" for j
    using pagewise_within [OF assms(1,2), of j] ok that assms(5) by (simp only:) simp
  then show "contiguous tr v p c (c + n)"
    unfolding contiguous_def by (metis add_diff_inverse_nat add_less_cancel_left not_less)
qed

lemma contiguous_split: "a \<le> b \<Longrightarrow> b \<le> c \<Longrightarrow> contiguous tr v p a c \<longleftrightarrow> contiguous tr v p a b \<and> contiguous tr v p b c"
  unfolding contiguous_def by (meson le_less_trans less_le_trans not_less order_trans less_imp_le)

lemma page_next: "(x + of_nat c) AND 0xFFF = 0 \<Longrightarrow> (x + of_nat (c + 4096)) AND 0xFFF = 0" for x :: usize
proof -
  assume "(x + of_nat c) AND 0xFFF = 0"
  then have "unat (x + of_nat c) mod 4096 = 0" using unat_page_off [of "x + of_nat c"] by simp
  moreover have "unat (x + of_nat c + 4096) mod 4096 = unat (x + of_nat c) mod 4096"
    by (simp add: unat_word_ariths mod_mod_cancel)
  ultimately have "unat ((x + of_nat (c + 4096)) AND 0xFFF) = 0" by (simp add: unat_page_off add.assoc)
  then show ?thesis by (simp only: unat_eq_0)
qed

lemma share_loop_exact:
  assumes "translates trap tr" and "pagewise tr"
    and "len \<le> covered \<or> (v + of_nat covered) AND 0xFFF = 0 \<and> (p + of_nat covered) AND 0xFFF = 0"
  shows "share_loop trap v p len covered w = (if contiguous tr v p covered len then p else 0, w)"
  using assms(3)
proof (induction "len - covered" arbitrary: covered rule: less_induct)
  case less
  show ?case
  proof (cases "len \<le> covered")
    case True
    then show ?thesis by (subst share_loop.simps) (auto simp: contiguous_def)
  next
    case False
    define n where "n = min (len - covered) 4096"
    have n: "0 < n" "n \<le> 4096" "covered + n \<le> len" using False by (auto simp: n_def)
    have al: "(v + of_nat covered) AND 0xFFF = 0" "(p + of_nat covered) AND 0xFFF = 0" using less.prems False by auto
    note page = contiguous_page [OF assms(2) al n(1,2)]
    note split = contiguous_split [of covered "covered + n" len tr v p, OF _ n(3)]
    have run: "share_loop trap v p len covered w =
        (if tr (v + of_nat covered) \<noteq> all_ones \<and> tr (v + of_nat covered) AND NOT 0xFFF = (p + of_nat covered) AND NOT 0xFFF
         then share_loop trap v p len (covered + n) w else (0, w))"
      using False assms(1) by (subst share_loop.simps) (auto simp: translates_def n_def Let_def)
    show ?thesis
    proof (cases "tr (v + of_nat covered) \<noteq> all_ones \<and> tr (v + of_nat covered) AND NOT 0xFFF = (p + of_nat covered) AND NOT 0xFFF")
      case True
      have "len \<le> covered + n \<or> n = 4096" by (auto simp: n_def)
      then have next_al: "len \<le> covered + n \<or> (v + of_nat (covered + n)) AND 0xFFF = 0 \<and> (p + of_nat (covered + n)) AND 0xFFF = 0"
        using page_next [OF al(1)] page_next [OF al(2)] by auto
      have "share_loop trap v p len (covered + n) w = (if contiguous tr v p (covered + n) len then p else 0, w)"
        using n next_al by (intro less.hyps) auto
      with run True page split show ?thesis by simp
    next
      case no: False
      with run page split show ?thesis by auto
    qed
  qed
qed

section \<open>Replies\<close>

definition blk_ok :: "('d, 'w) blk_state \<Rightarrow> bool" where
  "blk_ok s \<longleftrightarrow> length (mock_disk s) = MOCK_BLOCK_SIZE * MOCK_BLOCK_COUNT
     \<and> length (req_buf s) = 2 + 8 + 4 + MAX_IO_BYTES \<and> length (io_buf s) = MAX_IO_BYTES"

definition tag_prefix :: "req_head \<Rightarrow> bytes" where
  "tag_prefix h = (if tagged h then to_le 4 (req_tag h) else [])"

lemma send_reply_eq:
  assumes "length payload \<le> MAX_IO_BYTES"
  shows "send_reply trap h cap payload s =
    s\<lparr>blk_world := sys_ipc_send_u trap cap (tag_prefix h @ payload) None (blk_world s)\<rparr>"
  using assms by (simp add: send_reply_def tag_prefix_def blit_def)

lemma blk_ok_world [simp]: "blk_ok (s\<lparr>blk_world := w\<rparr>) = blk_ok s"
  by (simp add: blk_ok_def)

lemma mock_range_Some:
  assumes "len \<le> MAX_IO_BYTES"
  shows "mock_range sector len = (if unat sector * 512 + len \<le> 131072 then Some (unat sector * 512, unat sector * 512 + len) else None)"
proof -
  have "len < 2 ^ 64" using assms by simp
  then have "unat (of_nat len :: usize) = len" by (simp add: unat_of_nat)
  then show ?thesis by (auto simp: mock_range_def Let_def unat_sat_add unat_sat_mul)
qed

text \<open>A request with a capability gets one reply, on that capability; with the mock disk nothing else happens to the world.\<close>

definition answered :: "'w trap \<Rightarrow> Handle \<Rightarrow> bytes \<Rightarrow> ('d, 'w) blk_state \<Rightarrow> ('d, 'w) blk_state \<Rightarrow> bool" where
  "answered trap cap prefix s s' \<longleftrightarrow> blk_ok s' \<and> req_buf s' = req_buf s
     \<and> (\<exists>payload w. length payload \<le> MAX_IO_BYTES \<and> blk_world s' = sys_ipc_send_u trap cap (prefix @ payload) None w
          \<and> (backend s = Mock \<longrightarrow> w = blk_world s \<and> backend s' = Mock))"

lemma answeredI:
  assumes "length payload \<le> MAX_IO_BYTES" and "blk_ok s1" and "req_buf s1 = req_buf s"
    and "backend s = Mock \<Longrightarrow> blk_world s1 = blk_world s \<and> backend s1 = Mock"
  shows "answered trap cap (tag_prefix h) s (send_reply trap h cap payload s1)"
  unfolding answered_def send_reply_eq [OF assms(1)]
  using assms by (auto intro!: exI [of _ payload])

lemma read_blocks_ok:
  assumes "read_blocks V sector out (b, mock, w) = (ok, out', b', mock', w')" and "length mock = 131072" and "length out \<le> MAX_IO_BYTES"
  shows "length out' = length out" and "mock' = mock" and "b = Mock \<Longrightarrow> b' = Mock \<and> w' = w"
  using assms
  by (auto simp: read_blocks_def mock_range_Some slice_def split: if_splits Backend.splits prod.splits option.splits)

lemma write_blocks_ok:
  assumes "write_blocks V sector data (b, mock, w) = (ok, b', mock', w')" and "length mock = 131072" and "length data \<le> MAX_IO_BYTES"
  shows "length mock' = 131072" and "b = Mock \<Longrightarrow> b' = Mock \<and> w' = w"
  using assms
  by (auto simp: write_blocks_def mock_range_Some length_blit split: if_splits Backend.splits prod.splits option.splits)

lemma backend_flush_ok:
  assumes "backend_flush V (b, mock, w) = (ok, b', mock', w')"
  shows "mock' = mock" and "b = Mock \<Longrightarrow> b' = Mock \<and> w' = w"
  using assms by (auto simp: backend_flush_def split: Backend.splits prod.splits)

lemma blk_on_read_answered: "blk_ok s \<Longrightarrow> answered trap cap (tag_prefix h) s (blk_on_read V trap req_len h cap s)"
proof -
  assume ok: "blk_ok s"
  let ?n = "req_bytes h (req_buf s)"
  show ?thesis
  proof (cases "unat req_len < rw_hdr_len h \<or> ?n = 0 \<or> MAX_IO_BYTES < ?n \<or> ?n mod SECTOR_SIZE \<noteq> 0")
    case True
    then have "blk_on_read V trap req_len h cap s = send_reply trap h cap (lit ''EINVAL'') s"
      unfolding blk_on_read_def Let_def by auto
    with ok show ?thesis by (simp add: answeredI)
  next
    case False
    obtain res out b mock w where
      r: "read_blocks V (req_sector h (req_buf s)) (take ?n (io_buf s)) (backend s, mock_disk s, blk_world s) = (res, out, b, mock, w)"
      by (metis prod.exhaust)
    have len: "length (io_buf s) = 4096" "length (mock_disk s) = 131072" "?n \<le> 4096" using ok False by (simp_all add: blk_ok_def)
    note io = read_blocks_ok [OF r]
    let ?s = "s\<lparr>backend := b, mock_disk := mock, io_buf := blit (io_buf s) 0 out, blk_world := w\<rparr>"
    have s: "blk_ok ?s" using ok io(1,2) len by (simp add: blk_ok_def length_blit)
    have "blk_on_read V trap req_len h cap s
        = send_reply trap h cap (if res then take ?n (io_buf ?s) else lit ''EIO'') ?s"
      using False r unfolding blk_on_read_def by (auto simp: Let_def)
    moreover have "length (if res then take ?n (io_buf ?s) else lit ''EIO'') \<le> MAX_IO_BYTES" using len by (simp add: min.coboundedI2)
    ultimately show ?thesis using answeredI [OF _ s] io(3) len by simp
  qed
qed

lemma blk_on_write_answered:
  assumes "blk_ok s" and "unat req_len \<le> length (req_buf s)"
  shows "\<exists>s'. blk_on_write V trap req_len h cap s = Some s' \<and> answered trap cap (tag_prefix h) s s'"
proof -
  let ?n = "req_bytes h (req_buf s)"
  let ?data = "slice (rw_hdr_len h) (rw_hdr_len h + ?n) (req_buf s)"
  show ?thesis
  proof (cases "unat req_len < rw_hdr_len h \<or> ?n = 0 \<or> MAX_IO_BYTES < ?n \<or> ?n mod SECTOR_SIZE \<noteq> 0
      \<or> unat req_len < rw_hdr_len h + ?n")
    case True
    then have "blk_on_write V trap req_len h cap s = Some (send_reply trap h cap (lit ''EINVAL'') s)"
      unfolding blk_on_write_def Let_def by auto
    with assms(1) show ?thesis by (simp add: answeredI)
  next
    case False
    then have bound: "rw_hdr_len h + ?n \<le> length (req_buf s)" and n: "?n \<le> 4096" using assms(2) by auto
    obtain res b mock w where
      r: "write_blocks V (req_sector h (req_buf s)) ?data (backend s, mock_disk s, blk_world s) = (res, b, mock, w)"
      by (metis prod.exhaust)
    have len: "length (mock_disk s) = 131072" "length ?data \<le> MAX_IO_BYTES"
      using assms(1) bound n by (simp_all add: blk_ok_def length_slice)
    note io = write_blocks_ok [OF r len]
    let ?s = "s\<lparr>backend := b, mock_disk := mock, blk_world := w\<rparr>"
    have s: "blk_ok ?s" using assms(1) io(1) by (simp add: blk_ok_def)
    have "blk_on_write V trap req_len h cap s = Some (send_reply trap h cap (if res then lit ''OK'' else lit ''EIO'') ?s)"
      using False r bound unfolding blk_on_write_def by (auto simp: Let_def slice_ok_def)
    moreover have "length (if res then lit ''OK'' else lit ''EIO'') \<le> MAX_IO_BYTES" by simp
    ultimately show ?thesis using answeredI [OF _ s] io(2) by simp
  qed
qed

lemma blk_on_flush_answered: "blk_ok s \<Longrightarrow> answered trap cap (tag_prefix h) s (blk_on_flush V trap h cap s)"
proof -
  assume ok: "blk_ok s"
  obtain res b mock w where r: "backend_flush V (backend s, mock_disk s, blk_world s) = (res, b, mock, w)"
    by (metis prod.exhaust)
  note io = backend_flush_ok [OF r]
  have "blk_ok (s\<lparr>backend := b, mock_disk := mock, blk_world := w\<rparr>)" using ok io(1) by (simp add: blk_ok_def)
  from answeredI [OF _ this] r io(2) show ?thesis by (simp add: blk_on_flush_def)
qed

section \<open>Tagged requests to the mock disk\<close>

text \<open>A driver that finds no device.\<close>

definition no_device :: "(unit, unit, unit, 'w) virtio" where
  "no_device = \<lparr>mmio_new = \<lambda>_ w. (None, w), pci_new = \<lambda>_ _ w. (None, w), is_block = \<lambda>_ _. False, drop_transport = \<lambda>_ w. w,
     blk_new = \<lambda>_ w. (None, w), enumerate_bus = \<lambda>_ _. [], get_command = \<lambda>_ _ w. (0, w), set_command = \<lambda>_ _ _ w. w,
     IO_SPACE = 1, MEMORY_SPACE = 2, BUS_MASTER = 4, drv_capacity = \<lambda>_. 0, drv_read = \<lambda>d _ out w. (False, out, d, w),
     drv_write = \<lambda>d _ _ w. (False, d, w), drv_flush = \<lambda>d w. (False, d, w)\<rparr>"

definition tagged_req :: "u16 \<Rightarrow> u32 \<Rightarrow> bytes \<Rightarrow> bytes" where
  "tagged_req opc tag rest = to_le 2 opc @ to_le 4 tag @ rest"

definition rw_args :: "u64 \<Rightarrow> u32 \<Rightarrow> bytes" where
  "rw_args sector n = to_le 8 sector @ to_le 4 n"

lemma length_tagged_req [simp]: "length (tagged_req opc tag rest) = 6 + length rest"
  by (simp add: tagged_req_def)

lemma length_rw_args [simp]: "length (rw_args sector n) = 12"
  by (simp add: rw_args_def)

lemma u16_bytes: "\<exists>a b. to_le 2 (x :: u16) = [a, b] \<and> from_le [a, b] = x"
  using length_to_le [of 2 x] from_le_u16 [of x]
  by (auto simp: numeral_eq_Suc length_Suc_conv simp del: length_to_le from_le_u16)

lemma u32_bytes: "\<exists>a b c d. to_le 4 (x :: u32) = [a, b, c, d] \<and> from_le [a, b, c, d] = x"
  using length_to_le [of 4 x] from_le_u32 [of x]
  by (auto simp: numeral_eq_Suc length_Suc_conv simp del: length_to_le from_le_u32)

lemma tagged_req_head:
  assumes "6 \<le> unat L"
  shows "blk_req_head L (blit buf 0 (tagged_req opc tag rest))
    = \<lparr>opcode = opc, tagged = True, req_tag = tag, rw_hdr_len = 18, payload_off = 6\<rparr>"
  using assms u16_bytes [of opc] u32_bytes [of tag]
  by (auto simp: blk_req_head_def tagged_req_def blit_def Let_def numeral_eq_Suc)

lemma tagged_req_args:
  assumes "payload_off h = 6"
  shows "req_sector h (blit buf 0 (tagged_req opc tag (rw_args sector n @ data))) = sector"
    and "req_bytes h (blit buf 0 (tagged_req opc tag (rw_args sector n @ data))) = unat n"
  using assms
  by (simp_all add: req_sector_def req_bytes_def tagged_req_def rw_args_def blit_def slice_def)

lemma tagged_req_data: "slice 18 (18 + length data) (blit buf 0 (tagged_req opc tag (rw_args sector n @ data))) = data"
  by (simp add: tagged_req_def rw_args_def blit_def slice_def)

definition mock_reply :: "'w trap \<Rightarrow> Handle \<Rightarrow> u32 \<Rightarrow> bytes \<Rightarrow> ('d, 'w) blk_state \<Rightarrow> ('d, 'w) blk_state" where
  "mock_reply trap cap tag payload s =
     s\<lparr>blk_world := sys_ipc_send_u trap cap (to_le 4 tag @ payload) None (blk_world s)\<rparr>"

lemma mock_info:
  assumes "backend s = Mock" and "6 \<le> unat L" and "req_buf s = blit buf 0 (tagged_req BLK_REQ_GET_INFO tag rest)"
  shows "blk_request V trap L (Some cap) s = Some (mock_reply trap cap tag (to_le 8 (512 :: u64) @ to_le 8 (256 :: u64)) s)"
  unfolding blk_request_def assms(3) tagged_req_head [OF assms(2)]
  by (simp add: blk_on_info_def backend_info_def assms(1) send_reply_eq tag_prefix_def mock_reply_def blit_def)

lemma mock_read:
  assumes "backend s = Mock" and "blk_ok s" and "18 \<le> unat L"
    and "req_buf s = blit buf 0 (tagged_req BLK_REQ_READ tag (rw_args sector n @ rest))"
    and "0 < unat n" and "unat n \<le> 4096" and "unat n mod 512 = 0" and "unat sector * 512 + unat n \<le> 131072"
  shows "\<exists>io. length io = 4096 \<and> blk_request V trap L (Some cap) s = Some (mock_reply trap cap tag
      (slice (unat sector * 512) (unat sector * 512 + unat n) (mock_disk s)) (s\<lparr>io_buf := io\<rparr>))"
proof -
  define h where "h = blk_req_head L (req_buf s)"
  let ?out = "slice (unat sector * 512) (unat sector * 512 + unat n) (mock_disk s)"
  have h: "opcode h = BLK_REQ_READ" "tagged h" "req_tag h = tag" "rw_hdr_len h = 18" "payload_off h = 6"
    unfolding h_def assms(4) using assms(3) by (simp_all add: tagged_req_head)
  have args: "req_sector h (req_buf s) = sector" "req_bytes h (req_buf s) = unat n"
    unfolding assms(4) by (rule tagged_req_args, rule h(5))+
  have len: "length (mock_disk s) = 131072" "length (io_buf s) = 4096" using assms(2) by (simp_all add: blk_ok_def)
  have out: "length ?out = unat n" using assms(8) len by (simp add: length_slice)
  have "take (unat n) (io_buf s) \<noteq> []" "length (take (unat n) (io_buf s)) = unat n" using assms(5,6) len by auto
  then have "read_blocks V sector (take (unat n) (io_buf s)) (backend s, mock_disk s, blk_world s)
      = (True, ?out, Mock, mock_disk s, blk_world s)"
    using assms(1,6-8) by (simp add: read_blocks_def mock_range_Some)
  then have "blk_request V trap L (Some cap) s = Some (send_reply trap h cap ?out (s\<lparr>backend := Mock, io_buf := blit (io_buf s) 0 ?out\<rparr>))"
    using assms(3,5-7) out by (simp add: blk_request_def h_def [symmetric] h blk_on_read_def args Let_def take_blit_0)
  moreover have "length (blit (io_buf s) 0 ?out) = 4096" using out assms(6) len by (simp add: length_blit)
  ultimately show ?thesis
    using out assms(1,6) by (intro exI [of _ "blit (io_buf s) 0 ?out"]) (simp add: send_reply_eq tag_prefix_def mock_reply_def h)
qed

lemma mock_write:
  assumes "backend s = Mock" and "blk_ok s" and "L = of_nat (18 + length data)"
    and "req_buf s = blit buf 0 (tagged_req BLK_REQ_WRITE tag (rw_args sector (of_nat (length data)) @ data))"
    and "data \<noteq> []" and "18 + length data \<le> length buf" "length buf = 4110" and "length data mod 512 = 0"
    and "unat sector * 512 + length data \<le> 131072"
  shows "blk_request V trap L (Some cap) s = Some (mock_reply trap cap tag (lit ''OK'')
      (s\<lparr>mock_disk := blit (mock_disk s) (unat sector * 512) data\<rparr>))"
proof -
  define h where "h = blk_req_head L (req_buf s)"
  have L: "unat L = 18 + length data" unfolding assms(3) using assms(6,7) by (simp add: unat_of_nat del: of_nat_add)
  have h: "opcode h = BLK_REQ_WRITE" "tagged h" "req_tag h = tag" "rw_hdr_len h = 18" "payload_off h = 6"
    unfolding h_def assms(4) using L by (simp_all add: tagged_req_head)
  have n: "unat (of_nat (length data) :: u32) = length data" using assms(6,7) by (simp add: unat_of_nat)
  have args: "req_sector h (req_buf s) = sector" "req_bytes h (req_buf s) = length data"
    "slice 18 (18 + length data) (req_buf s) = data"
    unfolding assms(4) using tagged_req_args [OF h(5)] n by (simp_all add: tagged_req_data)
  have len: "length (req_buf s) = 4110" using assms(2) by (simp add: blk_ok_def)
  have "write_blocks V sector data (backend s, mock_disk s, blk_world s)
      = (True, Mock, blit (mock_disk s) (unat sector * 512) data, blk_world s)"
    using assms(1,5-9) by (simp add: write_blocks_def mock_range_Some)
  then show ?thesis
    using assms(1,5-8) L len args
    by (simp add: blk_request_def h_def [symmetric] h blk_on_write_def Let_def slice_ok_def send_reply_eq tag_prefix_def mock_reply_def)
qed

section \<open>Properties\<close>


definition demo_translation :: "usize \<Rightarrow> usize" where
  "demo_translation v =
     (if v AND NOT 0xFFF = 0x1000 \<or> v AND NOT 0xFFF = 0x2000 then (v AND NOT 0xFFF) + 0x8000 + (v AND 0xFFF) else all_ones)"

lemma demo_pagewise: "pagewise demo_translation"
proof -
  have idem: "(v AND NOT 0xFFF) AND NOT 0xFFF = v AND NOT 0xFFF" "(v AND NOT 0xFFF) AND 0xFFF = 0" for v :: usize
    by (simp_all add: bit_eq_iff bit_simps)
  have lt: "unat (v AND 0xFFF) < 4096" for v :: usize by (simp add: unat_page_off)
  have "unat (0x9000 + (v AND 0xFFF)) \<noteq> unat all_ones \<and> unat (0xA000 + (v AND 0xFFF)) \<noteq> unat all_ones" for v :: usize
    using lt [of v] by (simp add: unat_word_ariths unat_all_ones)
  then have ne: "0x9000 + (v AND 0xFFF) \<noteq> all_ones" "0xA000 + (v AND 0xFFF) \<noteq> all_ones" for v :: usize
    by metis+
  have k: "(0x9000 :: usize) \<noteq> all_ones" "(0xA000 :: usize) \<noteq> all_ones" by code_simp+
  show ?thesis
    unfolding pagewise_def demo_translation_def idem using ne k by (auto simp: add.commute)
qed




end
