(* ===== verification/FsDisk.thy ===== *)
theory FsDisk
  imports BlkServer
begin

text \<open>
  The disk of the file-system server (\<^verbatim>\<open>apps/fs/src/main.rs\<close>, up to \<^verbatim>\<open>blk_call\<close>): calls to the block server with
  request identifiers, and the byte-addressed disk \<^verbatim>\<open>VirtioBlkDisk\<close> over its sectors that is handed to the FAT library. The statics
  are fields of the environment.
\<close>

section \<open>Calls to the block server\<close>

record 'w fs_env =
  blk_req_id :: u32
  blk_service :: usize
  fs_world :: 'w

definition next_blk_req_id :: "'w fs_env \<Rightarrow> u32 \<times> 'w fs_env" where
  "next_blk_req_id e = (blk_req_id e, e\<lparr>blk_req_id := blk_req_id e + 1\<rparr>)"

definition blk_service_handle :: "'w trap \<Rightarrow> 'w fs_env \<Rightarrow> Handle \<times> 'w fs_env" where
  "blk_service_handle trap e =
     (let cached = blk_service e in
      if cached \<noteq> 0 then (from_usize cached, e)
      else case ctl_lookup_service trap (lit ''virtio_blk'') 100 (fs_world e) of
             (r, w) \<Rightarrow>
               let resolved = unwrap_or r VirtioBlkEndpoint
               in (resolved, e\<lparr>blk_service := to_usize resolved, fs_world := w\<rparr>))"

text \<open>The wait for the reply, with the number of tries that are left.\<close>

fun blk_wait :: "'w trap \<Rightarrow> u32 \<Rightarrow> nat \<Rightarrow> bytes \<Rightarrow> bytes \<Rightarrow> 'w \<Rightarrow> nat \<times> bytes \<times> 'w" where
  "blk_wait trap req_id 0 inbox resp w = (0, resp, w)"
| "blk_wait trap req_id (Suc tries) inbox resp w =
     (case sys_ipc_recv_timeout_u trap inbox 20 w of
        (n, _, inbox', recv_cap, w') \<Rightarrow>
          if n < 0 then blk_wait trap req_id tries inbox' resp w'
          else case recv_cap of
                 Some cap \<Rightarrow> blk_wait trap req_id tries inbox' resp (sys_ipc_send_u trap cap (lit ''EAGAIN'') None w')
               | None \<Rightarrow>
                   if nat n < TAG_LEN then blk_wait trap req_id tries inbox' resp w'
                   else if from_le [inbox' ! 0, inbox' ! 1, inbox' ! 2, inbox' ! 3] \<noteq> req_id
                   then blk_wait trap req_id tries inbox' resp w'
                   else let copy = min (nat n - TAG_LEN) (length resp)
                        in (copy, blit resp 0 (slice TAG_LEN (TAG_LEN + copy) inbox'), w'))"

definition tag_request :: "u32 \<Rightarrow> bytes \<Rightarrow> bytes" where
  "tag_request req_id req =
     (let tagged = replicate (MAX_IO_BYTES + 32) 0;
          tagged = blit tagged 0 (slice 0 2 req);
          tagged = blit tagged 2 (to_le 4 req_id);
          tagged = blit tagged 6 (drop 2 req)
      in take (length req + TAG_LEN) tagged)"

definition blk_call :: "'w trap \<Rightarrow> bytes \<Rightarrow> bytes \<Rightarrow> 'w fs_env \<Rightarrow> nat \<times> bytes \<times> 'w fs_env" where
  "blk_call trap req resp e =
     (case next_blk_req_id e of (req_id, e) \<Rightarrow>
      if MAX_IO_BYTES + 32 < length req + TAG_LEN then (0, resp, e)
      else case blk_service_handle trap e of (h, e) \<Rightarrow>
           case sys_ipc_send_checked trap h (tag_request req_id req) (Some LocalEndpoint) (fs_world e) of
             (False, w) \<Rightarrow> (0, resp, e\<lparr>fs_world := w\<rparr>)
           | (True, w) \<Rightarrow>
               (case blk_wait trap req_id 250 (replicate (MAX_IO_BYTES + 32) 0) resp w of
                  (n, resp', w') \<Rightarrow> (n, resp', e\<lparr>fs_world := w'\<rparr>)))"

section \<open>The disk\<close>

record VirtioBlkDisk =
  pos :: u64
  dsize :: u64
  block_size :: usize

definition disk_new :: "'w trap \<Rightarrow> 'w fs_env \<Rightarrow> VirtioBlkDisk option \<times> 'w fs_env" where
  "disk_new trap e =
     (case blk_call trap (to_le 2 BLK_REQ_GET_INFO) (replicate 16 0) e of
        (len, resp, e') \<Rightarrow>
          if len \<noteq> 16 then (None, e')
          else
            let bs = from_le (slice 0 8 resp) :: usize; bc = from_le (slice 8 16 resp) :: u64 in
            if bs = 0 \<or> MAX_IO_BYTES < unat bs then (None, e')
            else (Some \<lparr>pos = 0, dsize = sat_mul bc bs, block_size = bs\<rparr>, e'))"

definition read_sector :: "'w trap \<Rightarrow> u64 \<Rightarrow> bytes \<Rightarrow> 'w fs_env \<Rightarrow> bool \<times> bytes \<times> 'w fs_env" where
  "read_sector trap sector out e =
     (let req = replicate RW_HDR_LEN 0;
          req = blit req 0 (to_le 2 BLK_REQ_READ);
          req = blit req 2 (to_le 8 sector);
          req = blit req 10 (to_le 4 (of_nat (length out) :: u32))
      in case blk_call trap req (replicate MAX_IO_BYTES 0) e of
           (len, resp, e') \<Rightarrow> if len \<noteq> length out then (False, out, e') else (True, take len resp, e'))"

definition write_sector :: "'w trap \<Rightarrow> u64 \<Rightarrow> bytes \<Rightarrow> 'w fs_env \<Rightarrow> bool \<times> 'w fs_env" where
  "write_sector trap sector data e =
     (let req = to_le 2 BLK_REQ_WRITE @ to_le 8 sector @ to_le 4 (of_nat (length data) :: u32) @ data
      in case blk_call trap req (replicate 8 0) e of
           (len, resp, e') \<Rightarrow> (len = 2 \<and> take 2 resp = lit ''OK'', e'))"

text \<open>Results of the disk operations; \<open>IoPanic\<close> marks a division by zero or a slice out of range.\<close>

datatype 'a io = IoPanic | IoErr | IoOk 'a

definition chunk_len :: "VirtioBlkDisk \<Rightarrow> nat \<Rightarrow> nat" where
  "chunk_len d len =
     (let off = unat (pos d) mod unat (block_size d)
      in min (min (unat (block_size d) - off) len) (unat (dsize d - pos d)))"

lemma chunk_len_pos: "block_size d \<noteq> 0 \<Longrightarrow> buf \<noteq> [] \<Longrightarrow> pos d < dsize d \<Longrightarrow> 0 < chunk_len d (length buf)"
proof -
  assume a: "block_size d \<noteq> 0" "buf \<noteq> []" "pos d < dsize d"
  then have "unat (pos d) mod unat (block_size d) < unat (block_size d)" by (simp add: unat_gt_0)
  moreover have "dsize d - pos d \<noteq> 0" using a(3) by auto
  ultimately show ?thesis using a(2) by (simp add: chunk_len_def unat_gt_0)
qed

function disk_read_loop ::
  "'w trap \<Rightarrow> bytes \<Rightarrow> bytes \<Rightarrow> bytes \<Rightarrow> VirtioBlkDisk \<Rightarrow> 'w fs_env \<Rightarrow> nat io \<times> bytes \<times> VirtioBlkDisk \<times> 'w fs_env" where
  "disk_read_loop trap sector got buf d e =
     (if buf = [] \<or> \<not> pos d < dsize d then (IoOk (length got), got @ buf, d, e)
      else if block_size d = 0 \<or> length sector < unat (block_size d) then (IoPanic, got @ buf, d, e)
      else
        let lba = pos d div block_size d; off = unat (pos d) mod unat (block_size d) in
        case read_sector trap lba (take (unat (block_size d)) sector) e of
          (False, _, e') \<Rightarrow> (IoErr, got @ buf, d, e')
        | (True, out, e') \<Rightarrow>
            let sector' = blit sector 0 out; n = chunk_len d (length buf)
            in disk_read_loop trap sector' (got @ slice off (off + n) sector') (drop n buf)
                 (d\<lparr>pos := pos d + of_nat n\<rparr>) e')"
  by pat_completeness auto
termination
  by (relation "measure (\<lambda>(trap, sector, got, buf, d, e). length buf)") (auto dest: chunk_len_pos)

declare disk_read_loop.simps [simp del]

definition disk_read :: "'w trap \<Rightarrow> bytes \<Rightarrow> VirtioBlkDisk \<Rightarrow> 'w fs_env \<Rightarrow> nat io \<times> bytes \<times> VirtioBlkDisk \<times> 'w fs_env" where
  "disk_read trap buf d e = disk_read_loop trap (replicate MAX_IO_BYTES 0) [] buf d e"

function disk_write_loop ::
  "'w trap \<Rightarrow> bytes \<Rightarrow> nat \<Rightarrow> bytes \<Rightarrow> VirtioBlkDisk \<Rightarrow> 'w fs_env \<Rightarrow> nat io \<times> VirtioBlkDisk \<times> 'w fs_env" where
  "disk_write_loop trap sector written buf d e =
     (if buf = [] \<or> \<not> pos d < dsize d then (IoOk written, d, e)
      else if block_size d = 0 \<or> length sector < unat (block_size d) then (IoPanic, d, e)
      else
        let lba = pos d div block_size d; off = unat (pos d) mod unat (block_size d) in
        case read_sector trap lba (take (unat (block_size d)) sector) e of
          (False, _, e') \<Rightarrow> (IoErr, d, e')
        | (True, out, e') \<Rightarrow>
            let n = chunk_len d (length buf); sector' = blit (blit sector 0 out) off (take n buf) in
            case write_sector trap lba (take (unat (block_size d)) sector') e' of
              (False, e'') \<Rightarrow> (IoErr, d, e'')
            | (True, e'') \<Rightarrow>
                disk_write_loop trap sector' (written + n) (drop n buf) (d\<lparr>pos := pos d + of_nat n\<rparr>) e'')"
  by pat_completeness auto
termination
  by (relation "measure (\<lambda>(trap, sector, written, buf, d, e). length buf)") (auto dest: chunk_len_pos)

declare disk_write_loop.simps [simp del]

definition disk_write :: "'w trap \<Rightarrow> bytes \<Rightarrow> VirtioBlkDisk \<Rightarrow> 'w fs_env \<Rightarrow> nat io \<times> VirtioBlkDisk \<times> 'w fs_env" where
  "disk_write trap buf d e = disk_write_loop trap (replicate MAX_IO_BYTES 0) 0 buf d e"

definition disk_flush :: "'w trap \<Rightarrow> 'w fs_env \<Rightarrow> bool \<times> 'w fs_env" where
  "disk_flush trap e =
     (case blk_call trap (to_le 2 BLK_REQ_FLUSH) (replicate 8 0) e of
        (len, resp, e') \<Rightarrow> (len = 2 \<and> take 2 resp = lit ''OK'', e'))"

datatype SeekFrom = SeekStart u64 | SeekCurrent u64 | SeekEnd u64

text \<open>\<^verbatim>\<open>checked_add_signed\<close>; the offset is the signed reading of the word.\<close>

definition checked_add_signed :: "u64 \<Rightarrow> u64 \<Rightarrow> u64 option" where
  "checked_add_signed p off =
     (let v = uint p + sint off in if 0 \<le> v \<and> v < 2 ^ 64 then Some (of_int v) else None)"

definition disk_seek :: "SeekFrom \<Rightarrow> VirtioBlkDisk \<Rightarrow> u64 option \<times> VirtioBlkDisk" where
  "disk_seek sf d =
     (case (case sf of SeekStart p \<Rightarrow> Some p
            | SeekCurrent off \<Rightarrow> checked_add_signed (pos d) off
            | SeekEnd off \<Rightarrow> checked_add_signed (dsize d) off) of
        None \<Rightarrow> (None, d)
      | Some p \<Rightarrow> (Some (min p (dsize d)), d\<lparr>pos := min p (dsize d)\<rparr>))"

section \<open>The contract between the disk and the block server\<close>

text \<open>
  What the disk relies on: while the channel is live, sector calls read and write the sectors of a byte array and keep the channel
  live. Under this contract the disk is a byte array with a cursor.
\<close>

definition disk_on :: "('w fs_env \<Rightarrow> bool) \<Rightarrow> ('w fs_env \<Rightarrow> bytes) \<Rightarrow> nat \<Rightarrow> VirtioBlkDisk \<Rightarrow> 'w fs_env \<Rightarrow> bool" where
  "disk_on live data bs d e \<longleftrightarrow>
     live e \<and> unat (block_size d) = bs \<and> unat (dsize d) = length (data e) \<and> pos d \<le> dsize d"

text \<open>The operations of the disk and the byte array with a cursor that is their specification.\<close>

datatype disk_op = DRead bytes | DWrite bytes | DSeek SeekFrom
datatype disk_res = RRead "nat io" bytes | RWrite "nat io" | RSeek "u64 option"

definition disk_step :: "'w trap \<Rightarrow> disk_op \<Rightarrow> VirtioBlkDisk \<times> 'w fs_env \<Rightarrow> disk_res \<times> VirtioBlkDisk \<times> 'w fs_env" where
  "disk_step trap oper = (\<lambda>(d, e).
     case oper of
       DRead buf \<Rightarrow> (case disk_read trap buf d e of (r, buf', d', e') \<Rightarrow> (RRead r buf', d', e'))
     | DWrite buf \<Rightarrow> (case disk_write trap buf d e of (r, d', e') \<Rightarrow> (RWrite r, d', e'))
     | DSeek sf \<Rightarrow> (case disk_seek sf d of (r, d') \<Rightarrow> (RSeek r, d', e)))"

fun disk_run :: "'w trap \<Rightarrow> disk_op list \<Rightarrow> VirtioBlkDisk \<times> 'w fs_env \<Rightarrow> disk_res list \<times> VirtioBlkDisk \<times> 'w fs_env" where
  "disk_run trap [] s = ([], s)"
| "disk_run trap (oper # ops) s =
     (case disk_step trap oper s of (r, s') \<Rightarrow> (case disk_run trap ops s' of (rs, s'') \<Rightarrow> (r # rs, s'')))"

definition seek_target :: "nat \<Rightarrow> nat \<Rightarrow> SeekFrom \<Rightarrow> int" where
  "seek_target p len sf =
     (case sf of SeekStart q \<Rightarrow> int (unat q) | SeekCurrent off \<Rightarrow> int p + sint off | SeekEnd off \<Rightarrow> int len + sint off)"

definition flat_step :: "disk_op \<Rightarrow> nat \<times> bytes \<Rightarrow> disk_res \<times> nat \<times> bytes" where
  "flat_step oper = (\<lambda>(p, xs).
     case oper of
       DRead buf \<Rightarrow> (let n = min (length buf) (length xs - p) in (RRead (IoOk n) (slice p (p + n) xs @ drop n buf), p + n, xs))
     | DWrite buf \<Rightarrow> (let n = min (length buf) (length xs - p) in (RWrite (IoOk n), p + n, blit xs p (take n buf)))
     | DSeek sf \<Rightarrow>
         (let t = seek_target p (length xs) sf in
          if t < 0 \<or> 2 ^ 64 \<le> t then (RSeek None, p, xs)
          else let q = min (nat t) (length xs) in (RSeek (Some (of_nat q)), q, xs)))"

fun flat_run :: "disk_op list \<Rightarrow> nat \<times> bytes \<Rightarrow> disk_res list \<times> nat \<times> bytes" where
  "flat_run [] s = ([], s)"
| "flat_run (oper # ops) s =
     (case flat_step oper s of (r, s') \<Rightarrow> (case flat_run ops s' of (rs, s'') \<Rightarrow> (r # rs, s'')))"

locale sector_store =
  fixes trap :: "'w trap"
    and live :: "'w fs_env \<Rightarrow> bool"
    and data :: "'w fs_env \<Rightarrow> bytes"
    and bs :: nat
  assumes bs: "0 < bs" "bs \<le> MAX_IO_BYTES"
    and whole: "live e \<Longrightarrow> bs dvd length (data e) \<and> length (data e) < 2 ^ 64"
    and read_ok: "live e \<Longrightarrow> length out = bs \<Longrightarrow> unat s * bs + bs \<le> length (data e) \<Longrightarrow>
      \<exists>e'. read_sector trap s out e = (True, slice (unat s * bs) (unat s * bs + bs) (data e), e') \<and> live e' \<and> data e' = data e"
    and write_ok: "live e \<Longrightarrow> length xs = bs \<Longrightarrow> unat s * bs + bs \<le> length (data e) \<Longrightarrow>
      \<exists>e'. write_sector trap s xs e = (True, e') \<and> live e' \<and> data e' = blit (data e) (unat s * bs) xs"
begin

lemma chunk:
  assumes "disk_on live data bs d e" and "buf \<noteq> []" and "pos d < dsize d"
  defines "p \<equiv> unat (pos d)" and "n \<equiv> chunk_len d (length buf)"
  shows "unat (pos d div block_size d) * bs + p mod bs = p"
    and "unat (pos d div block_size d) * bs + bs \<le> length (data e)"
    and "0 < n" and "n \<le> length buf" and "p mod bs + n \<le> bs" and "p + n \<le> length (data e)"
    and "unat (pos d + of_nat n) = p + n"
proof -
  let ?q = "unat (pos d div block_size d)"
  have b: "unat (block_size d) = bs" "unat (dsize d) = length (data e)" using assms(1) by (simp_all add: disk_on_def)
  have p: "p < length (data e)" using assms(3) b by (simp add: word_less_nat_alt p_def)
  show 1: "?q * bs + p mod bs = p" by (simp add: unat_div b p_def)
  from whole assms(1) have "bs dvd length (data e)" by (simp add: disk_on_def)
  then obtain k where k: "length (data e) = k * bs" by (metis dvd_def mult.commute)
  have "?q < k" using 1 p k bs(1) by (metis add_lessD1 mult_less_cancel2)
  then have "Suc ?q * bs \<le> k * bs" by (intro mult_le_mono1) simp
  then show "?q * bs + bs \<le> length (data e)" by (simp add: k add.commute)
  have "block_size d \<noteq> 0" using b(1) bs(1) by auto
  then show "0 < n" unfolding n_def using assms(2,3) by (rule chunk_len_pos)
  show "n \<le> length buf" by (simp add: n_def chunk_len_def Let_def)
  have "p mod bs < bs" using bs(1) by simp
  then show "p mod bs + n \<le> bs" by (simp add: n_def chunk_len_def Let_def b p_def)
  have "n \<le> unat (dsize d - pos d)" by (simp add: n_def chunk_len_def Let_def)
  also have "\<dots> = length (data e) - p" using assms(3) by (simp add: unat_sub word_less_nat_alt word_le_nat_alt b p_def)
  finally show pn: "p + n \<le> length (data e)" using p by simp
  then have "p + n < 2 ^ 64" using whole assms(1) by (force simp: disk_on_def)
  then show "unat (pos d + of_nat n) = p + n" by (simp add: unat_word_ariths unat_of_nat p_def)
qed

lemma fetch:
  assumes "disk_on live data bs d e" and "buf \<noteq> []" and "pos d < dsize d" and "length sector = MAX_IO_BYTES"
  obtains e1 where "read_sector trap (pos d div block_size d) (take bs sector) e
      = (True, slice (unat (pos d div block_size d) * bs) (unat (pos d div block_size d) * bs + bs) (data e), e1)"
    "live e1" "data e1 = data e"
    "length (slice (unat (pos d div block_size d) * bs) (unat (pos d div block_size d) * bs + bs) (data e)) = bs"
    "block_size d \<noteq> 0"
proof -
  note ch = chunk [OF assms(1-3)]
  have "live e" "block_size d \<noteq> 0" using assms(1) bs by (auto simp: disk_on_def)
  moreover have "length (take bs sector) = bs" using assms(4) bs by simp
  moreover have "length (slice (unat (pos d div block_size d) * bs) (unat (pos d div block_size d) * bs + bs) (data e)) = bs"
    using ch(2) by (simp add: length_slice)
  ultimately show thesis using read_ok [OF _ _ ch(2)] that by blast
qed

lemma read_loop:
  assumes "disk_on live data bs d e" and "length sector = MAX_IO_BYTES"
  shows "\<exists>d' e'. disk_read_loop trap sector got buf d e = (IoOk (length got + min (length buf) (length (data e) - unat (pos d))),
      got @ slice (unat (pos d)) (unat (pos d) + min (length buf) (length (data e) - unat (pos d))) (data e)
        @ drop (min (length buf) (length (data e) - unat (pos d))) buf, d', e')
    \<and> disk_on live data bs d' e' \<and> data e' = data e \<and> dsize d' = dsize d
    \<and> unat (pos d') = unat (pos d) + min (length buf) (length (data e) - unat (pos d))"
  using assms
proof (induction "length buf" arbitrary: buf sector got d e rule: less_induct)
  case less
  note on = less.prems(1)
  let ?p = "unat (pos d)" and ?q = "unat (pos d div block_size d)" and ?n = "chunk_len d (length buf)"
  have b: "unat (block_size d) = bs" "unat (dsize d) = length (data e)" "live e" using on by (simp_all add: disk_on_def)
  show ?case
  proof (cases "buf = [] \<or> \<not> pos d < dsize d")
    case True
    then have "min (length buf) (length (data e) - ?p) = 0" using b by (auto simp: word_less_nat_alt)
    moreover have "disk_read_loop trap sector got buf d e = (IoOk (length got), got @ buf, d, e)"
      using True by (subst disk_read_loop.simps) simp
    ultimately show ?thesis using on by (simp add: slice_def)
  next
    case False
    then have c: "buf \<noteq> []" "pos d < dsize d" by auto
    note ch = chunk [OF on c]
    from fetch [OF on c less.prems(2)] obtain e1 where
      r: "read_sector trap (pos d div block_size d) (take bs sector) e = (True, slice (?q * bs) (?q * bs + bs) (data e), e1)"
      and e1: "live e1" "data e1 = data e" and sl: "length (slice (?q * bs) (?q * bs + bs) (data e)) = bs"
      and nz: "block_size d \<noteq> 0" .
    define sec where "sec = blit sector 0 (slice (?q * bs) (?q * bs + bs) (data e))"
    from sl have sec: "length sec = MAX_IO_BYTES" using less.prems(2) bs by (simp add: sec_def length_blit)
    have "slice (?p mod bs) (?p mod bs + ?n) sec = slice (?p mod bs) (?p mod bs + ?n) (slice (?q * bs) (?q * bs + bs) (data e))"
      unfolding sec_def blit_def using sl ch(5) by (simp add: slice_append_front)
    also have "\<dots> = slice ?p (?p + ?n) (data e)" using ch(1,5) slice_slice [of "?p mod bs" ?n "?q * bs + bs" "?q * bs" "data e"] by simp
    finally have out: "slice (?p mod bs) (?p mod bs + ?n) sec = slice ?p (?p + ?n) (data e)" .
    let ?d = "d\<lparr>pos := pos d + of_nat ?n\<rparr>" and ?got = "got @ slice ?p (?p + ?n) (data e)"
    have run: "disk_read_loop trap sector got buf d e = disk_read_loop trap sec ?got (drop ?n buf) ?d e1"
      using c nz less.prems(2) bs r b
      by (subst disk_read_loop.simps) (simp add: Let_def sec_def [symmetric] out)
    have on1: "disk_on live data bs ?d e1" using on e1 ch(6,7) b by (simp add: disk_on_def word_le_nat_alt)
    have "length (drop ?n buf) < length buf" using ch(3) c(1) by simp
    from less.hyps [OF this on1 sec, of ?got] obtain d' e' where
      IH: "disk_read_loop trap sec ?got (drop ?n buf) ?d e1 = (IoOk (length ?got + min (length buf - ?n) (length (data e) - (?p + ?n))),
        ?got @ slice (?p + ?n) (?p + ?n + min (length buf - ?n) (length (data e) - (?p + ?n))) (data e)
          @ drop (min (length buf - ?n) (length (data e) - (?p + ?n))) (drop ?n buf), d', e')"
      and d': "disk_on live data bs d' e'" "data e' = data e" "dsize d' = dsize d"
        "unat (pos d') = ?p + ?n + min (length buf - ?n) (length (data e) - (?p + ?n))"
      using e1(2) ch(7) by auto
    have m: "min (length buf) (length (data e) - ?p) = ?n + min (length buf - ?n) (length (data e) - (?p + ?n))"
      using ch(4,6) by arith
    have "length (slice ?p (?p + ?n) (data e)) = ?n" using ch(6) by (simp add: length_slice)
    moreover have join: "slice ?p (?p + ?n) xs @ slice (?p + ?n) (?p + (?n + k)) xs = slice ?p (?p + (?n + k)) xs" for k and xs :: bytes
      by (rule slice_join) simp_all
    ultimately show ?thesis
      using IH d' unfolding run m by (simp add: add_ac join)
  qed
qed

lemma write_loop:
  assumes "disk_on live data bs d e" and "length sector = MAX_IO_BYTES"
  shows "\<exists>d' e'. disk_write_loop trap sector k buf d e = (IoOk (k + min (length buf) (length (data e) - unat (pos d))), d', e')
    \<and> disk_on live data bs d' e' \<and> dsize d' = dsize d
    \<and> data e' = blit (data e) (unat (pos d)) (take (min (length buf) (length (data e) - unat (pos d))) buf)
    \<and> unat (pos d') = unat (pos d) + min (length buf) (length (data e) - unat (pos d))"
  using assms
proof (induction "length buf" arbitrary: buf sector k d e rule: less_induct)
  case less
  note on = less.prems(1)
  let ?p = "unat (pos d)" and ?q = "unat (pos d div block_size d)" and ?n = "chunk_len d (length buf)"
  have b: "unat (block_size d) = bs" "unat (dsize d) = length (data e)" "live e" using on by (simp_all add: disk_on_def)
  show ?case
  proof (cases "buf = [] \<or> \<not> pos d < dsize d")
    case True
    then have "min (length buf) (length (data e) - ?p) = 0" using b by (auto simp: word_less_nat_alt)
    moreover have "disk_write_loop trap sector k buf d e = (IoOk k, d, e)"
      using True by (subst disk_write_loop.simps) simp
    ultimately show ?thesis using on by (simp add: blit_def)
  next
    case False
    then have c: "buf \<noteq> []" "pos d < dsize d" by auto
    note ch = chunk [OF on c]
    from fetch [OF on c less.prems(2)] obtain e1 where
      r: "read_sector trap (pos d div block_size d) (take bs sector) e = (True, slice (?q * bs) (?q * bs + bs) (data e), e1)"
      and e1: "live e1" "data e1 = data e" and sl: "length (slice (?q * bs) (?q * bs + bs) (data e)) = bs"
      and nz: "block_size d \<noteq> 0" .
    let ?old = "slice (?q * bs) (?q * bs + bs) (data e)" and ?w = "take ?n buf"
    define sec where "sec = blit (blit sector 0 ?old) (?p mod bs) ?w"
    note old = sl
    have w: "length ?w = ?n" using ch(4) by simp
    with old have sec: "length sec = MAX_IO_BYTES" using less.prems(2) bs ch(5) by (simp add: sec_def length_blit)
    have front: "take bs sec = blit ?old (?p mod bs) ?w"
      unfolding sec_def using old w ch(5) by (intro take_blit_front) simp_all
    have "length (take bs sec) = bs" using sec bs by simp
    from write_ok [OF e1(1) this, of "pos d div block_size d"] ch(2) e1(2) obtain e2 where
      wr: "write_sector trap (pos d div block_size d) (take bs sec) e1 = (True, e2)"
      and e2: "live e2" "data e2 = blit (data e) (?q * bs) (take bs sec)" by auto
    have data2: "data e2 = blit (data e) ?p ?w"
      unfolding e2(2) front using blit_slice [OF ch(2), of "?p mod bs" ?w] w ch(1,5) by simp
    then have len2: "length (data e2) = length (data e)" using w ch(6) by (simp add: length_blit)
    let ?d = "d\<lparr>pos := pos d + of_nat ?n\<rparr>"
    have run: "disk_write_loop trap sector k buf d e = disk_write_loop trap sec (k + ?n) (drop ?n buf) ?d e2"
      using c nz less.prems(2) bs r b wr
      by (subst disk_write_loop.simps) (simp add: Let_def sec_def [symmetric])
    have on2: "disk_on live data bs ?d e2" using on e2(1) len2 ch(6,7) b by (simp add: disk_on_def word_le_nat_alt)
    have "length (drop ?n buf) < length buf" using ch(3) c(1) by simp
    from less.hyps [OF this on2 sec, of "k + ?n"] obtain d' e' where
      IH: "disk_write_loop trap sec (k + ?n) (drop ?n buf) ?d e2
        = (IoOk (k + ?n + min (length buf - ?n) (length (data e) - (?p + ?n))), d', e')"
      and d': "disk_on live data bs d' e'" "dsize d' = dsize d"
        "data e' = blit (data e2) (?p + ?n) (take (min (length buf - ?n) (length (data e) - (?p + ?n))) (drop ?n buf))"
        "unat (pos d') = ?p + ?n + min (length buf - ?n) (length (data e) - (?p + ?n))"
      using len2 ch(7) by auto
    have m: "min (length buf) (length (data e) - ?p) = ?n + min (length buf - ?n) (length (data e) - (?p + ?n))"
      using ch(4,6) by arith
    have "data e' = blit (data e) ?p (take (?n + min (length buf - ?n) (length (data e) - (?p + ?n))) buf)"
      unfolding d'(3) data2 take_add using blit_blit [of ?p ?w "data e"] w ch(6) by simp
    with IH d' show ?thesis unfolding run m by (simp add: add.assoc)
  qed
qed

lemma seek_sim:
  assumes "disk_on live data bs d e"
  shows "\<exists>d'. disk_step trap (DSeek sf) (d, e) = (fst (flat_step (DSeek sf) (unat (pos d), data e)), d', e)
    \<and> disk_on live data bs d' e \<and> snd (flat_step (DSeek sf) (unat (pos d), data e)) = (unat (pos d'), data e)"
proof -
  let ?t = "seek_target (unat (pos d)) (length (data e)) sf"
  have size: "unat (dsize d) = length (data e)" using assms by (simp add: disk_on_def)
  define target where "target = (case sf of SeekStart p \<Rightarrow> Some p | SeekCurrent off \<Rightarrow> checked_add_signed (pos d) off
    | SeekEnd off \<Rightarrow> checked_add_signed (dsize d) off)"
  have t: "target = (if ?t < 0 \<or> 2 ^ 64 \<le> ?t then None else Some (of_int ?t))"
    using unsigned_less [where ?'a = int and w = "case sf of SeekStart p \<Rightarrow> p | _ \<Rightarrow> 0"]
    unfolding size [symmetric]
    by (cases sf) (auto simp: target_def seek_target_def checked_add_signed_def Let_def)
  show ?thesis
  proof (cases "?t < 0 \<or> 2 ^ 64 \<le> ?t")
    case True
    with t assms show ?thesis
      by (auto simp: disk_step_def disk_seek_def flat_step_def Let_def target_def [symmetric] simp del: power_numeral)
  next
    case False
    then have u: "unat (of_int ?t :: u64) = nat ?t" by (simp add: unsigned_of_int take_bit_int_eq_self)
    let ?w = "min (of_int ?t) (dsize d)"
    have w: "unat ?w = min (nat ?t) (length (data e))"
      using u size by (simp add: min_def word_le_nat_alt)
    then have "?w = of_nat (min (nat ?t) (length (data e)))" by (metis of_nat_unat ucast_id)
    with False t w assms show ?thesis
      by (auto simp: disk_step_def disk_seek_def flat_step_def Let_def target_def [symmetric] disk_on_def word_le_nat_alt simp del: power_numeral)
  qed
qed

lemma step_sim:
  assumes "disk_on live data bs d e"
  shows "\<exists>d' e'. disk_step trap oper (d, e) = (fst (flat_step oper (unat (pos d), data e)), d', e')
    \<and> disk_on live data bs d' e' \<and> snd (flat_step oper (unat (pos d), data e)) = (unat (pos d'), data e')"
proof (cases oper)
  case (DRead buf)
  with read_loop [OF assms, of "replicate MAX_IO_BYTES 0" "[]" buf] show ?thesis
    by (auto simp: disk_step_def disk_read_def flat_step_def Let_def)
next
  case (DWrite buf)
  with write_loop [OF assms, of "replicate MAX_IO_BYTES 0" 0 buf] show ?thesis
    by (auto simp: disk_step_def disk_write_def flat_step_def Let_def)
next
  case (DSeek sf)
  with seek_sim [OF assms, of sf] show ?thesis by blast
qed

lemma run_sim:
  assumes "disk_on live data bs d e"
  shows "\<exists>d' e'. disk_run trap ops (d, e) = (fst (flat_run ops (unat (pos d), data e)), d', e')
    \<and> disk_on live data bs d' e' \<and> snd (flat_run ops (unat (pos d), data e)) = (unat (pos d'), data e')"
  using assms
proof (induction ops arbitrary: d e)
  case Nil
  then show ?case by simp
next
  case (Cons oper ops)
  from step_sim [OF Cons.prems, of oper] obtain d1 e1 where
    1: "disk_step trap oper (d, e) = (fst (flat_step oper (unat (pos d), data e)), d1, e1)"
      "disk_on live data bs d1 e1" "snd (flat_step oper (unat (pos d), data e)) = (unat (pos d1), data e1)" by blast
  from Cons.IH [OF 1(2)] obtain d' e' where
    2: "disk_run trap ops (d1, e1) = (fst (flat_run ops (unat (pos d1), data e1)), d', e')"
      "disk_on live data bs d' e'" "snd (flat_run ops (unat (pos d1), data e1)) = (unat (pos d'), data e')" by blast
  obtain r rs where "flat_step oper (unat (pos d), data e) = (r, unat (pos d1), data e1)"
    and "flat_run ops (unat (pos d1), data e1) = (rs, unat (pos d'), data e')"
    using 1(3) 2(3) by (metis prod.collapse)
  with 1 2 show ?case by simp
qed

end

end
