(* ===== verification/FsServer.thy ===== *)
theory FsServer
  imports FsDisk Utf8
begin

text \<open>
  The request loop of the file-system server (\<^verbatim>\<open>apps/fs/src/main.rs\<close>, from \<^verbatim>\<open>normalize_path\<close>). The FAT library
  \<^verbatim>\<open>axfatfs\<close> is a parameter: a record of the operations the server calls, acting on the environment of the server, through which
  the library reaches the disk. A \<^verbatim>\<open>&str\<close> is its bytes; \<open>None\<close> is a panic or a call that does not return.
\<close>

section \<open>The FAT library\<close>

text \<open>\<open>'f\<close> are mounted file systems, \<open>'h\<close> open files. An error is \<open>None\<close> or \<open>False\<close>.\<close>

record ('f, 'h, 'w) fatfs =
  fat_mount :: "VirtioBlkDisk \<Rightarrow> 'w fs_env \<Rightarrow> 'f option \<times> 'w fs_env"
  fat_open :: "'f \<Rightarrow> bytes \<Rightarrow> 'w fs_env \<Rightarrow> 'h option \<times> 'w fs_env"
  fat_create :: "'f \<Rightarrow> bytes \<Rightarrow> 'w fs_env \<Rightarrow> 'h option \<times> 'w fs_env"
  fat_remove :: "'f \<Rightarrow> bytes \<Rightarrow> 'w fs_env \<Rightarrow> bool \<times> 'w fs_env"
  file_seek :: "'h \<Rightarrow> SeekFrom \<Rightarrow> 'w fs_env \<Rightarrow> u64 option \<times> 'h \<times> 'w fs_env"
  file_truncate :: "'h \<Rightarrow> 'w fs_env \<Rightarrow> bool \<times> 'h \<times> 'w fs_env"
  file_write :: "'h \<Rightarrow> bytes \<Rightarrow> 'w fs_env \<Rightarrow> nat option \<times> 'h \<times> 'w fs_env"
  file_flush :: "'h \<Rightarrow> 'w fs_env \<Rightarrow> bool \<times> 'h \<times> 'w fs_env"
  file_read :: "'h \<Rightarrow> bytes \<Rightarrow> 'w fs_env \<Rightarrow> nat option \<times> bytes \<times> 'h \<times> 'w fs_env"
  file_drop :: "'h \<Rightarrow> 'w fs_env \<Rightarrow> 'w fs_env"

section \<open>Helpers\<close>

definition normalize_path :: "bytes \<Rightarrow> bytes" where
  "normalize_path path =
     (let p = dropWhile (\<lambda>c. c = of_char CHR ''/'') path in if p = [] then lit ''_'' else p)"

text \<open>The loop of \<^verbatim>\<open>read_file_all\<close>, which runs until the library reports the end of the file.\<close>

partial_function (option) read_all_loop ::
  "('f, 'h, 'w) fatfs \<Rightarrow> 'h \<Rightarrow> bytes \<Rightarrow> bytes \<Rightarrow> 'w fs_env \<Rightarrow> (bytes option \<times> 'h \<times> 'w fs_env) option" where
  "read_all_loop F h chunk out e =
     (case file_read F h chunk e of
        (None, _, h', e') \<Rightarrow> Some (None, h', e')
      | (Some n, chunk', h', e') \<Rightarrow>
          if n = 0 then Some (Some out, h', e')
          else if length chunk < n then None
          else read_all_loop F h' (fit chunk chunk') (out @ take n (fit chunk chunk')) e')"

definition read_file_all ::
  "('f, 'h, 'w) fatfs \<Rightarrow> 'f \<Rightarrow> bytes \<Rightarrow> 'w fs_env \<Rightarrow> (bytes option \<times> 'w fs_env) option" where
  "read_file_all F f path e =
     (case fat_open F f (normalize_path path) e of
        (None, e) \<Rightarrow> Some (None, e)
      | (Some h, e) \<Rightarrow>
          (case file_seek F h (SeekEnd 0) e of
             (None, h, e) \<Rightarrow> Some (None, file_drop F h e)
           | (Some _, h, e) \<Rightarrow>
               (case file_seek F h (SeekStart 0) e of
                  (None, h, e) \<Rightarrow> Some (None, file_drop F h e)
                | (Some _, h, e) \<Rightarrow>
                    map_option (\<lambda>(r, h, e). (r, file_drop F h e))
                      (read_all_loop F h (replicate MAX_IO_BYTES 0) [] e))))"

definition ensure_fs ::
  "('f, 'h, 'w) fatfs \<Rightarrow> 'w trap \<Rightarrow> 'f option \<times> 'w fs_env \<Rightarrow> 'f option \<times> 'w fs_env" where
  "ensure_fs F trap = (\<lambda>(m, e).
     case m of
       Some f \<Rightarrow> (Some f, e)
     | None \<Rightarrow>
         (case disk_new trap e of
            (None, e) \<Rightarrow> (None, e)
          | (Some disk, e) \<Rightarrow> fat_mount F disk e))"

section \<open>Requests\<close>

record ('f, 'w) fs_state =
  mounted :: "'f option"
  fs_req_buf :: bytes
  file_buf :: bytes
  fs_env_of :: "'w fs_env"

record fs_head =
  reqid_mode :: bool
  fs_opcode :: u16
  req_id :: "u32 option"
  path_hdr_len :: nat
  write_hdr_len :: nat

definition fs_req_head :: "usize \<Rightarrow> bytes \<Rightarrow> fs_head" where
  "fs_req_head req_len buf =
     (let raw_opcode = from_le [buf ! 0, buf ! 1] :: u16;
          mode = (raw_opcode AND FLAG_REQID \<noteq> 0);
          opc = raw_opcode AND NOT FLAG_REQID
      in \<lparr>reqid_mode = mode, fs_opcode = opc,
          req_id =
            (if mode then
               (if opc = FS_REQ_WRITE \<and> WRITE_HDR_LEN_V2 \<le> unat req_len
                then Some (from_le [buf ! 8, buf ! 9, buf ! 10, buf ! 11])
                else if PATH_HDR_LEN_V2 \<le> unat req_len
                then Some (from_le [buf ! 4, buf ! 5, buf ! 6, buf ! 7])
                else None)
             else None),
          path_hdr_len = (if mode then PATH_HDR_LEN_V2 else PATH_HDR_LEN),
          write_hdr_len = (if mode then WRITE_HDR_LEN_V2 else WRITE_HDR_LEN)\<rparr>)"

definition fs_reply_msg :: "fs_head \<Rightarrow> bytes \<Rightarrow> bytes" where
  "fs_reply_msg h payload =
     (case req_id h of
        Some i \<Rightarrow>
          (let out = replicate (RESP_REQID_LEN + MAX_DATA + 16) 0;
               out = blit out 0 (to_le 4 i);
               n = length payload;
               out = blit out 4 payload
           in take (4 + n) out)
      | None \<Rightarrow> payload)"

definition fs_reply :: "'w trap \<Rightarrow> fs_head \<Rightarrow> Handle \<Rightarrow> bytes \<Rightarrow> 'w fs_env \<Rightarrow> 'w fs_env" where
  "fs_reply trap h cap payload e =
     e\<lparr>fs_world := sys_ipc_send_u trap cap (fs_reply_msg h payload) None (fs_world e)\<rparr>"

text \<open>The path of a read, delete or exec request, if the request is well formed.\<close>

definition fs_req_path :: "usize \<Rightarrow> fs_head \<Rightarrow> bytes \<Rightarrow> bytes option" where
  "fs_req_path req_len h buf =
     (if unat req_len < path_hdr_len h then None
      else
        let path_len = unat (from_le [buf ! 2, buf ! 3] :: u16) in
        if path_len = 0 \<or> MAX_PATH < path_len \<or> unat req_len < path_hdr_len h + path_len then None
        else from_utf8 (slice (path_hdr_len h) (path_hdr_len h + path_len) buf))"

definition fs_write_file ::
  "('f, 'h, 'w) fatfs \<Rightarrow> 'w trap \<Rightarrow> fs_head \<Rightarrow> Handle \<Rightarrow> 'f \<Rightarrow> bytes \<Rightarrow> bytes \<Rightarrow> 'w fs_env \<Rightarrow> 'w fs_env" where
  "fs_write_file F trap h cap f path data e =
     (let p = normalize_path path in
      case (case fat_open F f p e of
              (Some fl, e) \<Rightarrow> (Some fl, e)
            | (None, e) \<Rightarrow> fat_create F f p e) of
        (None, e) \<Rightarrow> fs_reply trap h cap (lit ''EIO'') e
      | (Some fl, e) \<Rightarrow>
          case file_seek F fl (SeekStart 0) e of
            (None, fl, e) \<Rightarrow> file_drop F fl (fs_reply trap h cap (lit ''EIO'') e)
          | (Some _, fl, e) \<Rightarrow>
          case file_truncate F fl e of
            (False, fl, e) \<Rightarrow> file_drop F fl (fs_reply trap h cap (lit ''EIO'') e)
          | (True, fl, e) \<Rightarrow>
          case file_write F fl data e of
            (None, fl, e) \<Rightarrow> file_drop F fl (fs_reply trap h cap (lit ''EIO'') e)
          | (Some _, fl, e) \<Rightarrow>
          case file_flush F fl e of
            (False, fl, e) \<Rightarrow> file_drop F fl (fs_reply trap h cap (lit ''EIO'') e)
          | (True, fl, e) \<Rightarrow> file_drop F fl (fs_reply trap h cap (lit ''OK'') e))"

definition fs_on_write ::
  "('f, 'h, 'w) fatfs \<Rightarrow> 'w trap \<Rightarrow> usize \<Rightarrow> fs_head \<Rightarrow> Handle \<Rightarrow> 'f \<Rightarrow> ('f, 'w) fs_state \<Rightarrow> ('f, 'w) fs_state option" where
  "fs_on_write F trap req_len h cap f s =
     (let buf = fs_req_buf s; e = fs_env_of s in
      if unat req_len < write_hdr_len h then Some (s\<lparr>fs_env_of := fs_reply trap h cap (lit ''EINVAL'') e\<rparr>)
      else
        let path_len = unat (from_le [buf ! 2, buf ! 3] :: u16);
            data_len = unat (from_le [buf ! 4, buf ! 5, buf ! 6, buf ! 7] :: u32);
            hdr = write_hdr_len h
        in if path_len = 0 \<or> MAX_PATH < path_len \<or> MAX_DATA < data_len \<or> unat req_len < hdr + path_len + data_len
           then Some (s\<lparr>fs_env_of := fs_reply trap h cap (lit ''EINVAL'') e\<rparr>)
           else if \<not> slice_ok (hdr + path_len) (hdr + path_len + data_len) buf then None
           else case from_utf8 (slice hdr (hdr + path_len) buf) of
                  None \<Rightarrow> Some (s\<lparr>fs_env_of := fs_reply trap h cap (lit ''EINVAL'') e\<rparr>)
                | Some path \<Rightarrow>
                    Some (s\<lparr>fs_env_of := fs_write_file F trap h cap f path
                              (slice (hdr + path_len) (hdr + path_len + data_len) buf) e\<rparr>))"

definition fs_on_read ::
  "('f, 'h, 'w) fatfs \<Rightarrow> 'w trap \<Rightarrow> usize \<Rightarrow> fs_head \<Rightarrow> Handle \<Rightarrow> 'f \<Rightarrow> ('f, 'w) fs_state \<Rightarrow> ('f, 'w) fs_state option" where
  "fs_on_read F trap req_len h cap f s =
     (let e = fs_env_of s in
      case fs_req_path req_len h (fs_req_buf s) of
        None \<Rightarrow> Some (s\<lparr>fs_env_of := fs_reply trap h cap (lit ''EINVAL'') e\<rparr>)
      | Some path \<Rightarrow>
          (case fat_open F f (normalize_path path) e of
             (None, e) \<Rightarrow> Some (s\<lparr>fs_env_of := fs_reply trap h cap (lit ''ENOENT'') e\<rparr>)
           | (Some fl, e) \<Rightarrow>
               (case file_seek F fl (SeekStart 0) e of
                  (None, fl, e) \<Rightarrow> Some (s\<lparr>fs_env_of := file_drop F fl (fs_reply trap h cap (lit ''EIO'') e)\<rparr>)
                | (Some _, fl, e) \<Rightarrow>
                    (case file_read F fl (file_buf s) e of
                       (None, buf', fl, e) \<Rightarrow>
                         Some (s\<lparr>file_buf := fit (file_buf s) buf',
                                 fs_env_of := file_drop F fl (fs_reply trap h cap (lit ''EIO'') e)\<rparr>)
                     | (Some n, buf', fl, e) \<Rightarrow>
                         if n = 0 then
                           Some (s\<lparr>file_buf := fit (file_buf s) buf',
                                   fs_env_of := file_drop F fl (fs_reply trap h cap (lit ''ENOENT'') e)\<rparr>)
                         else if length (file_buf s) < n then None
                         else
                           Some (s\<lparr>file_buf := fit (file_buf s) buf',
                                   fs_env_of := file_drop F fl
                                     (fs_reply trap h cap (take n (fit (file_buf s) buf')) e)\<rparr>)))))"

definition fs_on_delete ::
  "('f, 'h, 'w) fatfs \<Rightarrow> 'w trap \<Rightarrow> usize \<Rightarrow> fs_head \<Rightarrow> Handle \<Rightarrow> 'f \<Rightarrow> ('f, 'w) fs_state \<Rightarrow> ('f, 'w) fs_state option" where
  "fs_on_delete F trap req_len h cap f s =
     (let e = fs_env_of s in
      case fs_req_path req_len h (fs_req_buf s) of
        None \<Rightarrow> Some (s\<lparr>fs_env_of := fs_reply trap h cap (lit ''EINVAL'') e\<rparr>)
      | Some path \<Rightarrow>
          (case fat_remove F f (normalize_path path) e of
             (ok, e) \<Rightarrow> Some (s\<lparr>fs_env_of := fs_reply trap h cap (if ok then lit ''OK'' else lit ''ENOENT'') e\<rparr>)))"

definition fs_on_exec ::
  "('f, 'h, 'w) fatfs \<Rightarrow> 'w trap \<Rightarrow> usize \<Rightarrow> fs_head \<Rightarrow> Handle \<Rightarrow> 'f \<Rightarrow> ('f, 'w) fs_state \<Rightarrow> ('f, 'w) fs_state option" where
  "fs_on_exec F trap req_len h cap f s =
     (let e = fs_env_of s in
      case fs_req_path req_len h (fs_req_buf s) of
        None \<Rightarrow> Some (s\<lparr>fs_env_of := fs_reply trap h cap (lit ''EINVAL'') e\<rparr>)
      | Some path \<Rightarrow>
          (case read_file_all F f path e of
             None \<Rightarrow> None
           | Some (None, e) \<Rightarrow> Some (s\<lparr>fs_env_of := fs_reply trap h cap (lit ''ENOENT'') e\<rparr>)
           | Some (Some elf, e) \<Rightarrow>
               (case sys_spawn_elf_u trap path elf (fs_world e) of
                  (pid, w) \<Rightarrow>
                    Some (s\<lparr>fs_env_of := fs_reply trap h cap (if pid \<noteq> 0 then lit ''OK'' else lit ''EIO'') (e\<lparr>fs_world := w\<rparr>)\<rparr>))))"

text \<open>The file operations mount the file system first, if it is not mounted yet.\<close>

definition with_fs ::
  "('f, 'h, 'w) fatfs \<Rightarrow> 'w trap \<Rightarrow> fs_head \<Rightarrow> Handle \<Rightarrow> ('f \<Rightarrow> ('f, 'w) fs_state \<Rightarrow> ('f, 'w) fs_state option)
     \<Rightarrow> ('f, 'w) fs_state \<Rightarrow> ('f, 'w) fs_state option" where
  "with_fs F trap h cap handler s =
     (case ensure_fs F trap (mounted s, fs_env_of s) of
        (None, e) \<Rightarrow> Some (s\<lparr>mounted := None, fs_env_of := fs_reply trap h cap (lit ''EAGAIN'') e\<rparr>)
      | (Some f, e) \<Rightarrow> handler f (s\<lparr>mounted := Some f, fs_env_of := e\<rparr>))"

definition fs_request ::
  "('f, 'h, 'w) fatfs \<Rightarrow> 'w trap \<Rightarrow> usize \<Rightarrow> Handle option \<Rightarrow> ('f, 'w) fs_state \<Rightarrow> ('f, 'w) fs_state option" where
  "fs_request F trap req_len reply_cap s =
     (let h = fs_req_head req_len (fs_req_buf s) in
      case reply_cap of
        None \<Rightarrow> Some s
      | Some cap \<Rightarrow>
          if fs_opcode h = FS_REQ_PING then Some (s\<lparr>fs_env_of := fs_reply trap h cap (lit ''PONG'') (fs_env_of s)\<rparr>)
          else if fs_opcode h = FS_REQ_WRITE then with_fs F trap h cap (fs_on_write F trap req_len h cap) s
          else if fs_opcode h = FS_REQ_READ then with_fs F trap h cap (fs_on_read F trap req_len h cap) s
          else if fs_opcode h = FS_REQ_DELETE then with_fs F trap h cap (fs_on_delete F trap req_len h cap) s
          else if fs_opcode h = FS_REQ_EXEC then with_fs F trap h cap (fs_on_exec F trap req_len h cap) s
          else Some (s\<lparr>fs_env_of := fs_reply trap h cap (lit ''EINVAL'') (fs_env_of s)\<rparr>))"

definition fs_step :: "('f, 'h, 'w) fatfs \<Rightarrow> 'w trap \<Rightarrow> ('f, 'w) fs_state \<Rightarrow> ('f, 'w) fs_state option" where
  "fs_step F trap s =
     (case sys_ipc_recv_u trap (fs_req_buf s) (fs_world (fs_env_of s)) of
        (req_len, _, buf, reply_cap, w) \<Rightarrow>
          let s = s\<lparr>fs_req_buf := buf, fs_env_of := (fs_env_of s)\<lparr>fs_world := w\<rparr>\<rparr> in
          if req_len < 2 then Some s else fs_request F trap req_len reply_cap s)"

definition fs_start :: "'w trap \<Rightarrow> 'w \<Rightarrow> ('f, 'w) fs_state" where
  "fs_start trap w =
     (case init_allocator trap w of (_, w) \<Rightarrow>
      case ctl_register_service trap (lit ''fs'') w of (_, w) \<Rightarrow>
      let w = sys_log trap ''fs: service started (axfatfs)'' w in
      \<lparr>mounted = None, fs_req_buf = replicate (WRITE_HDR_LEN + MAX_PATH + MAX_DATA) 0, file_buf = replicate MAX_DATA 0,
       fs_env_of = \<lparr>blk_req_id = 1, blk_service = 0, fs_world = w\<rparr>\<rparr>)"

section \<open>What the server relies on\<close>

text \<open>
  The documented behaviour of the library on a disk without faults: a file system is a map from paths to contents and an open file a
  path with a position; reads and writes may be short, but make progress and are complete within the first
  512 bytes, the smallest cluster of a FAT. Sending a reply leaves the files alone.
\<close>

type_synonym ('f, 'w) files = "'f \<Rightarrow> 'w fs_env \<Rightarrow> bytes \<Rightarrow> bytes option"

definition fat_opens :: "('f, 'h, 'w) fatfs \<Rightarrow> ('f, 'w) files \<Rightarrow> ('h \<Rightarrow> 'f \<times> bytes \<times> nat) \<Rightarrow> bool" where
  "fat_opens F files at \<longleftrightarrow>
     (\<forall>f p e. case fat_open F f p e of
        (None, e') \<Rightarrow> files f e p = None \<and> files f e' = files f e
      | (Some h, e') \<Rightarrow> files f e p \<noteq> None \<and> at h = (f, p, 0) \<and> files f e' = files f e)
     \<and> (\<forall>f p e. files f e p = None \<longrightarrow> (case fat_create F f p e of
        (None, e') \<Rightarrow> files f e' = files f e
      | (Some h, e') \<Rightarrow> at h = (f, p, 0) \<and> files f e' = (files f e)(p \<mapsto> [])))
     \<and> (\<forall>f h e. files f (file_drop F h e) = files f e)"

definition fat_seeks :: "('f, 'h, 'w) fatfs \<Rightarrow> ('f, 'w) files \<Rightarrow> ('h \<Rightarrow> 'f \<times> bytes \<times> nat) \<Rightarrow> bool" where
  "fat_seeks F files at \<longleftrightarrow>
     (\<forall>h e f p k c. at h = (f, p, k) \<and> files f e p = Some c \<longrightarrow>
        (\<exists>r h' e'. file_seek F h (SeekStart 0) e = (Some r, h', e') \<and> at h' = (f, p, 0) \<and> files f e' = files f e)
        \<and> (\<exists>r h' e'. file_seek F h (SeekEnd 0) e = (Some r, h', e') \<and> at h' = (f, p, length c) \<and> files f e' = files f e))"

definition fat_writes :: "('f, 'h, 'w) fatfs \<Rightarrow> ('f, 'w) files \<Rightarrow> ('h \<Rightarrow> 'f \<times> bytes \<times> nat) \<Rightarrow> bool" where
  "fat_writes F files at \<longleftrightarrow>
     (\<forall>h e f p k c. at h = (f, p, k) \<and> files f e p = Some c \<longrightarrow>
        (\<exists>h' e'. file_truncate F h e = (True, h', e') \<and> at h' = (f, p, k) \<and> files f e' = (files f e)(p \<mapsto> take k c))
        \<and> (\<forall>data. \<exists>n h' e'. file_write F h data e = (Some n, h', e') \<and> at h' = (f, p, k + n) \<and> n \<le> length data
             \<and> (data \<noteq> [] \<longrightarrow> 0 < n) \<and> (k + length data \<le> 512 \<longrightarrow> n = length data)
             \<and> files f e' = (files f e)(p \<mapsto> take k c @ take n data @ drop (k + n) c))
        \<and> (\<exists>h' e'. file_flush F h e = (True, h', e') \<and> at h' = (f, p, k) \<and> files f e' = files f e))"

definition fat_reads :: "('f, 'h, 'w) fatfs \<Rightarrow> ('f, 'w) files \<Rightarrow> ('h \<Rightarrow> 'f \<times> bytes \<times> nat) \<Rightarrow> bool" where
  "fat_reads F files at \<longleftrightarrow>
     (\<forall>h e f p k c buf. at h = (f, p, k) \<and> files f e p = Some c \<and> k \<le> length c \<longrightarrow>
        (\<exists>n h' e'. file_read F h buf e = (Some n, blit buf 0 (slice k (k + n) c), h', e') \<and> at h' = (f, p, k + n)
           \<and> n \<le> min (length buf) (length c - k) \<and> (0 < min (length buf) (length c - k) \<longrightarrow> 0 < n)
           \<and> (k + min (length buf) (length c - k) \<le> 512 \<longrightarrow> n = min (length buf) (length c - k))
           \<and> files f e' = files f e))"

definition replies_keep_files :: "'w trap \<Rightarrow> ('f, 'w) files \<Rightarrow> bool" where
  "replies_keep_files trap files \<longleftrightarrow>
     (\<forall>f e cap m. files f (e\<lparr>fs_world := sys_ipc_send_u trap cap m None (fs_world e)\<rparr>) = files f e)"

lemma reply_files [simp]: "replies_keep_files trap files \<Longrightarrow> files f (fs_reply trap h cap payload e) = files f e"
  by (simp add: replies_keep_files_def fs_reply_def)

lemma fat_open_found:
  assumes "fat_opens F files at" and "files f e p = Some c"
  obtains h e' where "fat_open F f p e = (Some h, e')" "at h = (f, p, 0)" "files f e' = files f e"
proof -
  obtain x e' where x: "fat_open F f p e = (x, e')" by (metis prod.exhaust)
  from assms(1) have "case fat_open F f p e of (None, e') \<Rightarrow> files f e p = None \<and> files f e' = files f e
      | (Some h, e') \<Rightarrow> files f e p \<noteq> None \<and> at h = (f, p, 0) \<and> files f e' = files f e"
    by (simp add: fat_opens_def)
  with x assms(2) that show thesis by (cases x) auto
qed

lemma fat_open_missing:
  assumes "fat_opens F files at" and "files f e p = None"
  obtains e' where "fat_open F f p e = (None, e')" "files f e' = files f e"
proof -
  obtain x e' where x: "fat_open F f p e = (x, e')" by (metis prod.exhaust)
  from assms(1) have "case fat_open F f p e of (None, e') \<Rightarrow> files f e p = None \<and> files f e' = files f e
      | (Some h, e') \<Rightarrow> files f e p \<noteq> None \<and> at h = (f, p, 0) \<and> files f e' = files f e"
    by (simp add: fat_opens_def)
  with x assms(2) that show thesis by (cases x) auto
qed

lemma fat_seekE:
  assumes "fat_seeks F files at" and "at h = (f, p, k)" and "files f e p = Some c"
  obtains r h' e' where "file_seek F h (SeekStart 0) e = (Some r, h', e')" "at h' = (f, p, 0)" "files f e' = files f e"
  using assms(1) [unfolded fat_seeks_def, rule_format, OF conjI, OF assms(2,3)] by blast

lemma fat_seek_endE:
  assumes "fat_seeks F files at" and "at h = (f, p, k)" and "files f e p = Some c"
  obtains r h' e' where "file_seek F h (SeekEnd 0) e = (Some r, h', e')" "at h' = (f, p, length c)" "files f e' = files f e"
  using assms(1) [unfolded fat_seeks_def, rule_format, OF conjI, OF assms(2,3)] by blast

lemma fat_readE:
  assumes "fat_reads F files at" and "at h = (f, p, k)" and "files f e p = Some c" and "k \<le> length c"
  obtains n h' e' where "file_read F h buf e = (Some n, blit buf 0 (slice k (k + n) c), h', e')" "at h' = (f, p, k + n)"
    "n \<le> min (length buf) (length c - k)" "0 < min (length buf) (length c - k) \<longrightarrow> 0 < n"
    "k + min (length buf) (length c - k) \<le> 512 \<longrightarrow> n = min (length buf) (length c - k)" "files f e' = files f e"
  using assms(1) [unfolded fat_reads_def, rule_format, OF conjI, OF assms(2) conjI, OF assms(3,4), of buf]
  by (elim exE conjE) (rule that)

section \<open>Reading whole files\<close>

lemma read_all_loop_all:
  assumes "fat_reads F files at" and "at h = (f, p, k)" and "files f e p = Some c" and "k \<le> length c"
    and "length chunk = MAX_IO_BYTES"
  shows "\<exists>h' e'. read_all_loop F h chunk out e = Some (Some (out @ drop k c), h', e') \<and> files f e' = files f e"
  using assms(2-)
proof (induction "length c - k" arbitrary: h k e chunk out rule: less_induct)
  case less
  from fat_readE [OF assms(1) less.prems(1-3), of chunk] obtain n h1 e1 where
    r: "file_read F h chunk e = (Some n, blit chunk 0 (slice k (k + n) c), h1, e1)" "at h1 = (f, p, k + n)"
      "n \<le> min (length chunk) (length c - k)" "0 < min (length chunk) (length c - k) \<longrightarrow> 0 < n" "files f e1 = files f e" .
  show ?case
  proof (cases "n = 0")
    case True
    then have "k = length c" using r(4) less.prems by auto
    with True r show ?thesis by (subst read_all_loop.simps) simp
  next
    case False
    let ?chunk = "blit chunk 0 (slice k (k + n) c)"
    have sl: "length (slice k (k + n) c) = n" using r(3) less.prems(3) by (subst length_slice) auto
    then have chunk: "length ?chunk = MAX_IO_BYTES" using r(3) less.prems(4) by (simp add: length_blit)
    have kn: "k + n \<le> length c" using r(3) less.prems(3) by arith
    have "length c - (k + n) < length c - k" using False r(3) by arith
    from less.hyps [OF this r(2) _ kn, of e1 ?chunk "out @ slice k (k + n) c"] r(5) less.prems(2) chunk obtain h' e' where
      IH: "read_all_loop F h1 ?chunk (out @ slice k (k + n) c) e1 = Some (Some (out @ slice k (k + n) c @ drop (k + n) c), h', e')"
      "files f e' = files f e" by auto
    have "read_all_loop F h chunk out e = read_all_loop F h1 ?chunk (out @ slice k (k + n) c) e1"
      using False r(1,3) less.prems(4) chunk sl by (subst read_all_loop.simps) (simp add: fit_def take_blit_0)
    with IH show ?thesis by (simp add: slice_drop)
  qed
qed

lemma read_file_all_whole:
  assumes "fat_opens F files at" and "fat_seeks F files at" and "fat_reads F files at" and "files f e (normalize_path path) = Some c"
  shows "\<exists>e'. read_file_all F f path e = Some (Some c, e') \<and> files f e' = files f e"
proof -
  let ?p = "normalize_path path"
  from fat_open_found [OF assms(1,4)] obtain h e1 where
    o: "fat_open F f ?p e = (Some h, e1)" "at h = (f, ?p, 0)" "files f e1 = files f e" .
  from fat_seek_endE [OF assms(2) o(2), of e1 c] o(3) assms(4) obtain r h2 e2 where
    s: "file_seek F h (SeekEnd 0) e1 = (Some r, h2, e2)" "at h2 = (f, ?p, length c)" "files f e2 = files f e" by auto
  from fat_seekE [OF assms(2) s(2), of e2 c] s(3) assms(4) obtain r' h3 e3 where
    t: "file_seek F h2 (SeekStart 0) e2 = (Some r', h3, e3)" "at h3 = (f, ?p, 0)" "files f e3 = files f e" by auto
  from read_all_loop_all [OF assms(3) t(2), of e3 c "replicate MAX_IO_BYTES 0" "[]"] t assms(4) obtain h4 e4 where
    l: "read_all_loop F h3 (replicate MAX_IO_BYTES 0) [] e3 = Some (Some c, h4, e4)" "files f e4 = files f e" by auto
  have "files f (file_drop F h4 e4) = files f e" using assms(1) l(2) by (simp add: fat_opens_def)
  then show ?thesis using o s t l by (simp add: read_file_all_def)
qed

end
