(* ===== verification/KernelTrap.thy ===== *)
theory KernelTrap
  imports KernelState InitRun InitControl BlkServer FsServer
begin

text \<open>
  User programs on the modelled kernel. The trap of the user library is instantiated with the dispatcher of the kernel: the slices of
  a call lie in the memory of the process, the other processes may change the kernel in any way between two calls. No
  capability reaches a program, so the servers never answer and the service directory of init never changes.
\<close>

section \<open>The trap of the kernel\<close>

text \<open>The slices of the four argument registers lie in four separate regions.\<close>

definition slice_addr :: "nat \<Rightarrow> usize" where
  "slice_addr i = of_nat (Suc i) * 2 ^ 44"

definition arg_reg :: "nat \<Rightarrow> uarg \<Rightarrow> usize" where
  "arg_reg i a = (case a of Val v \<Rightarrow> v | InBuf bs \<Rightarrow> slice_addr i | OutBuf bs \<Rightarrow> slice_addr i)"

definition put_arg :: "nat \<Rightarrow> uarg \<Rightarrow> umem \<Rightarrow> umem" where
  "put_arg i a mem =
     (case a of
        Val v \<Rightarrow> mem
      | InBuf bs \<Rightarrow> write_bytes mem (slice_addr i) bs
      | OutBuf bs \<Rightarrow> write_bytes mem (slice_addr i) bs)"

definition get_arg :: "nat \<Rightarrow> uarg \<Rightarrow> umem \<Rightarrow> bytes list" where
  "get_arg i a mem = (case a of OutBuf bs \<Rightarrow> [read_bytes mem (slice_addr i) (of_nat (length bs))] | _ \<Rightarrow> [])"

text \<open>
  The world of a process: the number of calls so far, its memory and the kernel. \<open>others t\<close> is what the other processes
  do before call \<open>t\<close>. A call that leaves the return register alone returns its first argument.
\<close>

type_synonym ('as, 'g) world = "nat \<times> umem \<times> ('as, 'g) kernel"

definition kernel_trap ::
  "('as, 'g) env \<Rightarrow> (nat \<Rightarrow> ('as, 'g) kernel \<Rightarrow> ('as, 'g) kernel) \<Rightarrow> usize \<Rightarrow> as_ref \<Rightarrow> ('as, 'g) world trap" where
  "kernel_trap e others pid r nr a b c d = (\<lambda>(t, mem, k).
     let mem = put_arg 3 d (put_arg 2 c (put_arg 1 b (put_arg 0 a mem)));
         u = \<lparr>sysno = nr, arg0 = arg_reg 0 a, arg1 = arg_reg 1 b, arg2 = arg_reg 2 c, arg3 = arg_reg 3 d, retval = None\<rparr>
     in case handle_syscall e pid r \<lparr>uctx = u, umem = mem, kern = others t k\<rparr> of
          (_, s) \<Rightarrow>
            (case retval (uctx s) of Some v \<Rightarrow> v | None \<Rightarrow> arg0 (uctx s),
             get_arg 0 a (umem s) @ get_arg 1 b (umem s) @ get_arg 2 c (umem s) @ get_arg 3 d (umem s),
             (Suc t, umem s, kern s)))"

section \<open>No capabilities\<close>

definition no_caps :: "'w trap \<Rightarrow> bool" where
  "no_caps trap \<longleftrightarrow>
     (\<forall>buf w. fst (snd (snd (snd (sys_ipc_recv_u trap buf w)))) = None)
     \<and> (\<forall>buf t w. fst (snd (snd (snd (sys_ipc_recv_timeout_u trap buf t w)))) = None)"

lemma ipc_recv_cap:
  assumes "ipc_recv pid out eps = (res, out', eps')"
  shows "case res of Inl _ \<Rightarrow> out' = out | Inr n \<Rightarrow> out_cap out' = 0 \<and> length (out_buf out') = length (out_buf out)"
  using assms
  by (auto simp: ipc_recv_def Let_def length_blit split: option.splits prod.splits)

lemma write_back: "write_bytes mem p (read_bytes mem p n) = mem"
proof (rule ext)
  fix a
  have "length (read_bytes mem p n) = unat n" by (simp add: read_bytes_def)
  then show "write_bytes mem p (read_bytes mem p n) a = mem a" by (simp add: write_bytes_def read_bytes_def)
qed

lemma slice_addr_pos: "slice_addr 0 \<noteq> 0" "slice_addr 2 \<noteq> 0" "slice_addr 3 \<noteq> 0"
  by code_simp+

lemma read_bytes_tail: "slice 8 16 (read_bytes mem p 16) = read_bytes mem (p + 8) 8"
proof -
  have u: "unat (16 :: usize) = 16" "unat (8 :: usize) = 8" by simp_all
  have "mem (p + of_nat (8 + i)) = mem (p + 8 + of_nat i)" for i by (simp add: add.assoc)
  then show ?thesis unfolding read_bytes_def u slice_def by (intro nth_equalityI) simp_all
qed

lemma kernel_recv_no_cap: "fst (snd (snd (snd (sys_ipc_recv_u (kernel_trap e others pid r) buf w)))) = None"
proof -
  obtain t mem k where w: "w = (t, mem, k)" by (metis prod.exhaust)
  let ?z = "to_le 8 (0 :: usize)"
  define m where "m = put_arg 3 (OutBuf ?z) (put_arg 2 (OutBuf ?z) (put_arg 1 (ulen buf) (put_arg 0 (OutBuf buf) mem)))"
  define u where "u = \<lparr>sysno = sysno_val IpcRecv, arg0 = slice_addr 0, arg1 = of_nat (length buf), arg2 = slice_addr 2,
    arg3 = slice_addr 3, retval = None\<rparr>"
  have z: "read_bytes m (slice_addr 3) 8 = ?z" by (simp add: m_def put_arg_def read_write_prefix)
  obtain oc s where run: "handle_syscall e pid r \<lparr>uctx = u, umem = m, kern = others t k\<rparr> = (oc, s)" by (metis prod.exhaust)
  obtain res out eps where rv: "ipc_recv pid \<lparr>out_buf = read_bytes m (slice_addr 0) (of_nat (length buf)), out_sender = 0, out_cap = 0\<rparr>
      (ipc_table (others t k)) = (res, out, eps)" by (metis prod.exhaust)
  have "read_bytes (umem s) (slice_addr 3) 8 = ?z"
  proof (cases res)
    case (Inl err)
    then have "out_buf out = read_bytes m (slice_addr 0) (of_nat (length buf))" using ipc_recv_cap [OF rv] by simp
    with Inl run rv have "umem s = m"
      by (auto simp: handle_native [of _ IpcRecv] u_def sys_ipc_recv_def set_retval_def write_back)
    with z show ?thesis by simp
  next
    case (Inr n)
    then have "out_cap out = 0" using ipc_recv_cap [OF rv] by simp
    with Inr run rv have "\<exists>m'. umem s = write_usize m' (slice_addr 3) 0"
      using slice_addr_pos by (auto simp: handle_native [of _ IpcRecv] u_def sys_ipc_recv_def set_retval_def Let_def)
    then show ?thesis by (auto simp: write_usize_def read_write_prefix)
  qed
  with run show ?thesis
    by (simp add: sys_ipc_recv_u_def kernel_trap_def w m_def u_def arg_reg_def get_arg_def out_slice_def fit_def
        cap_of_def Let_def)
qed

lemma kernel_recv_timeout_no_cap:
  "fst (snd (snd (snd (sys_ipc_recv_timeout_u (kernel_trap e others pid r) buf ms w)))) = None"
proof -
  obtain t mem k where w: "w = (t, mem, k)" by (metis prod.exhaust)
  let ?z = "replicate 16 0 :: bytes"
  define m where "m = put_arg 3 (Val ms) (put_arg 2 (OutBuf ?z) (put_arg 1 (ulen buf) (put_arg 0 (OutBuf buf) mem)))"
  define u where "u = \<lparr>sysno = sysno_val IpcRecvTimeout, arg0 = slice_addr 0, arg1 = of_nat (length buf), arg2 = slice_addr 2,
    arg3 = ms, retval = None\<rparr>"
  have "read_bytes m (slice_addr 2) 16 = ?z" by (simp add: m_def put_arg_def read_write_prefix)
  then have z: "read_bytes m (slice_addr 2 + 8) 8 = replicate 8 0" by (simp add: slice_def flip: read_bytes_tail)
  obtain oc s where run: "handle_syscall e pid r \<lparr>uctx = u, umem = m, kern = others t k\<rparr> = (oc, s)" by (metis prod.exhaust)
  obtain res out eps where rv: "ipc_recv pid \<lparr>out_buf = read_bytes m (slice_addr 0) (of_nat (length buf)), out_sender = 0, out_cap = 0\<rparr>
      (ipc_table (others t k)) = (res, out, eps)" by (metis prod.exhaust)
  have "from_le (read_bytes (umem s) (slice_addr 2 + 8) 8) = (0 :: usize)"
  proof (cases res)
    case (Inl err)
    then have "out_buf out = read_bytes m (slice_addr 0) (of_nat (length buf))" using ipc_recv_cap [OF rv] by simp
    with Inl run rv have "umem s = m"
      using slice_addr_pos
      by (auto simp: handle_native [of _ IpcRecvTimeout] u_def sys_ipc_recv_timeout_def ipc_recv_timeout_def set_retval_def write_back)
    with z show ?thesis by (simp add: from_le_def numeral_eq_Suc)
  next
    case (Inr n)
    then have "out_cap out = 0" using ipc_recv_cap [OF rv] by simp
    with Inr run rv have "\<exists>m'. umem s = write_usize m' (slice_addr 2 + 8) 0"
      using slice_addr_pos
      by (auto simp: handle_native [of _ IpcRecvTimeout] u_def sys_ipc_recv_timeout_def ipc_recv_timeout_def set_retval_def Let_def)
    then show ?thesis by (auto simp: write_usize_def read_write_prefix)
  qed
  then have "from_le (slice 8 16 (read_bytes (umem s) (slice_addr 2) 16)) = (0 :: usize)" by (simp add: read_bytes_tail)
  moreover have "length (read_bytes (umem s) (slice_addr 2) 16) = 16" by (simp add: read_bytes_def)
  ultimately show ?thesis
    using run by (simp add: sys_ipc_recv_timeout_u_def kernel_trap_def w m_def u_def arg_reg_def get_arg_def out_slice_def fit_def
        cap_of_def Let_def)
qed

lemma kernel_no_caps: "no_caps (kernel_trap e others pid r)"
  by (simp add: no_caps_def kernel_recv_no_cap kernel_recv_timeout_no_cap)

section \<open>Init without capabilities\<close>

lemma wait_keeps_dir:
  assumes "no_caps trap"
  shows "fst (snd (wait_for_reply_or_control trap expected ms tries buf (reg, w))) = reg"
proof (induction tries arbitrary: buf w)
  case 0
  then show ?case by simp
next
  case (Suc tries)
  obtain n from_pid buf' cap w' where r: "sys_ipc_recv_timeout_u trap buf ms w = (n, from_pid, buf', cap, w')" by (metis prod.exhaust)
  with assms have cap: "cap = None" unfolding no_caps_def by (metis fst_conv snd_conv)
  obtain b st where h: "handle_control_plane_msg trap from_pid (take (nat n) buf') None (reg, w') = (b, st)" by (metis prod.exhaust)
  with control_without_cap [of trap from_pid "take (nat n) buf'" "(reg, w')"] have "st = (reg, w')" by simp
  with Suc r cap h show ?case by simp
qed

lemma ping_keeps_dir: "no_caps trap \<Longrightarrow> fst (snd (send_ping_and_wait trap target req expected (reg, w))) = reg"
  using wait_keeps_dir by (auto simp: send_ping_and_wait_def split: prod.split bool.split)

lemma fs_exec_keeps_dir: "no_caps trap \<Longrightarrow> fst (snd (fs_exec trap p (reg, w))) = reg"
  using wait_keeps_dir by (auto simp: fs_exec_def Let_def split: prod.split bool.split)

lemma probe_keeps_dir: "no_caps trap \<Longrightarrow> fst (snd (probe_service trap spec (reg, w))) = reg"
  using ping_keeps_dir by (auto simp: probe_service_def split: HealthProbe.split option.split)

lemma spawn_keeps_dir: "no_caps trap \<Longrightarrow> fst (snd (spawn_service trap spec (reg, w))) = reg"
  using fs_exec_keeps_dir by (auto simp: spawn_service_def split: LaunchMode.split option.split prod.split)

lemma supervise_keeps_dir:
  assumes "no_caps trap"
  shows "fst (snd (supervise_at trap tick sm specs i (rt, reg, w))) = reg"
proof -
  obtain b reg1 w1 where s: "spawn_service trap (specs ! i) (reg, w) = (b, reg1, w1)" by (metis prod.exhaust)
  obtain b2 reg2 w2 where p: "probe_service trap (specs ! i) (reg, w) = (b2, reg2, w2)" by (metis prod.exhaust)
  have "reg1 = reg" "reg2 = reg"
    using spawn_keeps_dir [OF assms, of "specs ! i" reg w] probe_keeps_dir [OF assms, of "specs ! i" reg w] s p by simp_all
  with s p show ?thesis
    by (auto simp: supervise_at_def supervise_one_def probe_step_def Let_def split: prod.split bool.split)
qed

lemma fold_supervise_keeps_dir:
  "no_caps trap \<Longrightarrow> fst (snd (fold (supervise_at trap tick sm specs) is s)) = fst (snd s)"
proof (induction "is" arbitrary: s)
  case (Cons i "is")
  then show ?case using supervise_keeps_dir by (cases s) simp
qed simp

lemma launch_one_keeps_dir: "no_caps trap \<Longrightarrow> l_dir (launch_one trap specs i l) = l_dir l"
  using spawn_keeps_dir [of trap "specs ! i" "l_dir l" "l_world l"]
  by (auto simp: launch_one_def Let_def split: prod.split bool.split)

lemma launch_fold_keeps_dir: "no_caps trap \<Longrightarrow> l_dir (fold (launch_one trap specs) is l) = l_dir l"
  by (induction "is" arbitrary: l) (simp_all add: launch_one_keeps_dir)

lemma launch_loop_keeps_dir: "no_caps trap \<Longrightarrow> launch_loop trap specs count l = Some l' \<Longrightarrow> l_dir l' = l_dir l"
proof (induction trap specs count l rule: launch_loop.induct)
  case (1 trap specs count l)
  then show ?case
    by (subst (asm) launch_loop.simps)
      (auto simp: Let_def launch_pass_def launch_fold_keeps_dir split: if_splits)
qed

lemma control_step_keeps_dir:
  assumes "no_caps trap" and "control_plane_step trap specs count s = Some s'"
  shows "fst (snd (i_sup s')) = fst (snd (i_sup s))"
proof -
  obtain rt reg w where s: "i_sup s = (rt, reg, w)" by (metis prod.exhaust)
  obtain n from_pid buf cap w1 where
    r: "sys_ipc_recv_timeout_u trap (i_buf s) SUPERVISOR_TICK_MS w = (n, from_pid, buf, cap, w1)" by (metis prod.exhaust)
  with assms(1) have "cap = None" unfolding no_caps_def by (metis fst_conv snd_conv)
  with assms(2) s r have "i_sup s'
      = fold (supervise_at trap (sat_add (i_tick s) 1) (mask_of_started count rt) specs) [0..<count] (rt, reg, w1)"
    by (auto simp: control_plane_step_def control_without_cap supervisor_tick_def Let_def simp del: SUPERVISOR_TICK_MS_def
        split: if_splits)
  then show ?thesis using fold_supervise_keeps_dir [OF assms(1)] s by auto
qed

lemma control_loop_keeps_dir:
  assumes "no_caps trap" and "control_plane_loop trap specs count n s = Some s'"
  shows "fst (snd (i_sup s')) = fst (snd (i_sup s))"
  using assms(2)
proof (induction n arbitrary: s)
  case (Suc n)
  then show ?case using control_step_keeps_dir [OF assms(1)] by (auto split: option.splits)
qed simp

lemma launch_graph_keeps_dir:
  "no_caps trap \<Longrightarrow> launch_graph trap specs count rt reg w = Some (rt', reg', w') \<Longrightarrow> reg' = reg"
  by (auto simp: launch_graph_def dest: launch_loop_keeps_dir)

lemma init_start_keeps_dir:
  assumes "no_caps trap" and "init_start trap w = Some (specs, count, s)"
  shows "fst (snd (i_sup s)) = initial_directory"
  using assms(2) launch_graph_keeps_dir [OF assms(1)]
  by (auto simp: init_start_def loop_entry_def Let_def split: prod.splits if_splits option.splits)

lemma blk_step_mute:
  assumes "no_caps trap"
  shows "\<exists>buf w. blk_step V trap s = Some (s\<lparr>req_buf := buf, blk_world := w\<rparr>) \<and> w = snd (snd (snd (snd (sys_ipc_recv_u trap (req_buf s) (blk_world s)))))"
proof -
  obtain n from_pid buf cap w where r: "sys_ipc_recv_u trap (req_buf s) (blk_world s) = (n, from_pid, buf, cap, w)" by (metis prod.exhaust)
  with assms have "cap = None" unfolding no_caps_def by (metis fst_conv snd_conv)
  with r show ?thesis by (auto simp: blk_step_def blk_request_def Let_def)
qed

lemma fs_step_mute:
  assumes "no_caps trap"
  shows "\<exists>buf w. fs_step F trap s = Some (s\<lparr>fs_req_buf := buf, fs_env_of := (fs_env_of s)\<lparr>fs_world := w\<rparr>\<rparr>)
    \<and> w = snd (snd (snd (snd (sys_ipc_recv_u trap (fs_req_buf s) (fs_world (fs_env_of s))))))"
proof -
  obtain n from_pid buf cap w where
    r: "sys_ipc_recv_u trap (fs_req_buf s) (fs_world (fs_env_of s)) = (n, from_pid, buf, cap, w)" by (metis prod.exhaust)
  with assms have "cap = None" unfolding no_caps_def by (metis fst_conv snd_conv)
  with r show ?thesis by (auto simp: fs_step_def fs_request_def Let_def)
qed

lemma kernel_boot_cfg_bound: "unat (fst (sys_get_boot_cfg_u (kernel_trap e others pid r) (replicate 2048 0) w)) \<le> 2048"
proof -
  obtain t mem k where w: "w = (t, mem, k)" by (metis prod.exhaust)
  have len: "length (read_bytes m p 2048) = 2048" for m p by (simp add: read_bytes_def)
  show ?thesis
    using slice_addr_pos len
    by (auto simp: sys_get_boot_cfg_u_def kernel_trap_def w handle_native [of _ GetBootCfg] arg_reg_def sys_get_boot_cfg_def Let_def
        copy_boot_cfg_to_def set_retval_def ret_word_def unat_of_nat split: prod.split option.split)
qed

section \<open>Properties\<close>

text \<open>
  C10. On the kernel as it is, services stay unreachable: since no capability is delivered with a message, the directory of
  init keeps for ever the two entries it starts with, whatever the other processes do and send, and each round of the block server and of
  the file-system server does nothing but receive: no request is executed and none is answered.
\<close>

theorem services_unreachable:
  "let trap = kernel_trap e others pid r in
     (\<forall>w. \<exists>specs count s. init_start trap w = Some (specs, count, s)
        \<and> (\<forall>n. \<exists>s'. control_plane_loop trap specs count n s = Some s' \<and> fst (snd (i_sup s')) = initial_directory))
     \<and> (\<forall>V s. \<exists>buf. blk_step V trap s
          = Some (s\<lparr>req_buf := buf, blk_world := snd (snd (snd (snd (sys_ipc_recv_u trap (req_buf s) (blk_world s)))))\<rparr>))
     \<and> (\<forall>F s. \<exists>buf. fs_step F trap s = Some (s\<lparr>fs_req_buf := buf, fs_env_of := (fs_env_of s)
          \<lparr>fs_world := snd (snd (snd (snd (sys_ipc_recv_u trap (fs_req_buf s) (fs_world (fs_env_of s))))))\<rparr>\<rparr>))"
proof -
  define trap where "trap = kernel_trap e others pid r"
  have nc: "no_caps trap" unfolding trap_def by (rule kernel_no_caps)
  have "\<exists>specs count s. init_start trap w = Some (specs, count, s)
      \<and> (\<forall>n. \<exists>s'. control_plane_loop trap specs count n s = Some s' \<and> fst (snd (i_sup s')) = initial_directory)" for w
  proof -
    from init_start_total [of trap w] kernel_boot_cfg_bound obtain specs count s where
      i: "init_start trap w = Some (specs, count, s)" "count \<le> INIT_MAX_SERVICES" "count \<le> length (fst (i_sup s))"
      unfolding trap_def by blast
    moreover have "\<exists>s'. control_plane_loop trap specs count n s = Some s' \<and> fst (snd (i_sup s')) = initial_directory" for n
      using control_plane_loop_total [OF i(2,3), of trap specs n] control_loop_keeps_dir [OF nc, of specs count n s]
        init_start_keeps_dir [OF nc i(1)] by auto
    ultimately show ?thesis by blast
  qed
  then show ?thesis
    using blk_step_mute [OF nc] fs_step_mute [OF nc] unfolding trap_def [symmetric] Let_def by metis
qed

end
