(* ===== verification/Serial.thy ===== *)
theory Serial
  imports Ulib
begin

text \<open>
  The serial server (\<^verbatim>\<open>apps/serial/src/main.rs\<close>). The state of its device is the sequence of bytes written to the data register of
  the UART; \<open>None\<close> is a panic (an array index out of range).
\<close>

section \<open>Output\<close>

definition UART0 :: usize where [simp]: "UART0 = 0x09000000"
definition IPC_BUF_CAP :: nat where [simp]: "IPC_BUF_CAP = 4096"

definition pl011_putchar :: "u8 \<Rightarrow> bytes \<Rightarrow> bytes" where
  "pl011_putchar c out = out @ [c]"

definition print_str :: "string \<Rightarrow> bytes \<Rightarrow> bytes" where
  "print_str s out = fold pl011_putchar (lit s) out"

text \<open>The two loops of \<^verbatim>\<open>print_usize\<close>: the digits go into a buffer of 20 bytes, low digit first, and out in reverse.\<close>

definition digit :: "usize \<Rightarrow> u8" where
  "digit n = of_char CHR ''0'' + ucast (n mod 10)"

function digit_loop :: "usize \<Rightarrow> nat \<Rightarrow> bytes \<Rightarrow> (nat \<times> bytes) option" where
  "digit_loop n i buf =
     (if n = 0 then Some (i, buf)
      else if length buf \<le> i then None
      else digit_loop (n div 10) (i + 1) (buf[i := digit n]))"
  by pat_completeness auto
termination
  by (relation "measure (\<lambda>(n, i, buf). unat n)") (auto simp: unat_div unat_gt_0)

declare digit_loop.simps [simp del]

fun emit_loop :: "nat \<Rightarrow> bytes \<Rightarrow> bytes \<Rightarrow> bytes" where
  "emit_loop 0 buf out = out"
| "emit_loop (Suc i) buf out = emit_loop i buf (pl011_putchar (buf ! i) out)"

definition print_usize :: "usize \<Rightarrow> bytes \<Rightarrow> bytes option" where
  "print_usize n out =
     (if n = 0 then Some (pl011_putchar (of_char CHR ''0'') out)
      else case digit_loop n 0 (replicate 20 0) of
             None \<Rightarrow> None
           | Some (i, buf) \<Rightarrow> Some (emit_loop i buf out))"

definition print_prefix :: "usize \<Rightarrow> bytes \<Rightarrow> bytes option" where
  "print_prefix now_ms out =
     (let secs = now_ms div 1000; millis = now_ms mod 1000;
          out = print_str ''['' out
      in case print_usize secs out of
           None \<Rightarrow> None
         | Some out \<Rightarrow>
             (let out = print_str ''.'' out;
                  out = pl011_putchar (digit (millis div 100)) out;
                  out = pl011_putchar (digit (millis div 10)) out;
                  out = pl011_putchar (digit millis) out
              in Some (print_str ''] '' out)))"

definition print_byte :: "u8 \<Rightarrow> bytes \<Rightarrow> bytes" where
  "print_byte b out = (if b = 10 \<or> b = 13 then pl011_putchar (of_char CHR '' '') out else pl011_putchar b out)"

definition print_rec :: "usize \<Rightarrow> bytes \<Rightarrow> bytes \<Rightarrow> bytes option" where
  "print_rec now_ms msg out =
     (case print_prefix now_ms out of
        None \<Rightarrow> None
      | Some out \<Rightarrow> Some (pl011_putchar 10 (fold print_byte msg out)))"

section \<open>The server\<close>

record 'w serial_state =
  s_buf :: bytes
  s_out :: bytes
  s_world :: 'w

definition serial_start :: "'w trap \<Rightarrow> 'w \<Rightarrow> 'w serial_state option" where
  "serial_start trap w =
     (case sys_map_device_u trap UART0 0x1000 w of (_, w) \<Rightarrow>
      case sys_uptime_ms_u trap w of (now, w) \<Rightarrow>
      case print_rec now (lit ''PL011 UART driver initialized.'') [] of
        None \<Rightarrow> None
      | Some out \<Rightarrow>
          (case ctl_register_service trap (lit ''serial'') w of
             (_, w) \<Rightarrow> Some \<lparr>s_buf = replicate IPC_BUF_CAP 0, s_out = out, s_world = w\<rparr>))"

definition serial_step :: "'w trap \<Rightarrow> 'w serial_state \<Rightarrow> 'w serial_state option" where
  "serial_step trap s =
     (case sys_ipc_recv_timeout_u trap (s_buf s) 50 (s_world s) of (len, _, buf, _, w) \<Rightarrow>
        if len \<le> 0 then Some (s\<lparr>s_buf := buf, s_world := w\<rparr>)
        else case sys_uptime_ms_u trap w of (now_ms, w) \<Rightarrow>
               map_option (\<lambda>out. \<lparr>s_buf = buf, s_out = out, s_world = w\<rparr>)
                 (print_rec now_ms (take (nat len) buf) (s_out s)))"

section \<open>Decimal output\<close>

text \<open>The reference: the decimal numeral of a number, high digit first.\<close>

fun dec :: "nat \<Rightarrow> bytes" where
  "dec n = (if n < 10 then [of_nat (48 + n)] else dec (n div 10) @ [of_nat (48 + n mod 10)])"

declare dec.simps [simp del]

fun dec_val :: "bytes \<Rightarrow> nat" where
  "dec_val bs = foldl (\<lambda>v b. 10 * v + (unat b - 48)) 0 bs"

lemma dec_val_snoc: "dec_val (bs @ [b]) = 10 * dec_val bs + (unat b - 48)"
  by simp

lemma dec_val_dec: "dec_val (dec n) = n"
proof (induction n rule: dec.induct)
  case (1 n)
  show ?case
  proof (cases "n < 10")
    case True
    then have "unat (of_nat (48 + n) :: u8) = 48 + n" by (simp add: unat_of_nat del: of_nat_add)
    with True show ?thesis by (simp add: dec.simps [of n] del: of_nat_add)
  next
    case False
    moreover have "unat (of_nat (48 + n mod 10) :: u8) = 48 + n mod 10" by (simp add: unat_of_nat del: of_nat_add)
    ultimately show ?thesis
      using 1 by (simp add: dec.simps [of n] dec_val_snoc del: dec_val.simps of_nat_add)
  qed
qed

lemma dec_digits: "list_all (\<lambda>b. 48 \<le> b \<and> b \<le> 57) (dec n)"
proof (induction n rule: dec.induct)
  case (1 n)
  have d: "48 \<le> (of_nat (48 + k) :: u8) \<and> (of_nat (48 + k) :: u8) \<le> 57" if "k < 10" for k
    using that by (simp add: word_le_nat_alt unat_of_nat del: of_nat_add)
  show ?case using 1 d [of n] d [of "n mod 10"] by (simp add: dec.simps [of n])
qed

lemma dec_leading_pos: "0 < n \<Longrightarrow> hd (dec n) \<noteq> 48"
proof (induction n rule: dec.induct)
  case (1 n)
  show ?case
  proof (cases "n < 10")
    case True
    then have "unat (of_nat (48 + n) :: u8) = 48 + n" by (simp add: unat_of_nat del: of_nat_add)
    with 1 True show ?thesis by (auto simp: dec.simps [of n] simp del: of_nat_add)
  next
    case False
    moreover have "dec (n div 10) \<noteq> []" by (simp add: dec.simps [of "n div 10"])
    ultimately show ?thesis using 1 by (simp add: dec.simps [of n])
  qed
qed

lemma dec_leading: "hd (dec n) = 48 \<longrightarrow> length (dec n) = 1"
  using dec_leading_pos [of n] by (cases "n = 0") (auto simp: dec.simps [of 0])

lemma length_dec: "n < 10 ^ Suc k \<Longrightarrow> length (dec n) \<le> Suc k"
proof (induction k arbitrary: n)
  case 0
  then show ?case by (simp add: dec.simps [of n])
next
  case (Suc k)
  have "n div 10 < 10 ^ Suc k" using Suc.prems by (simp add: less_mult_imp_div_less)
  then show ?case using Suc.IH by (simp add: dec.simps [of n])
qed

lemma dec_digit_eq: "digit n = of_nat (48 + unat n mod 10)"
proof -
  have "(of_nat (unat (n mod 10)) :: u8) = ucast (n mod 10)" by (rule of_nat_unat)
  moreover have "unat (n mod 10) = unat n mod 10" by (simp add: unat_mod)
  ultimately have "ucast (n mod 10) = (of_nat (unat n mod 10) :: u8)" by simp
  then show ?thesis by (simp add: digit_def)
qed

lemma digit_loop_dec:
  assumes "n \<noteq> 0" and "i + length (dec (unat n)) \<le> length buf"
  shows "\<exists>buf'. digit_loop n i buf = Some (i + length (dec (unat n)), buf')
    \<and> take i buf' = take i buf \<and> slice i (i + length (dec (unat n))) buf' = rev (dec (unat n))"
  using assms
proof (induction n i buf rule: digit_loop.induct)
  case (1 n i buf)
  have i: "i < length buf" using "1.prems"(2) by (simp add: dec.simps [of "unat n"] split: if_splits)
  have step: "digit_loop n i buf = digit_loop (n div 10) (i + 1) (buf[i := digit n])"
    using "1.prems"(1) i by (simp add: digit_loop.simps [of n])
  have sl: "slice i (Suc i + m) b = b ! i # slice (Suc i) (Suc i + m) b" if "i < length b" for m and b :: bytes
    using that by (simp add: slice_def Cons_nth_drop_Suc [symmetric])
  show ?case
  proof (cases "unat n < 10")
    case True
    then have "n div 10 = 0" by (simp add: unat_eq_0 [symmetric] unat_div)
    with True i show ?thesis
      unfolding step by (simp add: digit_loop.simps [of 0] dec.simps [of "unat n"] dec_digit_eq slice_def)
        (simp add: take_Suc_conv_app_nth Cons_nth_drop_Suc [symmetric])
  next
    case False
    then have nz: "n div 10 \<noteq> 0" by (simp add: unat_eq_0 [symmetric] unat_div)
    have u: "unat (n div 10) = unat n div 10" by (simp add: unat_div)
    have d: "dec (unat n) = dec (unat n div 10) @ [digit n]" using False by (simp add: dec.simps [of "unat n"] dec_digit_eq)
    from "1.IH" [OF "1.prems"(1) _ nz] i "1.prems"(2) obtain buf' where
      b: "digit_loop (n div 10) (i + 1) (buf[i := digit n]) = Some (i + 1 + length (dec (unat n div 10)), buf')"
      "take (i + 1) buf' = take (i + 1) (buf[i := digit n])"
      "slice (i + 1) (i + 1 + length (dec (unat n div 10))) buf' = rev (dec (unat n div 10))"
      by (auto simp: u d)
    have "i < length buf'" using arg_cong [OF b(2), of length] i by simp
    moreover have "buf' ! i = digit n" using arg_cong [OF b(2), of "\<lambda>xs. xs ! i"] i by simp
    moreover have "take i buf' = take i buf" using arg_cong [OF b(2), of "take i"] by (simp add: min_def)
    ultimately show ?thesis
      unfolding step using b(1,3) sl [of buf' "length (dec (unat n div 10))"] by (simp add: d)
  qed
qed

lemma emit_loop_rev: "i \<le> length buf \<Longrightarrow> emit_loop i buf out = out @ rev (take i buf)"
  by (induction i arbitrary: out) (simp_all add: pl011_putchar_def take_Suc_conv_app_nth)

lemma print_usize_dec: "print_usize n out = Some (out @ dec (unat n))"
proof (cases "n = 0")
  case True
  then show ?thesis by (simp add: print_usize_def pl011_putchar_def dec.simps)
next
  case False
  have "unat n < 10 ^ Suc 19" using unsigned_less [of n, where ?'a = nat] by simp
  then have len: "length (dec (unat n)) \<le> 20" using length_dec [of "unat n" 19] by simp
  from digit_loop_dec [OF False, of 0 "replicate 20 0"] len obtain buf where
    b: "digit_loop n 0 (replicate 20 0) = Some (length (dec (unat n)), buf)"
    "take (length (dec (unat n))) buf = rev (dec (unat n))"
    by (auto simp: slice_def)
  have "length (dec (unat n)) \<le> length buf" using arg_cong [OF b(2), of length] by simp
  with b False show ?thesis by (simp add: print_usize_def emit_loop_rev)
qed

lemma fold_putchar: "fold pl011_putchar bs out = out @ bs"
  by (induction bs arbitrary: out) (simp_all add: pl011_putchar_def)

lemma fold_print_byte: "fold print_byte bs out = out @ map (\<lambda>b. if b = 10 \<or> b = 13 then 32 else b) bs"
  by (induction bs arbitrary: out) (simp_all add: print_byte_def pl011_putchar_def)


lemma print_rec_eq:
  "print_rec now msg out = Some (out @ [91] @ dec (unat now div 1000) @ [46]
     @ map (\<lambda>d. of_nat (48 + d)) [unat now mod 1000 div 100, unat now mod 1000 div 10 mod 10, unat now mod 10]
     @ [93, 32] @ map (\<lambda>b. if b = 10 \<or> b = 13 then 32 else b) msg @ [10])"
proof -
  have "unat (now mod 1000) = unat now mod 1000" by (simp add: unat_mod)
  then have d: "digit (now mod 1000 div 100) = of_nat (48 + unat now mod 1000 div 100 mod 10)"
    "digit (now mod 1000 div 10) = of_nat (48 + unat now mod 1000 div 10 mod 10)"
    "digit (now mod 1000) = of_nat (48 + unat now mod 10)"
    by (simp_all add: dec_digit_eq unat_div mod_mod_cancel del: of_nat_add)
  have c: "unat now mod 1000 div 100 mod 10 = unat now mod 1000 div 100" by simp
  have "unat (now div 1000) = unat now div 1000" by (simp add: unat_div)
  then show ?thesis
    by (simp add: print_rec_def print_prefix_def print_str_def print_usize_dec fold_print_byte pl011_putchar_def d c Let_def
        del: of_nat_add)
qed

section \<open>Properties\<close>

text \<open>
  C35. A record is printed as one line with its time: the server writes, after what it wrote before, a bracket, the seconds in
  decimal without leading zeros, a point, the milliseconds in three digits, a bracket and a space, then the message with
  every line break replaced by a space, then one line feed. The line contains no other line feed, and the printed digits
  read back as the time. In particular no number overflows the digit buffer.
\<close>

theorem print_rec_line:
  "\<exists>secs millis line. print_rec now msg out = Some (out @ line @ [10])
    \<and> line = [91] @ secs @ [46] @ millis @ [93, 32] @ map (\<lambda>b. if b = 10 \<or> b = 13 then 32 else b) msg
    \<and> 10 \<notin> set line \<and> list_all (\<lambda>b. 48 \<le> b \<and> b \<le> 57) (secs @ millis) \<and> length millis = 3
    \<and> (hd secs = 48 \<longrightarrow> length secs = 1)
    \<and> 1000 * dec_val secs + dec_val millis = unat now"
proof -
  define millis where "millis = map (\<lambda>d. of_nat (48 + d) :: u8)
    [unat now mod 1000 div 100, unat now mod 1000 div 10 mod 10, unat now mod 10]"
  let ?secs = "dec (unat now div 1000)"
  have u: "unat (of_nat (48 + k) :: u8) = 48 + k" if "k < 10" for k
    using that by (simp add: unat_of_nat del: of_nat_add)
  have lt: "unat now mod 1000 div 100 < 10" by simp
  have le: "k mod 10 \<le> 9" for k :: nat using mod_less_divisor [of 10 k] by simp
  have dig: "list_all (\<lambda>b. 48 \<le> b \<and> b \<le> 57) (?secs @ millis)"
    using dec_digits [of "unat now div 1000"] lt le [of "unat now"] le [of "unat now mod 1000 div 10"] by (simp add: millis_def word_le_nat_alt u del: of_nat_add)
  have "unat now mod 1000 div 100 = unat now mod 1000 div 10 div 10" by (simp add: div_mult2_eq [symmetric])
  moreover have "unat now mod 10 = unat now mod 1000 mod 10" by (simp add: mod_mod_cancel)
  ultimately have "10 * (10 * (unat now mod 1000 div 100) + unat now mod 1000 div 10 mod 10) + unat now mod 10 = unat now mod 1000"
    by (metis mult_div_mod_eq)
  then have "dec_val millis = unat now mod 1000"
    using lt unfolding millis_def by (simp add: u del: of_nat_add)
  then have "1000 * dec_val ?secs + dec_val millis = unat now" by (simp add: dec_val_dec del: dec_val.simps)
  moreover have "10 \<notin> set (?secs @ millis)" using dig by (force simp: list_all_iff word_le_nat_alt)
  moreover have "hd ?secs = 48 \<longrightarrow> length ?secs = 1" by (rule dec_leading)
  moreover have "length millis = 3" by (simp add: millis_def)
  ultimately show ?thesis
    using dig print_rec_eq [of now msg out, folded millis_def]
    by (intro exI [of _ ?secs] exI [of _ millis] exI conjI) (auto simp del: dec_val.simps)
qed

theorem print_rec_line_witness:
  "\<exists>line. print_rec 61007 (lit ''a'' @ [10] @ lit ''b'') [] = Some (line @ [10]) \<and> 10 \<notin> set line"
  using print_rec_line [of 61007 "lit ''a'' @ [10] @ lit ''b''" "[]"] by auto

end
