(* ===== verification/Vmm.thy ===== *)
theory Vmm
  imports Ulib
begin

text \<open>
  The memory manager server (\<^verbatim>\<open>apps/vmm/src/main.rs\<close>): it maps memory into the address space of the process that asks for it.
\<close>

record 'w vmm_state =
  vmm_buf :: bytes
  vmm_world :: 'w

definition vmm_start :: "'w trap \<Rightarrow> 'w \<Rightarrow> 'w vmm_state" where
  "vmm_start trap w =
     \<lparr>vmm_buf = replicate 128 0, vmm_world = sys_log trap ''vmm: Memory management service started.'' w\<rparr>"

definition vmm_step :: "'w trap \<Rightarrow> 'w vmm_state \<Rightarrow> 'w vmm_state" where
  "vmm_step trap s =
     (case sys_ipc_recv_u trap (vmm_buf s) (vmm_world s) of
        (len, from_pid, buf, recv_cap, w) \<Rightarrow>
          if 0 < len \<and> buf ! 0 = 1 \<and> len = 9 then
            let sz = from_le (slice 1 9 buf) :: usize;
                w = sys_log trap ''vmm: Received MMAP request'' w
            in case sys_vmm_map_page_to_u trap from_pid 0 sz w of
                 (vaddr, w) \<Rightarrow>
                   \<lparr>vmm_buf = buf,
                    vmm_world =
                      (case recv_cap of
                         Some target_cap \<Rightarrow> sys_ipc_send_u trap target_cap (to_le 8 vaddr) None w
                       | None \<Rightarrow> sys_log trap ''vmm: no reply capability provided!'' w)\<rparr>
          else \<lparr>vmm_buf = buf, vmm_world = w\<rparr>)"

end
