(* ===== verification/FsOverBlk.thy ===== *)
theory FsOverBlk
  imports FsDisk
begin

text \<open>
  The disk of the file-system server over the block server with its mock disk. The two run against a channel that delivers
  messages with their capability, as the interface documentation of the kernel promises: a message of the client is handled by one
  round of the request loop of the server, whose replies the client then receives.
\<close>

section \<open>The channel\<close>

record net =
  inq :: "bytes list"
  outq :: "bytes list"

definition idle :: net where "idle = \<lparr>inq = [], outq = []\<rparr>"

definition server_trap :: "net trap" where
  "server_trap nr a b c d w =
     (if nr = sysno_val IpcRecv then
        (case (inq w, a) of
           (m # ms, OutBuf buf) \<Rightarrow>
             (of_nat (length m), [blit buf 0 m, to_le 8 (5 :: usize), to_le 8 (9 :: usize)], w\<lparr>inq := ms\<rparr>)
         | _ \<Rightarrow> (0, [], w))
      else if nr = sysno_val IpcSend then
        (case b of InBuf m \<Rightarrow> (0, [], w\<lparr>outq := outq w @ [m]\<rparr>) | _ \<Rightarrow> (0, [], w))
      else (0, [], w))"

type_synonym server = "(unit, net) blk_state"

definition client_trap :: "server trap" where
  "client_trap nr a b c d s =
     (if nr = sysno_val IpcSend then
        (if a = Val (to_usize VirtioBlkEndpoint) then
           (case b of
              InBuf m \<Rightarrow>
                (case blk_step no_device server_trap (s\<lparr>blk_world := (blk_world s)\<lparr>inq := inq (blk_world s) @ [m]\<rparr>\<rparr>) of
                   Some s' \<Rightarrow> (0, [], s')
                 | None \<Rightarrow> (all_ones, [], s))
            | _ \<Rightarrow> (0, [], s))
         else (0, [], s))
      else if nr = sysno_val IpcRecvTimeout then
        (case (outq (blk_world s), a) of
           (m # ms, OutBuf buf) \<Rightarrow>
             (of_nat (length m), [blit buf 0 m, to_le 8 (2 :: usize) @ to_le 8 (0 :: usize)],
              s\<lparr>blk_world := (blk_world s)\<lparr>outq := ms\<rparr>\<rparr>)
         | _ \<Rightarrow> (all_ones, [], s))
      else (0, [], s))"

definition mock_live :: "server fs_env \<Rightarrow> bool" where
  "mock_live e \<longleftrightarrow> blk_ok (fs_world e) \<and> backend (fs_world e) = Mock \<and> blk_world (fs_world e) = idle
     \<and> (blk_service e = 0 \<or> blk_service e = to_usize VirtioBlkEndpoint)"

definition mock_data :: "server fs_env \<Rightarrow> bytes" where
  "mock_data e = mock_disk (fs_world e)"

section \<open>Calls\<close>

lemma tag_request_eq:
  assumes "6 + length rest \<le> MAX_IO_BYTES + 32"
  shows "tag_request tag (to_le 2 opc @ rest) = tagged_req opc tag rest"
  using assms by (simp add: tag_request_def tagged_req_def blit_def slice_def)

lemma server_reply: "sys_ipc_send_u server_trap cap m None w = w\<lparr>outq := outq w @ [m]\<rparr>"
  by (simp add: sys_ipc_send_u_def ipc_send_call_def server_trap_def)

lemma server_recv:
  assumes "length m \<le> length buf"
  shows "sys_ipc_recv_u server_trap buf \<lparr>inq = [m], outq = []\<rparr> = (of_nat (length m), 5, blit buf 0 m, Some (Dynamic 9), idle)"
  using assms
  by (simp add: sys_ipc_recv_u_def server_trap_def out_slice_def fit_def length_blit cap_of_def from_usize_def idle_def)

lemma client_recv:
  assumes "length m \<le> length buf" and "length m < 2 ^ 63" and "blk_world s = \<lparr>inq = [], outq = [m]\<rparr>"
  shows "sys_ipc_recv_timeout_u client_trap buf t s = (int (length m), 2, blit buf 0 m, None, s\<lparr>blk_world := idle\<rparr>)"
proof -
  have u: "unat (of_nat (length m) :: usize) = length m" using assms(2) by (simp add: unat_of_nat)
  moreover have "sint (of_nat (length m) :: usize) = int (length m)"
    using assms(2) by (simp add: signed_of_nat signed_take_bit_int_eq_self)
  ultimately show ?thesis
    using assms
    by (simp add: sys_ipc_recv_timeout_u_def client_trap_def out_slice_def fit_def length_blit cap_of_def idle_def slice_def Let_def)
qed

lemma client_service:
  assumes "mock_live e"
  shows "blk_service_handle client_trap e = (VirtioBlkEndpoint, e\<lparr>blk_service := to_usize VirtioBlkEndpoint\<rparr>)"
proof (cases "blk_service e = 0")
  case True
  have "ctl_lookup_service client_trap (lit ''virtio_blk'') 100 (fs_world e) = (None, fs_world e)"
    using assms
    by (simp add: ctl_lookup_service_def sys_ipc_send_checked_def ipc_send_call_def client_trap_def mock_live_def idle_def
        sys_ipc_recv_timeout_u_def Let_def)
  with True show ?thesis by (simp add: blk_service_handle_def unwrap_or_def)
next
  case False
  with assms show ?thesis by (auto simp: blk_service_handle_def mock_live_def from_usize_def)
qed

text \<open>A call whose request the server answers with \<open>payload\<close> returns it, cut to the response buffer.\<close>

lemma client_call:
  assumes live: "mock_live e" and len: "6 + length rest \<le> 4110"
    and ans: "\<And>tag. blk_request no_device server_trap (of_nat (6 + length rest)) (Some (Dynamic 9))
      ((fs_world e)\<lparr>req_buf := blit (req_buf (fs_world e)) 0 (tagged_req opc tag rest)\<rparr>)
      = Some (mock_reply server_trap (Dynamic 9) tag payload (s1 tag))"
    and s1: "\<And>tag. blk_world (s1 tag) = idle" and pl: "length payload \<le> MAX_IO_BYTES"
  shows "\<exists>e'. blk_call client_trap (to_le 2 opc @ rest) resp e
      = (min (length payload) (length resp), blit resp 0 (take (min (length payload) (length resp)) payload), e')
    \<and> fs_world e' = s1 (blk_req_id e) \<and> blk_service e' = to_usize VirtioBlkEndpoint"
proof -
  let ?s = "fs_world e" and ?tag = "blk_req_id e"
  let ?m = "tagged_req opc ?tag rest"
  let ?s' = "mock_reply server_trap (Dynamic 9) ?tag payload (s1 ?tag)"
  have w: "blk_world ?s = idle" and ok: "length (req_buf ?s) = 4110" using live by (simp_all add: mock_live_def blk_ok_def)
  have u: "unat (of_nat (6 + length rest) :: usize) = 6 + length rest" using len by (simp add: unat_of_nat del: of_nat_add)
  then have "\<not> of_nat (6 + length rest) < (2 :: usize)" by (simp add: word_less_nat_alt del: of_nat_add)
  moreover have "sys_ipc_recv_u server_trap (req_buf ?s) \<lparr>inq = [?m], outq = []\<rparr>
      = (of_nat (6 + length rest), 5, blit (req_buf ?s) 0 ?m, Some (Dynamic 9), idle)"
    using server_recv [of ?m "req_buf ?s"] ok len by simp
  moreover have "?s\<lparr>req_buf := b, blk_world := idle\<rparr> = ?s\<lparr>req_buf := b\<rparr>" for b using w by (cases ?s) simp
  ultimately have "blk_step no_device server_trap (?s\<lparr>blk_world := \<lparr>inq = [?m], outq = []\<rparr>\<rparr>) = Some ?s'"
    using ans [of ?tag] by (simp add: blk_step_def Let_def del: of_nat_add)
  then have send: "sys_ipc_send_checked client_trap VirtioBlkEndpoint ?m (Some LocalEndpoint) ?s = (True, ?s')"
    using w by (simp add: sys_ipc_send_checked_def ipc_send_call_def client_trap_def idle_def)
  let ?reply = "to_le 4 ?tag @ payload" and ?inbox = "replicate 4128 0 :: bytes"
  have "blk_world ?s' = \<lparr>inq = [], outq = [?reply]\<rparr>" using s1 [of ?tag] by (simp add: mock_reply_def server_reply idle_def)
  then have recv: "sys_ipc_recv_timeout_u client_trap ?inbox 20 ?s' = (int (4 + length payload), 2, blit ?inbox 0 ?reply, None, s1 ?tag)"
    using client_recv [of ?reply ?inbox ?s' 20] pl s1 [of ?tag] by (simp add: mock_reply_def)
  obtain a b c d where t: "to_le 4 ?tag = [a, b, c, d]" "from_le [a, b, c, d] = ?tag" using u32_bytes [of ?tag] by blast
  let ?n = "min (length payload) (length resp)"
  have nat: "nat (4 + int (length payload)) = 4 + length payload" by arith
  have "slice 4 (4 + ?n) (blit ?inbox 0 ?reply) = take ?n payload"
    by (simp add: slice_def blit_def t(1))
  then have wait: "blk_wait client_trap ?tag 250 ?inbox resp ?s' = (?n, blit resp 0 (take ?n payload), s1 ?tag)"
    using recv t nat by (subst blk_wait.simps(2) [of _ _ 249, simplified]) (simp add: Let_def blit_def)
  let ?e = "e\<lparr>blk_req_id := ?tag + 1\<rparr>"
  have "mock_live ?e" using live by (simp add: mock_live_def)
  note service = client_service [OF this]
  have "blk_call client_trap (to_le 2 opc @ rest) resp e = (?n, blit resp 0 (take ?n payload),
      ?e\<lparr>blk_service := to_usize VirtioBlkEndpoint, fs_world := s1 ?tag\<rparr>)"
    using len send wait service tag_request_eq [of rest ?tag opc]
    by (simp add: blk_call_def next_blk_req_id_def)
  then show ?thesis by simp
qed

section \<open>Sectors\<close>

lemma client_read_sector:
  assumes "mock_live e" and "length out = 512" and "unat s * 512 + 512 \<le> length (mock_data e)"
  shows "\<exists>e'. read_sector client_trap s out e = (True, slice (unat s * 512) (unat s * 512 + 512) (mock_data e), e')
    \<and> mock_live e' \<and> mock_data e' = mock_data e"
proof -
  let ?s = "fs_world e"
  let ?payload = "slice (unat s * 512) (unat s * 512 + 512) (mock_disk ?s)"
  have ok: "blk_ok ?s" "backend ?s = Mock" "blk_world ?s = idle" using assms(1) by (simp_all add: mock_live_def)
  have n: "unat (512 :: u32) = 512" by simp
  have "\<exists>io. length io = 4096 \<and> blk_request no_device server_trap (of_nat (6 + length (rw_args s 512))) (Some (Dynamic 9))
      (?s\<lparr>req_buf := blit (req_buf ?s) 0 (tagged_req BLK_REQ_READ tag (rw_args s 512))\<rparr>)
    = Some (mock_reply server_trap (Dynamic 9) tag ?payload
        (?s\<lparr>req_buf := blit (req_buf ?s) 0 (tagged_req BLK_REQ_READ tag (rw_args s 512)), io_buf := io\<rparr>))" for tag
    using mock_read [of "?s\<lparr>req_buf := blit (req_buf ?s) 0 (tagged_req BLK_REQ_READ tag (rw_args s 512))\<rparr>"
        18 "req_buf ?s" tag s 512 "[]"] ok assms(3)
    by (auto simp: blk_ok_def length_blit mock_data_def n)
  then obtain io where io: "\<And>tag. length (io tag) = 4096"
    "\<And>tag. blk_request no_device server_trap (of_nat (6 + length (rw_args s 512))) (Some (Dynamic 9))
      (?s\<lparr>req_buf := blit (req_buf ?s) 0 (tagged_req BLK_REQ_READ tag (rw_args s 512))\<rparr>)
    = Some (mock_reply server_trap (Dynamic 9) tag ?payload
        (?s\<lparr>req_buf := blit (req_buf ?s) 0 (tagged_req BLK_REQ_READ tag (rw_args s 512)), io_buf := io tag\<rparr>))"
    by metis
  have pl: "length ?payload = 512" using assms(3) by (simp add: length_slice mock_data_def)
  have req: "read_sector client_trap s out e =
      (case blk_call client_trap (to_le 2 BLK_REQ_READ @ rw_args s 512) (replicate MAX_IO_BYTES 0) e of
         (len, resp, e') \<Rightarrow> if len \<noteq> length out then (False, out, e') else (True, take len resp, e'))"
    using assms(2) by (simp add: read_sector_def rw_args_def blit_def)
  show ?thesis
    using client_call [OF assms(1) _ io(2), where resp = "replicate MAX_IO_BYTES 0"] ok pl assms(2) io(1)
    unfolding req by (auto simp: take_blit_0 mock_live_def mock_data_def blk_ok_def length_blit)
qed

lemma client_write_sector:
  assumes "mock_live e" and "length xs = 512" and "unat s * 512 + 512 \<le> length (mock_data e)"
  shows "\<exists>e'. write_sector client_trap s xs e = (True, e') \<and> mock_live e' \<and> mock_data e' = blit (mock_data e) (unat s * 512) xs"
proof -
  let ?s = "fs_world e"
  let ?rest = "rw_args s (of_nat (length xs)) @ xs"
  have ne: "xs \<noteq> []" using assms(2) by auto
  have ok: "blk_ok ?s" "backend ?s = Mock" "blk_world ?s = idle" using assms(1) by (simp_all add: mock_live_def)
  have "blk_request no_device server_trap (of_nat (6 + length ?rest)) (Some (Dynamic 9))
      (?s\<lparr>req_buf := blit (req_buf ?s) 0 (tagged_req BLK_REQ_WRITE tag ?rest)\<rparr>)
    = Some (mock_reply server_trap (Dynamic 9) tag (lit ''OK'')
        (?s\<lparr>req_buf := blit (req_buf ?s) 0 (tagged_req BLK_REQ_WRITE tag ?rest), mock_disk := blit (mock_disk ?s) (unat s * 512) xs\<rparr>))"
    for tag
    using mock_write [of "?s\<lparr>req_buf := blit (req_buf ?s) 0 (tagged_req BLK_REQ_WRITE tag ?rest)\<rparr>" "of_nat (6 + length ?rest)" xs
        "req_buf ?s" tag s] ok assms(2,3) ne
    by (auto simp: blk_ok_def length_blit mock_data_def)
  note call = client_call [OF assms(1) _ this, where resp = "replicate 8 0"]
  have req: "write_sector client_trap s xs e = (case blk_call client_trap (to_le 2 BLK_REQ_WRITE @ ?rest) (replicate 8 0) e of
      (len, resp, e') \<Rightarrow> (len = 2 \<and> take 2 resp = lit ''OK'', e'))"
    by (simp add: write_sector_def rw_args_def)
  show ?thesis
    using call ok assms(2,3) unfolding req
    by (auto simp: take_blit_0 mock_live_def mock_data_def blk_ok_def length_blit)
qed

interpretation mock: sector_store client_trap mock_live mock_data 512
proof unfold_locales
  show "mock_live e \<Longrightarrow> 512 dvd length (mock_data e) \<and> length (mock_data e) < 2 ^ 64" for e
    by (simp add: mock_live_def blk_ok_def mock_data_def)
qed (simp_all add: client_read_sector client_write_sector)

lemma client_disk_new:
  assumes "mock_live e"
  shows "\<exists>d e'. disk_new client_trap e = (Some d, e') \<and> disk_on mock_live mock_data 512 d e' \<and> pos d = 0 \<and> mock_data e' = mock_data e"
proof -
  let ?s = "fs_world e"
  let ?payload = "to_le 8 (512 :: u64) @ to_le 8 (256 :: u64)"
  have ok: "blk_ok ?s" "backend ?s = Mock" "blk_world ?s = idle" using assms by (simp_all add: mock_live_def)
  have "blk_request no_device server_trap (of_nat (6 + length [])) (Some (Dynamic 9))
      (?s\<lparr>req_buf := blit (req_buf ?s) 0 (tagged_req BLK_REQ_GET_INFO tag [])\<rparr>)
    = Some (mock_reply server_trap (Dynamic 9) tag ?payload (?s\<lparr>req_buf := blit (req_buf ?s) 0 (tagged_req BLK_REQ_GET_INFO tag [])\<rparr>))"
    for tag
    using ok by (simp add: mock_info)
  note call = client_call [OF assms _ this, where resp = "replicate 16 0"]
  show ?thesis
    using call ok
    by (auto simp: disk_new_def take_blit_0 mock_live_def mock_data_def blk_ok_def length_blit disk_on_def blit_def slice_def
        sat_mul_def)
qed

section \<open>Properties\<close>

text \<open>
  C4. The file-system server's disk over the block server implements a byte array with a cursor. Opening the disk finds
  the size of the block server's disk with the cursor at the start, and every sequence of reads, writes and seeks of any lengths and
  alignments gives the same results as on the flat array, leaves the disk of the block server with the bytes of that array
  and the cursor where the array has it. So the sector arithmetic, the read-modify-write of partial sectors, the encoding and
  decoding of requests and the tagging of replies are right together.
\<close>

theorem disk_refines_array:
  assumes "mock_live e"
  shows "\<exists>d e1. disk_new client_trap e = (Some d, e1)
    \<and> (\<forall>ops. \<exists>d' e'. disk_run client_trap ops (d, e1) = (fst (flat_run ops (0, mock_data e)), d', e')
          \<and> snd (flat_run ops (0, mock_data e)) = (unat (pos d'), mock_data e'))"
proof -
  from client_disk_new [OF assms] obtain d e1 where
    new: "disk_new client_trap e = (Some d, e1)" and on: "disk_on mock_live mock_data 512 d e1"
    and d: "pos d = 0" "mock_data e1 = mock_data e" by blast
  from mock.run_sim [OF on] d have "\<exists>d' e'. disk_run client_trap ops (d, e1) = (fst (flat_run ops (0, mock_data e)), d', e')
      \<and> snd (flat_run ops (0, mock_data e)) = (unat (pos d'), mock_data e')" for ops
    by fastforce
  with new show ?thesis by blast
qed

definition demo_disk_env :: "server fs_env" where
  "demo_disk_env = \<lparr>blk_req_id = 1, blk_service = 0,
     fs_world = \<lparr>backend = Mock, mock_disk = replicate 131072 0, req_buf = replicate 4110 0, io_buf = replicate 4096 0,
       blk_world = idle\<rparr>\<rparr>"

theorem disk_refines_array_witness:
  "\<exists>d e1 d' e'. disk_new client_trap demo_disk_env = (Some d, e1)
    \<and> disk_run client_trap [DSeek (SeekStart 510), DWrite (lit ''abcd''), DSeek (SeekCurrent (- 3)), DRead [0, 0]] (d, e1)
      = ([RSeek (Some 510), RWrite (IoOk 4), RSeek (Some 511), RRead (IoOk 2) (lit ''bc'')], d', e')"
proof -
  let ?ops = "[DSeek (SeekStart 510), DWrite (lit ''abcd''), DSeek (SeekCurrent (- 3)), DRead [0, 0]]"
  have "fst (flat_run ?ops (0, replicate 131072 0)) = [RSeek (Some 510), RWrite (IoOk 4), RSeek (Some 511), RRead (IoOk 2) (lit ''bc'')]"
    by (simp add: flat_step_def seek_target_def Let_def slice_def blit_def)
  moreover have "mock_live demo_disk_env" "mock_data demo_disk_env = replicate 131072 0"
    by (simp_all add: mock_live_def blk_ok_def demo_disk_env_def mock_data_def)
  ultimately show ?thesis using disk_refines_array [of demo_disk_env] by metis
qed

end
