(* ===== verification/Helloworld.thy ===== *)
theory Helloworld
  imports Ulib
begin

text \<open>
  The demonstration program (\<^verbatim>\<open>apps/helloworld/src/main.rs\<close>): a client of the file-system server that retries while the server
  is not ready.
\<close>

definition FS_RETRY_MAX :: nat where [simp]: "FS_RETRY_MAX = 50"
definition FS_RETRY_SLEEP_MS :: usize where [simp]: "FS_RETRY_SLEEP_MS = 20"

definition fs_call :: "'w trap \<Rightarrow> bytes \<Rightarrow> bytes \<Rightarrow> 'w \<Rightarrow> usize \<times> bytes \<times> 'w" where
  "fs_call trap req resp w =
     (case sys_ipc_send_checked trap FsEndpoint req (Some LocalEndpoint) w of
        (False, w') \<Rightarrow> (0, resp, w')
      | (True, w') \<Rightarrow> (case sys_ipc_recv_u trap resp w' of (n, _, resp', _, w'') \<Rightarrow> (n, resp', w'')))"

definition fs_write_req :: "bytes \<Rightarrow> bytes \<Rightarrow> bytes" where
  "fs_write_req p data =
     to_le 2 FS_REQ_WRITE @ to_le 2 (of_nat (length p) :: u16) @ to_le 4 (of_nat (length data) :: u32) @ p @ data"

definition fs_read_req :: "bytes \<Rightarrow> bytes" where
  "fs_read_req p = to_le 2 FS_REQ_READ @ to_le 2 (of_nat (length p) :: u16) @ p"

definition again :: "usize \<Rightarrow> bytes \<Rightarrow> bool" where
  "again len resp \<longleftrightarrow> len = 6 \<and> take 6 resp = lit ''EAGAIN''"

text \<open>The retry loops, with the number of tries that are left.\<close>

fun fs_write_loop :: "'w trap \<Rightarrow> nat \<Rightarrow> bytes \<Rightarrow> bytes \<Rightarrow> bytes \<Rightarrow> 'w \<Rightarrow> bool \<times> bytes \<times> 'w" where
  "fs_write_loop trap 0 p data resp w = (False, resp, w)"
| "fs_write_loop trap (Suc i) p data resp w =
     (case fs_call trap (fs_write_req p data) resp w of
        (len, resp', w') \<Rightarrow>
          if again len resp' then fs_write_loop trap i p data resp' (sys_sleep_ms trap FS_RETRY_SLEEP_MS w')
          else (len = 2 \<and> take 2 resp' = lit ''OK'', resp', w'))"

definition fs_write :: "'w trap \<Rightarrow> bytes \<Rightarrow> bytes \<Rightarrow> bytes \<Rightarrow> 'w \<Rightarrow> bool \<times> bytes \<times> 'w" where
  "fs_write trap p data resp w = fs_write_loop trap FS_RETRY_MAX p data resp w"

fun fs_read_loop :: "'w trap \<Rightarrow> nat \<Rightarrow> bytes \<Rightarrow> bytes \<Rightarrow> 'w \<Rightarrow> usize \<times> bytes \<times> 'w" where
  "fs_read_loop trap 0 p resp w = (0, resp, w)"
| "fs_read_loop trap (Suc i) p resp w =
     (case fs_call trap (fs_read_req p) resp w of
        (len, resp', w') \<Rightarrow>
          if again len resp' then fs_read_loop trap i p resp' (sys_sleep_ms trap FS_RETRY_SLEEP_MS w')
          else (len, resp', w'))"

definition fs_read_u :: "'w trap \<Rightarrow> bytes \<Rightarrow> bytes \<Rightarrow> 'w \<Rightarrow> usize \<times> bytes \<times> 'w" where
  "fs_read_u trap p resp w = fs_read_loop trap FS_RETRY_MAX p resp w"

text \<open>The report of the test, then \<^verbatim>\<open>_start\<close> up to power-off.\<close>

definition hello_report :: "'w trap \<Rightarrow> bool \<Rightarrow> bool \<Rightarrow> usize \<Rightarrow> bytes \<Rightarrow> 'w \<Rightarrow> 'w" where
  "hello_report trap write_ok read_ok rd resp w =
     (if write_ok \<and> read_ok then sys_log trap ''helloworld: fs write/read test passed'' w
      else
        let w = (if \<not> write_ok then
                   let w = sys_log trap ''helloworld: fs write not ok'' w in
                   if 6 \<le> length resp \<and> take 6 resp = lit ''EAGAIN''
                   then sys_log trap ''helloworld: fs write EAGAIN'' w else w
                 else w);
            w = (if \<not> read_ok then
                   let w = sys_log trap ''helloworld: fs read not ok'' w in
                   if rd = 6 \<and> take 6 resp = lit ''ENOENT'' then sys_log trap ''helloworld: fs read ENOENT'' w
                   else if rd = 6 \<and> take 6 resp = lit ''EAGAIN'' then sys_log trap ''helloworld: fs read EAGAIN'' w
                   else w
                 else w)
        in sys_log trap ''helloworld: fs write/read test failed'' w)"

definition hello_content :: bytes where
  "hello_content = lit ''mene-fs-content''"

definition hello_start :: "'w trap \<Rightarrow> 'w \<Rightarrow> 'w" where
  "hello_start trap w =
     (case init_allocator trap w of (_, w) \<Rightarrow>
      let w = sys_log trap ''helloworld: Service started, sending IPC to serial...'' w;
          w = sys_ipc_send_u trap SerialEndpoint (lit ''Hello World from mmap Vec!!'') None w;
          path = lit ''hello.txt''; content = hello_content;
          w = sys_log trap ''helloworld: fs write begin'' w
      in case fs_write trap path content (replicate 256 0) w of (write_ok, resp, w) \<Rightarrow>
      let w = sys_log trap ''helloworld: fs write done'' w;
          w = sys_log trap ''helloworld: fs read begin'' w
      in case fs_read_u trap path resp w of (rd, resp, w) \<Rightarrow>
      let read_ok = (length content \<le> unat rd \<and> take (length content) resp = content);
          w = sys_log trap ''helloworld: fs read done'' w;
          w = hello_report trap write_ok read_ok rd resp w;
          w = sys_log trap ''helloworld: IPC sent. Powering off in 2s...'' w;
          w = sys_sleep_ms trap 2000 w
      in sys_system_off_u trap w)"

end
