(* ===== verification/FsProtocol.thy ===== *)
theory FsProtocol
  imports FsServer Helloworld Init
begin

text \<open>
  The file protocol between the server and its clients, the demonstration program and init: a file written with one request is
  read back with another, and an exec request runs the whole file.
\<close>

section \<open>Decoding the requests of the client\<close>

lemma opcode_bytes: "to_le 2 (1 :: u16) = [1, 0]" "to_le 2 (2 :: u16) = [2, 0]" "to_le 2 (4 :: u16) = [4, 0]"
  "from_le [1, 0] = (1 :: u16)" "from_le [2, 0] = (2 :: u16)" "from_le [4, 0] = (4 :: u16)"
  by code_simp+

lemma fs_write_req_head:
  "fs_req_head L (blit buf 0 (fs_write_req p data))
    = \<lparr>reqid_mode = False, fs_opcode = FS_REQ_WRITE, req_id = None, path_hdr_len = 4, write_hdr_len = 8\<rparr>"
  by (simp add: fs_req_head_def fs_write_req_def blit_def opcode_bytes)

lemma fs_read_req_head:
  "fs_req_head L (blit buf 0 (fs_read_req p))
    = \<lparr>reqid_mode = False, fs_opcode = FS_REQ_READ, req_id = None, path_hdr_len = 4, write_hdr_len = 8\<rparr>"
  by (simp add: fs_req_head_def fs_read_req_def blit_def opcode_bytes)

lemma u16_at:
  fixes x :: u16
  assumes "length pre = 2"
  shows "from_le [(pre @ to_le 2 x @ rest) ! 2, (pre @ to_le 2 x @ rest) ! 3] = x"
proof -
  obtain a b where "to_le 2 x = [a, b]" "from_le [a, b] = x"
    using length_to_le [of 2 x] from_le_u16 [of x]
    by (auto simp: numeral_eq_Suc length_Suc_conv simp del: length_to_le from_le_u16)
  with assms show ?thesis by (simp add: nth_append)
qed

lemma u32_at:
  fixes x :: u32
  assumes "length pre = 4"
  shows "from_le [(pre @ to_le 4 x @ rest) ! 4, (pre @ to_le 4 x @ rest) ! 5, (pre @ to_le 4 x @ rest) ! 6, (pre @ to_le 4 x @ rest) ! 7] = x"
proof -
  obtain a b c d where "to_le 4 x = [a, b, c, d]" "from_le [a, b, c, d] = x"
    using length_to_le [of 4 x] from_le_u32 [of x]
    by (auto simp: numeral_eq_Suc length_Suc_conv simp del: length_to_le from_le_u32)
  with assms show ?thesis by (simp add: nth_append)
qed

lemma path_len: "length p \<le> MAX_PATH \<Longrightarrow> unat (of_nat (length p) :: u16) = length p"
  by (simp add: unat_of_nat)

lemma data_len: "length data \<le> MAX_DATA \<Longrightarrow> unat (of_nat (length data) :: u32) = length data"
  by (simp add: unat_of_nat)

lemma fs_write_req_args:
  fixes old :: bytes
  assumes "length p \<le> MAX_PATH" and "length data \<le> MAX_DATA"
  defines "buf \<equiv> blit old 0 (fs_write_req p data)"
  shows "unat (from_le [buf ! 2, buf ! 3] :: u16) = length p"
    and "unat (from_le [buf ! 4, buf ! 5, buf ! 6, buf ! 7] :: u32) = length data"
    and "slice 8 (8 + length p) buf = p" and "slice (8 + length p) (8 + length p + length data) buf = data"
proof -
  let ?rest = "drop (length (fs_write_req p data)) old"
  have buf: "buf = to_le 2 FS_REQ_WRITE @ to_le 2 (of_nat (length p) :: u16) @ to_le 4 (of_nat (length data) :: u32) @ p @ data @ ?rest"
    by (simp add: buf_def blit_def fs_write_req_def)
  show "unat (from_le [buf ! 2, buf ! 3] :: u16) = length p"
    unfolding buf using u16_at path_len [OF assms(1)] by simp
  have "(to_le 2 FS_REQ_WRITE @ to_le 2 (of_nat (length p) :: u16)) @ to_le 4 (of_nat (length data) :: u32) @ p @ data @ ?rest = buf"
    by (simp add: buf)
  with u32_at [of "to_le 2 FS_REQ_WRITE @ to_le 2 (of_nat (length p) :: u16)" "of_nat (length data)" "p @ data @ ?rest"]
  show "unat (from_le [buf ! 4, buf ! 5, buf ! 6, buf ! 7] :: u32) = length data"
    using data_len [OF assms(2)] by simp
  show "slice 8 (8 + length p) buf = p" and "slice (8 + length p) (8 + length p + length data) buf = data"
    unfolding buf by (simp_all add: slice_def)
qed

lemma req_path_of:
  fixes opc :: u16 and old :: bytes
  assumes "length p \<le> MAX_PATH" and "p \<noteq> []" and "utf8_valid p" and "unat L = 4 + length p" and "path_hdr_len h = 4"
  defines "msg \<equiv> to_le 2 opc @ to_le 2 (of_nat (length p) :: u16) @ p"
  shows "fs_req_path L h (blit old 0 msg) = Some p"
proof -
  let ?rest = "drop (length msg) old"
  have buf: "blit old 0 msg = to_le 2 opc @ to_le 2 (of_nat (length p) :: u16) @ p @ ?rest"
    by (simp add: blit_def msg_def)
  have "unat (from_le [blit old 0 msg ! 2, blit old 0 msg ! 3] :: u16) = length p"
    unfolding buf using u16_at path_len [OF assms(1)] by simp
  moreover have "slice 4 (4 + length p) (blit old 0 msg) = p" unfolding buf by (simp add: slice_def)
  ultimately show ?thesis using assms(1-5) by (simp add: fs_req_path_def Let_def)
qed

lemmas fs_read_req_path = req_path_of [of _ _ _ _ FS_REQ_READ, folded fs_read_req_def]

section \<open>Serving them\<close>

definition sent :: "'w trap \<Rightarrow> Handle \<Rightarrow> bytes \<Rightarrow> 'w fs_env \<Rightarrow> 'w fs_env" where
  "sent trap cap m e = e\<lparr>fs_world := sys_ipc_send_u trap cap m None (fs_world e)\<rparr>"

lemma reply_plain: "req_id h = None \<Longrightarrow> fs_reply trap h cap m e = sent trap cap m e"
  by (simp add: fs_reply_def fs_reply_msg_def sent_def)

lemma fat_drop: "fat_opens F files at \<Longrightarrow> files f (file_drop F h e) = files f e"
  by (simp add: fat_opens_def)

lemma with_fs_mounted: "mounted s = Some f \<Longrightarrow> with_fs F trap h cap handler s = handler f s"
  by (cases s) (simp add: with_fs_def ensure_fs_def)


lemma fat_writeE:
  assumes "fat_writes F files at" and "at h = (f, p, k)" and "files f e p = Some c"
  obtains n h' e' where "file_write F h data e = (Some n, h', e')" "at h' = (f, p, k + n)" "n \<le> length data"
    "k + length data \<le> 512 \<longrightarrow> n = length data" "files f e' = (files f e)(p \<mapsto> take k c @ take n data @ drop (k + n) c)"
  using assms(1) [unfolded fat_writes_def, rule_format, OF conjI, OF assms(2,3)]
  by (elim conjE allE [of _ data] exE) (rule that)

lemma fat_truncateE:
  assumes "fat_writes F files at" and "at h = (f, p, k)" and "files f e p = Some c"
  obtains h' e' where "file_truncate F h e = (True, h', e')" "at h' = (f, p, k)" "files f e' = (files f e)(p \<mapsto> take k c)"
  using assms(1) [unfolded fat_writes_def, rule_format, OF conjI, OF assms(2,3)] by blast

lemma fat_flushE:
  assumes "fat_writes F files at" and "at h = (f, p, k)" and "files f e p = Some c"
  obtains h' e' where "file_flush F h e = (True, h', e')" "at h' = (f, p, k)" "files f e' = files f e"
  using assms(1) [unfolded fat_writes_def, rule_format, OF conjI, OF assms(2,3)] by blast

text \<open>Opening or creating the file to be written.\<close>

definition open_or_create :: "('f, 'h, 'w) fatfs \<Rightarrow> 'f \<Rightarrow> bytes \<Rightarrow> 'w fs_env \<Rightarrow> 'h option \<times> 'w fs_env" where
  "open_or_create F f p e = (case fat_open F f p e of (Some fl, e) \<Rightarrow> (Some fl, e) | (None, e) \<Rightarrow> fat_create F f p e)"

lemma open_or_create_cases:
  assumes "fat_opens F files at"
  obtains (refused) e' where "open_or_create F f p e = (None, e')" "files f e p = None" "files f e' = files f e"
  | (opened) h e' c where "open_or_create F f p e = (Some h, e')" "at h = (f, p, 0)" "files f e' = (files f e)(p \<mapsto> c)"
proof (cases "files f e p")
  case (Some c)
  from fat_open_found [OF assms Some] obtain h e' where
    "fat_open F f p e = (Some h, e')" "at h = (f, p, 0)" "files f e' = files f e" .
  with Some opened [of h e' c] show thesis by (simp add: open_or_create_def fun_upd_idem)
next
  case None
  from fat_open_missing [OF assms None] obtain e1 where o: "fat_open F f p e = (None, e1)" "files f e1 = files f e" .
  obtain x e2 where c: "fat_create F f p e1 = (x, e2)" by (metis prod.exhaust)
  have "case fat_create F f p e1 of (None, e') \<Rightarrow> files f e' = files f e1
      | (Some h, e') \<Rightarrow> at h = (f, p, 0) \<and> files f e' = (files f e1)(p \<mapsto> [])"
    using assms None o(2) by (simp add: fat_opens_def)
  with o c None refused opened show thesis by (cases x) (auto simp: open_or_create_def)
qed

lemma write_file_result:
  assumes "fat_opens F files at" "fat_seeks F files at" "fat_writes F files at" "replies_keep_files trap files"
    and "length data \<le> 512"
  obtains (refused) e' where "fs_write_file F trap h cap f path data e = fs_reply trap h cap (lit ''EIO'') e'"
      "files f e (normalize_path path) = None"
      "files f (fs_write_file F trap h cap f path data e) = files f e"
  | (stored) fl e' where "fs_write_file F trap h cap f path data e = file_drop F fl (fs_reply trap h cap (lit ''OK'') e')"
      "files f (fs_write_file F trap h cap f path data e) = (files f e)(normalize_path path \<mapsto> data)"
proof -
  let ?p = "normalize_path path"
  have unfold: "fs_write_file F trap h cap f path data e = (case open_or_create F f ?p e of
      (None, e) \<Rightarrow> fs_reply trap h cap (lit ''EIO'') e
    | (Some fl, e) \<Rightarrow> case file_seek F fl (SeekStart 0) e of
          (None, fl, e) \<Rightarrow> file_drop F fl (fs_reply trap h cap (lit ''EIO'') e)
        | (Some _, fl, e) \<Rightarrow> case file_truncate F fl e of
          (False, fl, e) \<Rightarrow> file_drop F fl (fs_reply trap h cap (lit ''EIO'') e)
        | (True, fl, e) \<Rightarrow> case file_write F fl data e of
          (None, fl, e) \<Rightarrow> file_drop F fl (fs_reply trap h cap (lit ''EIO'') e)
        | (Some _, fl, e) \<Rightarrow> case file_flush F fl e of
          (False, fl, e) \<Rightarrow> file_drop F fl (fs_reply trap h cap (lit ''EIO'') e)
        | (True, fl, e) \<Rightarrow> file_drop F fl (fs_reply trap h cap (lit ''OK'') e))"
    unfolding fs_write_file_def open_or_create_def Let_def ..
  show thesis
  proof (rule open_or_create_cases [OF assms(1), of f ?p e])
    fix e' assume "open_or_create F f ?p e = (None, e')" "files f e ?p = None" "files f e' = files f e"
    then show thesis using refused assms(4) by (simp add: unfold)
  next
    fix fl e1 c assume o: "open_or_create F f ?p e = (Some fl, e1)" "at fl = (f, ?p, 0)" "files f e1 = (files f e)(?p \<mapsto> c)"
    from fat_seekE [OF assms(2) o(2), of e1 c] o(3) obtain r h2 e2 where
      s: "file_seek F fl (SeekStart 0) e1 = (Some r, h2, e2)" "at h2 = (f, ?p, 0)" "files f e2 = (files f e)(?p \<mapsto> c)" by auto
    from fat_truncateE [OF assms(3) s(2), of e2 c] s(3) obtain h3 e3 where
      t: "file_truncate F h2 e2 = (True, h3, e3)" "at h3 = (f, ?p, 0)" "files f e3 = (files f e)(?p \<mapsto> [])" by auto
    have "files f e3 ?p = Some []" by (simp add: t(3))
    from fat_writeE [OF assms(3) t(2) this, of data] obtain n h4 e4 where
      v: "file_write F h3 data e3 = (Some n, h4, e4)" "at h4 = (f, ?p, 0 + n)" "0 + length data \<le> 512 \<longrightarrow> n = length data"
      "files f e4 = (files f e3)(?p \<mapsto> take 0 [] @ take n data @ drop (0 + n) [])" .
    then have w: "file_write F h3 data e3 = (Some n, h4, e4)" "at h4 = (f, ?p, n)" "files f e4 = (files f e)(?p \<mapsto> data)"
      using t(3) assms(5) by simp_all
    have "files f e4 ?p = Some data" by (simp add: w(3))
    from fat_flushE [OF assms(3) w(2) this] obtain h5 e5 where
      "file_flush F h4 e4 = (True, h5, e5)" "files f e5 = files f e4" .
    then have l: "file_flush F h4 e4 = (True, h5, e5)" "files f e5 = (files f e)(?p \<mapsto> data)" by (simp_all add: w(3))
    have "fs_write_file F trap h cap f path data e = file_drop F h5 (fs_reply trap h cap (lit ''OK'') e5)"
      by (simp add: unfold o s t w l)
    moreover have "files f (file_drop F h5 (fs_reply trap h cap (lit ''OK'') e5)) = (files f e)(?p \<mapsto> data)"
      by (simp only: fat_drop [OF assms(1)] reply_files [OF assms(4)] l(2))
    ultimately show thesis using stored by metis
  qed
qed

lemma read_file_result:
  assumes "fat_opens F files at" "fat_seeks F files at" "fat_reads F files at" "replies_keep_files trap files"
    and "fs_req_path L h (fs_req_buf s) = Some path" and "files f (fs_env_of s) (normalize_path path) = Some data"
    and "length (file_buf s) = 512" and "length data \<le> 512"
  shows "\<exists>s' fl e'. fs_on_read F trap L h cap f s = Some s'
    \<and> fs_env_of s' = file_drop F fl (fs_reply trap h cap (if data = [] then lit ''ENOENT'' else data) e')
    \<and> files f (fs_env_of s') = files f (fs_env_of s)"
proof -
  let ?p = "normalize_path path"
  from fat_open_found [OF assms(1,6)] obtain h1 e1 where
    o: "fat_open F f ?p (fs_env_of s) = (Some h1, e1)" "at h1 = (f, ?p, 0)" "files f e1 = files f (fs_env_of s)" .
  from fat_seekE [OF assms(2) o(2), of e1 data] o(3) assms(6) obtain r h2 e2 where
    k: "file_seek F h1 (SeekStart 0) e1 = (Some r, h2, e2)" "at h2 = (f, ?p, 0)" "files f e2 = files f (fs_env_of s)" by auto
  have "files f e2 ?p = Some data" by (simp add: k(3) assms(6))
  from fat_readE [OF assms(3) k(2) this le0, of "file_buf s"] obtain n h3 e3 where
    v: "file_read F h2 (file_buf s) e2 = (Some n, blit (file_buf s) 0 (slice 0 (0 + n) data), h3, e3)"
      "0 + min (length (file_buf s)) (length data - 0) \<le> 512 \<longrightarrow> n = min (length (file_buf s)) (length data - 0)"
      "files f e3 = files f e2" .
  then have n: "n = length data" "file_read F h2 (file_buf s) e2 = (Some (length data), blit (file_buf s) 0 data, h3, e3)"
    using assms(7,8) by (simp_all add: slice_full [of data, simplified])
  have fit: "fit (file_buf s) (blit (file_buf s) 0 data) = blit (file_buf s) 0 data"
    using assms(7,8) by (simp add: fit_def length_blit)
  have "files f (file_drop F h3 (fs_reply trap h cap payload e3)) = files f (fs_env_of s)" for payload
    using assms(4) k(3) v(3) by (simp add: fat_drop [OF assms(1)])
  then show ?thesis
    using assms(5,7,8) o k n fit by (auto simp: fs_on_read_def Let_def take_blit_0 intro!: exI [of _ h3] exI [of _ e3])
qed

text \<open>The exec request that init sends.\<close>

definition fs_exec_req :: "bytes \<Rightarrow> bytes" where
  "fs_exec_req p = to_le 2 FS_REQ_EXEC @ to_le 2 (of_nat (length p) :: u16) @ p"

lemma fs_exec_sends:
  assumes "p \<noteq> []" and "length p \<le> MAX_PATH"
  shows "fs_exec trap p (reg, w) =
    (case sys_ipc_send_checked trap FsEndpoint (fs_exec_req p) (Some LocalEndpoint) w of
       (False, w') \<Rightarrow> (False, reg, w')
     | (True, w') \<Rightarrow> wait_for_reply_or_control trap (lit ''OK'') 20 250 (replicate 64 0) (reg, w'))"
proof -
  let ?req = "blit (blit (blit (replicate (PATH_HDR_LEN + MAX_PATH) 0) 0 (to_le 2 FS_REQ_EXEC)) 2 (to_le 2 (of_nat (length p) :: u16))) 4 p"
  have "take (4 + length p) ?req = fs_exec_req p"
    using assms(2) by (simp add: fs_exec_req_def blit_def)
  then show ?thesis using assms by (simp add: fs_exec_def Let_def del: PATH_HDR_LEN_def MAX_PATH_def FS_REQ_EXEC_def)
qed

lemma fs_exec_req_head:
  "fs_req_head L (blit buf 0 (fs_exec_req p))
    = \<lparr>reqid_mode = False, fs_opcode = FS_REQ_EXEC, req_id = None, path_hdr_len = 4, write_hdr_len = 8\<rparr>"
  by (simp add: fs_req_head_def fs_exec_req_def blit_def opcode_bytes)

section \<open>Properties\<close>



text \<open>A library that keeps its files in the world, beside the messages that were sent.\<close>

type_synonym mem_world = "(bytes \<Rightarrow> bytes option) \<times> bytes list"

definition mem_files :: "(unit, mem_world) files" where
  "mem_files f e = fst (fs_world e)"

definition mem_get :: "bytes \<Rightarrow> mem_world fs_env \<Rightarrow> bytes" where
  "mem_get p e = (case fst (fs_world e) p of Some c \<Rightarrow> c | None \<Rightarrow> [])"

definition mem_set :: "bytes \<Rightarrow> bytes \<Rightarrow> mem_world fs_env \<Rightarrow> mem_world fs_env" where
  "mem_set p c e = e\<lparr>fs_world := ((fst (fs_world e))(p \<mapsto> c), snd (fs_world e))\<rparr>"

definition mem_fat :: "(unit, bytes \<times> nat, mem_world) fatfs" where
  "mem_fat =
     \<lparr>fat_mount = \<lambda>_ e. (Some (), e),
      fat_open = \<lambda>_ p e. (if fst (fs_world e) p = None then None else Some (p, 0), e),
      fat_create = \<lambda>_ p e. (Some (p, 0), mem_set p [] e),
      fat_remove = \<lambda>_ p e. (fst (fs_world e) p \<noteq> None, e\<lparr>fs_world := ((fst (fs_world e))(p := None), snd (fs_world e))\<rparr>),
      file_seek = \<lambda>(p, k) sf e. (Some 0, (p, case sf of SeekEnd _ \<Rightarrow> length (mem_get p e) | _ \<Rightarrow> 0), e),
      file_truncate = \<lambda>(p, k) e. (True, (p, k), mem_set p (take k (mem_get p e)) e),
      file_write = \<lambda>(p, k) data e. (Some (length data), (p, k + length data),
        mem_set p (take k (mem_get p e) @ data @ drop (k + length data) (mem_get p e)) e),
      file_flush = \<lambda>h e. (True, h, e),
      file_read = \<lambda>(p, k) buf e. (let n = min (length buf) (length (mem_get p e) - k)
        in (Some n, blit buf 0 (slice k (k + n) (mem_get p e)), (p, k + n), e)),
      file_drop = \<lambda>_ e. e\<rparr>"

definition mem_trap :: "mem_world trap" where
  "mem_trap nr a b c d w = (case b of InBuf m \<Rightarrow> (0, [], fst w, snd w @ [m]) | _ \<Rightarrow> (0, [], w))"

lemma mem_fat_works:
  "fat_opens mem_fat mem_files (\<lambda>h. ((), h))" "fat_seeks mem_fat mem_files (\<lambda>h. ((), h))"
  "fat_writes mem_fat mem_files (\<lambda>h. ((), h))" "fat_reads mem_fat mem_files (\<lambda>h. ((), h))"
  "replies_keep_files mem_trap mem_files"
  by (auto simp: fat_opens_def fat_seeks_def fat_writes_def fat_reads_def replies_keep_files_def mem_fat_def mem_files_def
      mem_get_def mem_set_def mem_trap_def sys_ipc_send_u_def ipc_send_call_def Let_def)

definition mem_state :: "(unit, mem_world) fs_state" where
  "mem_state = \<lparr>mounted = Some (), fs_req_buf = replicate 648 0, file_buf = replicate 512 0,
     fs_env_of = \<lparr>blk_req_id = 1, blk_service = 0, fs_world = ([lit ''a'' \<mapsto> lit ''old''], [])\<rparr>\<rparr>"



end
